(* ===== verification/BCMS_Prelude.thy ===== *)
theory BCMS_Prelude
  imports Main "HOL-Library.AList" "HOL-Library.Product_Lexorder" "HOL-Library.List_Lexorder"
begin

text \<open>
  What every component of the model shares: the vocabulary of the code (identifiers,
  timestamps, text), the shape of an operation that reads and writes a database session
  and may raise, and the generic facts about tables (lists of rows) and dictionaries.
  Nothing here models a particular source file.
\<close>

section \<open>Collections of facts\<close>

named_theorems act_simps "how operations compose"
named_theorems preserves_intros "rules that keep an invariant through a composed operation"

section \<open>Basic types\<close>

text \<open>
  A UUID is a 128-bit number; its canonical text orders like the number, so the model
  uses the number. A \<open>datetime\<close> in UTC is a number of microseconds since the epoch, a
  \<open>date\<close> is its ordinal. Python text is a list of code points.
\<close>

type_synonym uuid = nat
type_synonym stamp = int
type_synonym day = int
type_synonym pystr = "nat list"
type_synonym cents = int

definition str :: "string \<Rightarrow> pystr" where
  "str s = map of_char s"

lemma str_simps [simp]:
  "str [] = []"
  "str (c # cs) = of_char c # str cs"
  by (simp_all add: str_def)

lemma length_str [simp]: "length (str s) = length s"
  by (simp add: str_def)

section \<open>Text operations of Python that the code uses\<close>

text \<open>The code points for which \<open>str.isspace\<close> holds: what \<open>str.strip()\<close> removes.\<close>

definition is_space :: "nat \<Rightarrow> bool" where
  "is_space c \<longleftrightarrow> (9 \<le> c \<and> c \<le> 13) \<or> (28 \<le> c \<and> c \<le> 32) \<or> c = 133 \<or> c = 160 \<or> c = 5760
     \<or> (8192 \<le> c \<and> c \<le> 8202) \<or> c = 8232 \<or> c = 8233 \<or> c = 8239 \<or> c = 8287 \<or> c = 12288"

definition strip :: "pystr \<Rightarrow> pystr" where
  "strip s = rev (dropWhile is_space (rev (dropWhile is_space s)))"

text \<open>
  \<open>str.lower()\<close> and \<open>str.upper()\<close> on ASCII letters. Other letters are left as they are:
  the code only compares the result with ASCII or Han labels, which no other letter of
  these comparisons lowers to.
\<close>

definition lower_char :: "nat \<Rightarrow> nat" where
  "lower_char c = (if 65 \<le> c \<and> c \<le> 90 then c + 32 else c)"

definition lower :: "pystr \<Rightarrow> pystr" where
  "lower s = map lower_char s"

text \<open>\<open>sub in s\<close> on strings, and \<open>s.endswith(sub)\<close>.\<close>

fun starts_with :: "pystr \<Rightarrow> pystr \<Rightarrow> bool" where
  "starts_with [] s = True"
| "starts_with (p # ps) [] = False"
| "starts_with (p # ps) (c # cs) = (p = c \<and> starts_with ps cs)"

fun contains :: "pystr \<Rightarrow> pystr \<Rightarrow> bool" where
  "contains p [] = (p = [])"
| "contains p (c # cs) = (starts_with p (c # cs) \<or> contains p cs)"

definition ends_with :: "pystr \<Rightarrow> pystr \<Rightarrow> bool" where
  "ends_with p s = starts_with (rev p) (rev s)"

lemma starts_with_iff: "starts_with p s \<longleftrightarrow> (\<exists>t. s = p @ t)"
  by (induction p s rule: starts_with.induct) auto

lemma contains_iff: "contains p s \<longleftrightarrow> (\<exists>u v. s = u @ p @ v)"
proof (induction s)
  case Nil
  then show ?case by auto
next
  case (Cons c cs)
  have "(\<exists>u v. c # cs = u @ p @ v) \<longleftrightarrow> (\<exists>v. c # cs = p @ v) \<or> (\<exists>u v. cs = u @ p @ v)"
    by (auto simp: Cons_eq_append_conv)
  with Cons show ?case by (simp add: starts_with_iff)
qed

lemma contains_append: "contains p s \<Longrightarrow> contains p (u @ s)"
  by (metis append.assoc contains_iff)

lemma contains_prefix: "contains p s \<Longrightarrow> contains p (s @ v)"
  by (metis append.assoc contains_iff)

lemma dropWhile_not_hd: "dropWhile P xs \<noteq> [] \<Longrightarrow> \<not> P (hd (dropWhile P xs))"
  by (rule hd_dropWhile)

lemma strip_idem [simp]: "strip (strip s) = strip s"
proof -
  define t where "t = dropWhile is_space s"
  have t: "dropWhile is_space t = t" by (simp add: t_def dropWhile_idem)
  define u where "u = dropWhile is_space (rev t)"
  have u: "dropWhile is_space u = u" by (simp add: u_def dropWhile_idem)
  have "dropWhile is_space (rev u) = rev u"
  proof (cases "u = []")
    case False
    have "rev t = takeWhile is_space (rev t) @ u" by (simp add: u_def)
    then have "t = rev u @ rev (takeWhile is_space (rev t))"
      by (metis rev_append rev_rev_ident)
    moreover from False have "rev u \<noteq> []" by simp
    ultimately have hd: "hd t = hd (rev u)" by (metis hd_append2)
    have "t \<noteq> []" using False by (auto simp: u_def)
    with t have "\<not> is_space (hd t)" by (metis hd_dropWhile)
    with hd \<open>rev u \<noteq> []\<close> show ?thesis by (cases "rev u") auto
  qed simp
  then show ?thesis by (simp add: strip_def u u_def t_def)
qed

lemma case_option_False: "(case x of None \<Rightarrow> False | Some i \<Rightarrow> P i) \<longleftrightarrow> (\<exists>i. x = Some i \<and> P i)"
  by (cases x) simp_all

section \<open>Operations that may raise\<close>

text \<open>
  An operation takes the state and returns either the exception it raised or its result,
  with the state it left: what it did before raising is not undone by raising.
\<close>

type_synonym ('e, 's, 'a) act = "'s \<Rightarrow> ('e + 'a) \<times> 's"

definition ret :: "'a \<Rightarrow> ('e, 's, 'a) act" where
  "ret x = (\<lambda>s. (Inr x, s))"

definition raise :: "'e \<Rightarrow> ('e, 's, 'a) act" where
  "raise e = (\<lambda>s. (Inl e, s))"

definition bnd :: "('e, 's, 'a) act \<Rightarrow> ('a \<Rightarrow> ('e, 's, 'b) act) \<Rightarrow> ('e, 's, 'b) act" where
  "bnd m f = (\<lambda>s. case m s of (Inl e, t) \<Rightarrow> (Inl e, t) | (Inr x, t) \<Rightarrow> f x t)"

definition sq :: "('e, 's, unit) act \<Rightarrow> ('e, 's, 'b) act \<Rightarrow> ('e, 's, 'b) act" where
  "sq m n = bnd m (\<lambda>_. n)"

definition gets :: "('s \<Rightarrow> 'a) \<Rightarrow> ('e, 's, 'a) act" where
  "gets f = (\<lambda>s. (Inr (f s), s))"

definition modify :: "('s \<Rightarrow> 's) \<Rightarrow> ('e, 's, unit) act" where
  "modify f = (\<lambda>s. (Inr (), f s))"

definition check :: "bool \<Rightarrow> 'e \<Rightarrow> ('e, 's, unit) act" where
  "check c e = (if c then ret () else raise e)"

definition lift :: "'e + 'a \<Rightarrow> ('e, 's, 'a) act" where
  "lift r = (\<lambda>s. (r, s))"

text \<open>\<open>try: m except e: h e\<close>; what \<open>m\<close> did to the state stays.\<close>

definition catch :: "('e, 's, 'a) act \<Rightarrow> ('e \<Rightarrow> ('e, 's, 'a) act) \<Rightarrow> ('e, 's, 'a) act" where
  "catch m h = (\<lambda>s. case m s of (Inl e, t) \<Rightarrow> h e t | (Inr x, t) \<Rightarrow> (Inr x, t))"

text \<open>\<open>try: m except Exception as e: ...\<close> with the outcome at hand.\<close>

definition attempt :: "('e, 's, 'a) act \<Rightarrow> ('e, 's, 'e + 'a) act" where
  "attempt m = (\<lambda>s. case m s of (r, t) \<Rightarrow> (Inr r, t))"

fun mapA :: "('x \<Rightarrow> ('e, 's, 'a) act) \<Rightarrow> 'x list \<Rightarrow> ('e, 's, 'a list) act" where
  "mapA f [] = ret []"
| "mapA f (x # xs) = bnd (f x) (\<lambda>y. bnd (mapA f xs) (\<lambda>ys. ret (y # ys)))"

lemma run_simps [act_simps, simp]:
  "ret x s = (Inr x, s)"
  "raise e s = (Inl e, s)"
  "gets f s = (Inr (f s), s)"
  "modify g s = (Inr (), g s)"
  "lift r s = (r, s)"
  by (simp_all add: ret_def raise_def gets_def modify_def lift_def)

lemma run_check [act_simps, simp]: "check c e s = (if c then Inr () else Inl e, s)"
  by (simp add: check_def)

lemma run_bnd [act_simps]:
  "bnd m f s = (case m s of (Inl e, t) \<Rightarrow> (Inl e, t) | (Inr x, t) \<Rightarrow> f x t)"
  by (simp add: bnd_def)

lemma run_sq [act_simps]:
  "sq m n s = (case m s of (Inl e, t) \<Rightarrow> (Inl e, t) | (Inr x, t) \<Rightarrow> n t)"
  by (simp add: sq_def bnd_def)

lemma run_catch [act_simps]:
  "catch m h s = (case m s of (Inl e, t) \<Rightarrow> h e t | (Inr x, t) \<Rightarrow> (Inr x, t))"
  by (simp add: catch_def)

lemma run_attempt [act_simps]: "attempt m s = (case m s of (r, t) \<Rightarrow> (Inr r, t))"
  by (simp add: attempt_def)

text \<open>Inversion: how a composed operation can have succeeded, or failed.\<close>

lemma bnd_Inr: "bnd m f s = (Inr y, t) \<longleftrightarrow> (\<exists>x u. m s = (Inr x, u) \<and> f x u = (Inr y, t))"
  by (auto simp: bnd_def split: prod.splits sum.splits)

lemma sq_Inr: "sq m n s = (Inr y, t) \<longleftrightarrow> (\<exists>u. m s = (Inr (), u) \<and> n u = (Inr y, t))"
  by (auto simp: sq_def bnd_Inr)

lemma bnd_Inl: "bnd m f s = (Inl e, t) \<longleftrightarrow>
    m s = (Inl e, t) \<or> (\<exists>x u. m s = (Inr x, u) \<and> f x u = (Inl e, t))"
  by (auto simp: bnd_def split: prod.splits sum.splits)

lemma sq_Inl: "sq m n s = (Inl e, t) \<longleftrightarrow>
    m s = (Inl e, t) \<or> (\<exists>u. m s = (Inr (), u) \<and> n u = (Inl e, t))"
  by (auto simp: sq_def bnd_Inl)

lemmas act_inv = bnd_Inr sq_Inr bnd_Inl sq_Inl

subsection \<open>Keeping an invariant\<close>

definition preserves :: "('s \<Rightarrow> bool) \<Rightarrow> ('e, 's, 'a) act \<Rightarrow> bool" where
  "preserves P m \<longleftrightarrow> (\<forall>s. P s \<longrightarrow> P (snd (m s)))"

lemma preservesD: "preserves P m \<Longrightarrow> P s \<Longrightarrow> m s = (r, t) \<Longrightarrow> P t"
  by (metis preserves_def snd_conv)

lemma preserves_run: "preserves P m \<Longrightarrow> P s \<Longrightarrow> P (snd (m s))"
  by (simp add: preserves_def)

lemma preserves_basic [preserves_intros]:
  "preserves P (ret x)"
  "preserves P (raise e)"
  "preserves P (gets f)"
  "preserves P (check c e)"
  "preserves P (lift r)"
  by (simp_all add: preserves_def)

lemma preserves_modify: "(\<And>s. P s \<Longrightarrow> P (g s)) \<Longrightarrow> preserves P (modify g)"
  by (simp add: preserves_def)

lemma preserves_bnd [preserves_intros]:
  "preserves P m \<Longrightarrow> (\<And>x. preserves P (f x)) \<Longrightarrow> preserves P (bnd m f)"
  by (auto simp: preserves_def bnd_def split: prod.splits sum.splits)

lemma preserves_sq [preserves_intros]:
  "preserves P m \<Longrightarrow> preserves P n \<Longrightarrow> preserves P (sq m n)"
  by (simp add: sq_def preserves_bnd)

lemma preserves_catch [preserves_intros]:
  "preserves P m \<Longrightarrow> (\<And>e. preserves P (h e)) \<Longrightarrow> preserves P (catch m h)"
  by (auto simp: preserves_def catch_def split: prod.splits sum.splits)

lemma preserves_attempt [preserves_intros]: "preserves P m \<Longrightarrow> preserves P (attempt m)"
  by (auto simp: preserves_def attempt_def split: prod.splits)

lemma preserves_mapA [preserves_intros]:
  "(\<And>x. preserves P (f x)) \<Longrightarrow> preserves P (mapA f xs)"
  by (induction xs) (simp_all add: preserves_intros)

lemma preserves_if [preserves_intros]:
  "(c \<Longrightarrow> preserves P m) \<Longrightarrow> (\<not> c \<Longrightarrow> preserves P n) \<Longrightarrow> preserves P (if c then m else n)"
  by simp

lemma preserves_option [preserves_intros]:
  "(x = None \<Longrightarrow> preserves P m) \<Longrightarrow> (\<And>y. x = Some y \<Longrightarrow> preserves P (f y))
    \<Longrightarrow> preserves P (case x of None \<Rightarrow> m | Some y \<Rightarrow> f y)"
  by (cases x) simp_all

lemma preserves_sum [preserves_intros]:
  "(\<And>e. x = Inl e \<Longrightarrow> preserves P (f e)) \<Longrightarrow> (\<And>y. x = Inr y \<Longrightarrow> preserves P (g y))
    \<Longrightarrow> preserves P (case x of Inl e \<Rightarrow> f e | Inr y \<Rightarrow> g y)"
  by (cases x) simp_all

lemma preserves_list [preserves_intros]:
  "(x = [] \<Longrightarrow> preserves P m) \<Longrightarrow> (\<And>y ys. x = y # ys \<Longrightarrow> preserves P (f y ys))
    \<Longrightarrow> preserves P (case x of [] \<Rightarrow> m | y # ys \<Rightarrow> f y ys)"
  by (cases x) simp_all

lemma preserves_prod [preserves_intros]:
  "(\<And>a b. x = (a, b) \<Longrightarrow> preserves P (f a b)) \<Longrightarrow> preserves P (case x of (a, b) \<Rightarrow> f a b)"
  by (cases x) simp_all

lemma preserves_Let [preserves_intros]: "preserves P (f x) \<Longrightarrow> preserves P (Let x f)"
  by simp

lemma preserves_conj:
  "preserves P m \<Longrightarrow> preserves Q m \<Longrightarrow> preserves (\<lambda>s. P s \<and> Q s) m"
  by (simp add: preserves_def)

section \<open>Tables\<close>

text \<open>
  A table is the list of its rows in insertion order. \<open>db.get(Model, key)\<close> finds a row by
  primary key; assigning to attributes of a loaded row changes the row with that key.
\<close>

definition get_row :: "('r \<Rightarrow> 'k) \<Rightarrow> 'k \<Rightarrow> 'r list \<Rightarrow> 'r option" where
  "get_row key k rows = find (\<lambda>r. key r = k) rows"

definition upd_row :: "('r \<Rightarrow> 'k) \<Rightarrow> 'k \<Rightarrow> ('r \<Rightarrow> 'r) \<Rightarrow> 'r list \<Rightarrow> 'r list" where
  "upd_row key k f rows = map (\<lambda>r. if key r = k then f r else r) rows"

lemma get_row_Some: "get_row key k rows = Some r \<Longrightarrow> r \<in> set rows \<and> key r = k"
  by (auto simp: get_row_def find_Some_iff)

lemma get_row_None: "get_row key k rows = None \<longleftrightarrow> k \<notin> key ` set rows"
  by (auto simp: get_row_def find_None_iff)

lemma get_row_distinct:
  "distinct (map key rows) \<Longrightarrow> r \<in> set rows \<Longrightarrow> get_row key (key r) rows = Some r"
proof (induction rows)
  case (Cons a rows)
  then show ?case by (cases "a = r") (auto simp: get_row_def image_iff)
qed simp

lemma upd_row_keys [simp]:
  "(\<And>r. key (f r) = key r) \<Longrightarrow> map key (upd_row key k f rows) = map key rows"
  by (simp add: upd_row_def)

lemma length_upd_row [simp]: "length (upd_row key k f rows) = length rows"
  by (simp add: upd_row_def)

lemma get_upd_row:
  "(\<And>r. key (f r) = key r) \<Longrightarrow>
    get_row key j (upd_row key k f rows) =
      (if j = k then map_option f (get_row key j rows) else get_row key j rows)"
  by (induction rows) (auto simp: get_row_def upd_row_def)

lemma get_row_append:
  "get_row key k (rows @ new) =
    (case get_row key k rows of None \<Rightarrow> get_row key k new | Some r \<Rightarrow> Some r)"
  by (induction rows) (auto simp: get_row_def)

text \<open>Rows with distinct keys.\<close>

lemma distinct_map_eq: "distinct (map f xs) \<Longrightarrow> x \<in> set xs \<Longrightarrow> y \<in> set xs \<Longrightarrow> f x = f y \<Longrightarrow> x = y"
  by (simp add: distinct_map inj_on_def)

text \<open>Reading and writing the row just added.\<close>

lemma get_row_new: "k \<notin> key ` set rows \<Longrightarrow> key r = k \<Longrightarrow> get_row key k (rows @ [r]) = Some r"
  by (simp add: get_row_append get_row_None [THEN iffD2]) (simp add: get_row_def)

lemma upd_row_new: "k \<notin> key ` set rows \<Longrightarrow> key r = k \<Longrightarrow>
    upd_row key k (\<lambda>_. r') (rows @ [r]) = rows @ [r']"
  by (simp add: upd_row_def) (rule map_idI, auto simp: image_iff)

text \<open>\<open>ORDER BY e ASC\<close> and \<open>ORDER BY e DESC\<close> (rows with equal keys keep insertion order).\<close>

definition order_asc :: "('r \<Rightarrow> 'k::linorder) \<Rightarrow> 'r list \<Rightarrow> 'r list" where
  "order_asc e rows = sort_key e rows"

definition order_desc :: "('r \<Rightarrow> int) \<Rightarrow> 'r list \<Rightarrow> 'r list" where
  "order_desc e rows = sort_key (\<lambda>r. - e r) rows"

lemma set_order [simp]:
  "set (order_asc e rows) = set rows"
  "set (order_desc e' rows) = set rows"
  by (simp_all add: order_asc_def order_desc_def)

lemma order_Nil [simp]: "order_asc e [] = []" "order_desc e' [] = []"
  by (simp_all add: order_asc_def order_desc_def)

text \<open>Consecutive pages of one size.\<close>

lemma pages_concat: "concat (map (\<lambda>p. take k (drop (p * k) xs)) [0..<n]) = take (n * k) xs"
proof (induction n)
  case (Suc n)
  then show ?case by (simp add: take_add [symmetric] add.commute)
qed simp

text \<open>\<open>.first()\<close> of a result.\<close>

definition first_row :: "'r list \<Rightarrow> 'r option" where
  "first_row rows = (case rows of [] \<Rightarrow> None | r # _ \<Rightarrow> Some r)"

lemma first_row_simps [simp]: "first_row [] = None" "first_row (r # rs) = Some r"
  by (simp_all add: first_row_def)

lemma first_order_desc_None: "first_row (order_desc e rows) = None \<longleftrightarrow> rows = []"
proof -
  have "order_desc e rows = [] \<longleftrightarrow> rows = []"
    by (metis length_0_conv length_sort order_desc_def)
  then show ?thesis by (cases "order_desc e rows") simp_all
qed

lemma first_order_desc_Some:
  assumes "first_row (order_desc e rows) = Some r"
  shows "r \<in> set rows \<and> (\<forall>x \<in> set rows. e x \<le> e r)"
proof (cases "order_desc e rows")
  case (Cons a as)
  with assms have r: "order_desc e rows = r # as" by simp
  have "sorted (map (\<lambda>r. - e r) (order_desc e rows))"
    by (simp add: order_desc_def)
  with r have "\<forall>x \<in> set as. e x \<le> e r" by simp
  moreover have "set rows = insert r (set as)"
    using r by (metis list.simps(15) set_order(2))
  ultimately show ?thesis by auto
qed (use assms in simp)

section \<open>Dictionaries\<close>

text \<open>
  A Python \<open>dict\<close> is its list of items in insertion order, with distinct keys:
  \<open>d[k] = v\<close> is \<open>AList.update\<close>, \<open>d.get(k)\<close> is \<open>map_of d k\<close>.
\<close>

type_synonym ('k, 'v) dict = "('k \<times> 'v) list"

text \<open>\<open>d[k] = d.get(k, Decimal("0")) + x\<close>: the aggregation every report is made of.\<close>

definition dict_add :: "'k \<Rightarrow> int \<Rightarrow> ('k, int) dict \<Rightarrow> ('k, int) dict" where
  "dict_add k x d = AList.update k (case map_of d k of None \<Rightarrow> x | Some a \<Rightarrow> a + x) d"

fun sum_by :: "('r \<Rightarrow> 'k) \<Rightarrow> ('r \<Rightarrow> int) \<Rightarrow> 'r list \<Rightarrow> ('k, int) dict \<Rightarrow> ('k, int) dict" where
  "sum_by key amt [] d = d"
| "sum_by key amt (r # rs) d = sum_by key amt rs (dict_add (key r) (amt r) d)"

lemma map_of_dict_add:
  "map_of (dict_add k x d) = (map_of d)(k \<mapsto> (case map_of d k of None \<Rightarrow> x | Some a \<Rightarrow> a + x))"
  by (simp only: dict_add_def update_conv')

lemma distinct_dict_add [simp]:
  "distinct (map fst d) \<Longrightarrow> distinct (map fst (dict_add k x d))"
  by (simp add: dict_add_def distinct_update)

text \<open>The table of sums the loops compute: a key is present iff a row has it.\<close>

definition total :: "('r \<Rightarrow> 'k) \<Rightarrow> ('r \<Rightarrow> int) \<Rightarrow> 'r list \<Rightarrow> 'k \<Rightarrow> int" where
  "total key amt rs k = sum_list (map amt (filter (\<lambda>r. key r = k) rs))"

lemma total_simps [simp]:
  "total key amt [] k = 0"
  "total key amt (r # rs) k = (if key r = k then amt r else 0) + total key amt rs k"
  by (simp_all add: total_def)

lemma total_absent: "k \<notin> key ` set rs \<Longrightarrow> total key amt rs k = 0"
  by (induction rs) auto

lemma map_of_sum_by:
  "map_of (sum_by key amt rs d) k =
     (if k \<in> key ` set rs
      then Some ((case map_of d k of None \<Rightarrow> 0 | Some a \<Rightarrow> a) + total key amt rs k)
      else map_of d k)"
proof (induction rs arbitrary: d)
  case (Cons r rs)
  show ?case
    by (cases "k \<in> key ` set rs"; cases "key r = k")
      (auto simp: Cons.IH map_of_dict_add total_absent split: option.splits)
qed simp

lemma distinct_sum_by [simp]:
  "distinct (map fst d) \<Longrightarrow> distinct (map fst (sum_by key amt rs d))"
  by (induction rs arbitrary: d) simp_all

text \<open>\<open>d.setdefault(key(r), r)\<close> over a list: the first row of each key wins.\<close>

fun first_by :: "('r \<Rightarrow> 'k) \<Rightarrow> 'r list \<Rightarrow> ('k, 'r) dict \<Rightarrow> ('k, 'r) dict" where
  "first_by key [] d = d"
| "first_by key (r # rs) d =
     first_by key rs (case map_of d (key r) of None \<Rightarrow> d @ [(key r, r)] | Some _ \<Rightarrow> d)"

lemma map_of_first_by:
  "map_of (first_by key rs d) k =
     (case map_of d k of Some r \<Rightarrow> Some r | None \<Rightarrow> find (\<lambda>r. key r = k) rs)"
proof (induction rs arbitrary: d)
  case (Cons r rs)
  then show ?case by (auto simp: map_add_def split: option.splits)
qed (auto split: option.splits)

lemma distinct_first_by [simp]:
  "distinct (map fst d) \<Longrightarrow> distinct (map fst (first_by key rs d))"
proof (induction rs arbitrary: d)
  case (Cons r rs)
  then show ?case by (auto simp: map_of_eq_None_iff split: option.splits)
qed simp

end
