(* ===== verification/Py_Decimal.thy ===== *)
theory Py_Decimal
  imports BCMS_Prelude
begin

text \<open>
  What the code uses of Python's \<open>decimal\<close> module, part of the language's standard library:
  values, the constructor from text, and \<open>quantize\<close> to two decimals with
  \<open>ROUND_HALF_EVEN\<close> in the default context (28 significant digits). A finite value is
  \<open>(-1)^neg * coeff * 10^exp\<close>. Exponents are not bounded here: the constructor of the
  module refuses exponents beyond \<open>10^18\<close>, which quantization would refuse anyway.
\<close>

datatype decimal = Finite (neg: bool) (coeff: nat) (exponent: int) | Infinite bool | NaN

section \<open>Digits and the constructor from text\<close>

text \<open>
  The zero of each run of ten decimal digits of the basic multilingual plane; the
  constructor reads any of them, so the full-width digits of an East Asian keyboard are
  digits too.
\<close>

definition digit_zeros :: "nat list" where
  "digit_zeros = [48, 65296, 1632, 1776, 1984, 2406, 2534, 2662, 2790, 2918, 3046, 3174, 3302,
     3430, 3558, 3664, 3792, 3872, 4160, 4240, 6112, 6160, 6470, 6608, 6784, 6800, 6992, 7088,
     7232, 7248, 42528, 43216, 43264, 43472, 43504, 43600, 44016]"

definition digit_val :: "nat \<Rightarrow> nat option" where
  "digit_val c = map_option (\<lambda>z. c - z) (find (\<lambda>z. z \<le> c \<and> c < z + 10) digit_zeros)"

lemma digit_val_lt: "digit_val c = Some d \<Longrightarrow> d < 10"
  by (auto simp: digit_val_def find_Some_iff)

text \<open>Reads the longest run of digits: how many, their value, and the rest of the text.\<close>

fun read_digits :: "pystr \<Rightarrow> nat \<Rightarrow> nat \<Rightarrow> nat \<times> nat \<times> pystr" where
  "read_digits [] n v = (n, v, [])"
| "read_digits (c # cs) n v =
     (case digit_val c of None \<Rightarrow> (n, v, c # cs) | Some d \<Rightarrow> read_digits cs (Suc n) (10 * v + d))"

definition read_sign :: "pystr \<Rightarrow> bool \<times> pystr" where
  "read_sign s = (case s of c # cs \<Rightarrow> if c = 45 then (True, cs) else if c = 43 then (False, cs) else (False, s)
                          | [] \<Rightarrow> (False, s))"

text \<open>The exponent part: absent, or \<open>e\<close>/\<open>E\<close>, a sign and at least one digit, to the end.\<close>

definition read_exponent :: "pystr \<Rightarrow> int option" where
  "read_exponent s =
     (case s of [] \<Rightarrow> Some 0
      | c # cs \<Rightarrow> if c = 101 \<or> c = 69
          then (case read_sign cs of (sg, ds) \<Rightarrow>
                 case read_digits ds 0 0 of (n, v, rest) \<Rightarrow>
                   if n = 0 \<or> rest \<noteq> [] then None else Some (if sg then - int v else int v))
          else None)"

definition read_number :: "bool \<Rightarrow> pystr \<Rightarrow> decimal option" where
  "read_number sg s =
     (case read_digits s 0 0 of (n, v, rest) \<Rightarrow>
       case (case rest of c # cs \<Rightarrow> if c = 46 then read_digits cs 0 v else (0, v, rest)
                   | [] \<Rightarrow> (0, v, rest)) of (m, w, rest') \<Rightarrow>
         if n + m = 0 then None
         else map_option (\<lambda>e. Finite sg w (e - int m)) (read_exponent rest'))"

definition all_digits :: "pystr \<Rightarrow> bool" where
  "all_digits s = list_all (\<lambda>c. digit_val c \<noteq> None) s"

definition decimal_of_text :: "pystr \<Rightarrow> decimal option" where
  "decimal_of_text s =
     (case read_sign (filter (\<lambda>c. c \<noteq> 95) (strip s)) of (sg, t) \<Rightarrow>
       let l = lower t in
       if l = str ''inf'' \<or> l = str ''infinity'' then Some (Infinite sg)
       else if starts_with (str ''nan'') l \<and> all_digits (drop 3 t) then Some NaN
       else if starts_with (str ''snan'') l \<and> all_digits (drop 4 t) then Some NaN
       else read_number sg t)"

section \<open>Quantizing to two decimals\<close>

text \<open>Division by \<open>10^k\<close>, a tie going to the even neighbour.\<close>

definition round_half_even :: "nat \<Rightarrow> nat \<Rightarrow> nat" where
  "round_half_even c k =
     (let p = 10 ^ k; q = c div p; r = c mod p
      in if p < 2 * r \<or> (2 * r = p \<and> odd q) then q + 1 else q)"

text \<open>
  \<open>quantize(Decimal("0.01"), ROUND_HALF_EVEN)\<close> as the number of hundredths: the coefficient
  of the result, or \<open>None\<close> where it would need more than 28 digits (\<open>InvalidOperation\<close>).
\<close>

definition quantize_cents :: "nat \<Rightarrow> int \<Rightarrow> nat option" where
  "quantize_cents c e =
     (let q = (if e \<ge> - 2 then c * 10 ^ nat (e + 2) else round_half_even c (nat (- 2 - e)))
      in if q < 10 ^ 28 then Some q else None)"

lemma round_half_even_bound:
  "2 * \<bar>int c - int (round_half_even c k) * 10 ^ k\<bar> \<le> 10 ^ k"
proof -
  define p :: nat where "p = 10 ^ k"
  define q where "q = c div p"
  define r where "r = c mod p"
  have p: "0 < p" by (simp add: p_def)
  have c: "int c = int q * int p + int r"
    by (simp add: q_def r_def flip: of_nat_mult of_nat_add)
  have r: "r < p" using p by (simp add: r_def)
  have pk: "(10::int) ^ k = int p" by (simp add: p_def)
  have rd: "round_half_even c k = (if p < 2 * r \<or> (2 * r = p \<and> odd q) then q + 1 else q)"
    by (simp add: round_half_even_def p_def q_def r_def Let_def)
  have "2 * \<bar>int c - int (round_half_even c k) * int p\<bar> \<le> int p"
  proof (cases "p < 2 * r \<or> (2 * r = p \<and> odd q)")
    case True
    then have "round_half_even c k = q + 1" unfolding rd by (rule if_P)
    then have "int c - int (round_half_even c k) * int p = int r - int p"
      by (simp add: c algebra_simps)
    moreover from True have "int p \<le> 2 * int r" by linarith
    ultimately show ?thesis using r by (simp only: abs_if) simp
  next
    case False
    then have "round_half_even c k = q" unfolding rd by (rule if_not_P)
    then have "int c - int (round_half_even c k) * int p = int r" by (simp add: c)
    moreover from False have "2 * int r \<le> int p" by linarith
    ultimately show ?thesis by simp
  qed
  then show ?thesis by (simp only: pk)
qed

lemma round_half_even_tie:
  assumes "2 * (c mod 10 ^ k) = 10 ^ k"
  shows "even (round_half_even c k)"
  using assms by (simp add: round_half_even_def Let_def)

text \<open>Quantizing is exact on values with at most two decimals, and off by at most half a cent.\<close>

lemma quantize_exact:
  "e \<ge> - 2 \<Longrightarrow> quantize_cents c e = Some q \<Longrightarrow> q = c * 10 ^ nat (e + 2)"
  by (simp add: quantize_cents_def Let_def split: if_splits)

lemma quantize_close:
  assumes "e < - 2" "quantize_cents c e = Some q"
  shows "2 * \<bar>int c - int q * 10 ^ nat (- 2 - e)\<bar> \<le> 10 ^ nat (- 2 - e)"
  using assms round_half_even_bound [of c "nat (- 2 - e)"]
  by (auto simp: quantize_cents_def Let_def split: if_splits)

lemma quantize_range: "quantize_cents c e = Some q \<Longrightarrow> q < 10 ^ 28"
  by (simp add: quantize_cents_def Let_def split: if_splits)

section \<open>The text of a number of cents\<close>

text \<open>Decimal digits of a natural number, and \<open>str\<close> of a decimal with two places.\<close>

fun nat_text :: "nat \<Rightarrow> pystr" where
  "nat_text n = (if n < 10 then [48 + n] else nat_text (n div 10) @ [48 + n mod 10])"

declare nat_text.simps [simp del]

definition int_text :: "int \<Rightarrow> pystr" where
  "int_text i = (if i < 0 then 45 # nat_text (nat (- i)) else nat_text (nat i))"

definition cents_text :: "cents \<Rightarrow> pystr" where
  "cents_text a = (if a < 0 then [45] else []) @
     (let n = nat \<bar>a\<bar> in nat_text (n div 100) @ [46, 48 + n mod 100 div 10, 48 + n mod 10])"

lemma digit_val_ascii:
  assumes "d < 10"
  shows "digit_val (48 + d) = Some d" and "digit_val (d + 48) = Some d"
  using assms by (simp_all add: digit_val_def digit_zeros_def)

lemma read_digits_nat_text:
  "read_digits (nat_text n @ rest) m v =
     read_digits rest (m + length (nat_text n)) (v * 10 ^ length (nat_text n) + n)"
proof (induction n arbitrary: rest m v rule: nat_text.induct)
  case (1 n)
  show ?case
  proof (cases "n < 10")
    case True
    then show ?thesis by (simp add: nat_text.simps [of n] digit_val_ascii algebra_simps)
  next
    case False
    let ?t = "nat_text (n div 10)"
    have "read_digits (nat_text n @ rest) m v = read_digits (?t @ (48 + n mod 10) # rest) m v"
      using False by (simp add: nat_text.simps [of n])
    also have "\<dots> = read_digits ((48 + n mod 10) # rest) (m + length ?t) (v * 10 ^ length ?t + n div 10)"
      using "1.IH" [OF False] by simp
    also have "\<dots> = read_digits rest (Suc (m + length ?t)) (10 * (v * 10 ^ length ?t + n div 10) + n mod 10)"
      by (simp add: digit_val_ascii del: of_nat_add)
    also have "10 * (v * 10 ^ length ?t + n div 10) + n mod 10 = v * 10 ^ length (nat_text n) + n"
      using False by (simp add: nat_text.simps [of n] algebra_simps)
    finally show ?thesis using False by (simp add: nat_text.simps [of n])
  qed
qed

lemma nat_text_nonempty [simp]: "nat_text n \<noteq> []"
  by (subst nat_text.simps) simp

lemma nat_text_digits: "c \<in> set (nat_text n) \<Longrightarrow> 48 \<le> c \<and> c < 58"
proof (induction n rule: nat_text.induct)
  case (1 n)
  then show ?case by (subst (asm) nat_text.simps) (auto split: if_splits)
qed

end
