(* ===== verification/Row_Validation.thy ===== *)
theory Row_Validation
  imports Py_Decimal
begin

text \<open>
  \<^verbatim>\<open>domain/_shared/row_validation.py\<close>: the cell normalizer and the amount parser that
  the four importers share, and the interface each row validator implements (locale
  \<open>row_validator\<close>): every row is checked, all errors are collected, and rows are
  returned only when there is no error at all.
\<close>

section \<open>Cells\<close>

text \<open>
  What a spreadsheet or CSV cell can hold. A float is given by its \<open>repr\<close> text (which is
  what \<open>parse_amount\<close> and \<open>clean_cell\<close> read of it), any other object, such as a date, by
  its \<open>str\<close> text.
\<close>

datatype cell = Cell_None | Cell_Bool bool | Cell_Int int | Cell_Float pystr
  | Cell_Decimal decimal | Cell_Str pystr | Cell_Other pystr

type_synonym raw_row = "(pystr, cell) dict"

text \<open>
  \<open>str(value)\<close>. A \<open>Decimal\<close> never comes out of a file; its text is rendered for the plain
  notation only (an exponent between -6 and 0 would be needed for the scientific one).
\<close>

definition decimal_text :: "decimal \<Rightarrow> pystr" where
  "decimal_text d = (case d of
      Infinite sg \<Rightarrow> (if sg then [45] else []) @ str ''Infinity''
    | NaN \<Rightarrow> str ''NaN''
    | Finite sg c e \<Rightarrow> (if sg then [45] else []) @
        (if e \<ge> 0 then nat_text (c * 10 ^ nat e)
         else (let ds = nat_text c; k = nat (- e); pad = replicate (Suc k - length ds) 48 @ ds
               in take (length pad - k) pad @ [46] @ drop (length pad - k) pad)))"

definition cell_text :: "cell \<Rightarrow> pystr" where
  "cell_text v = (case v of Cell_None \<Rightarrow> str ''None''
     | Cell_Bool b \<Rightarrow> str (if b then ''True'' else ''False'')
     | Cell_Int i \<Rightarrow> int_text i | Cell_Float t \<Rightarrow> t | Cell_Decimal d \<Rightarrow> decimal_text d
     | Cell_Str s \<Rightarrow> s | Cell_Other t \<Rightarrow> t)"

definition clean_cell :: "cell \<Rightarrow> pystr option" where
  "clean_cell value = (case value of
      Cell_None \<Rightarrow> None
    | Cell_Str s \<Rightarrow> (let stripped = strip s in if stripped = [] then None else Some stripped)
    | _ \<Rightarrow> (let text = strip (cell_text value) in if text = [] then None else Some text))"

lemma clean_cell_nonempty: "clean_cell v = Some t \<Longrightarrow> t \<noteq> [] \<and> strip t = t"
  by (cases v) (auto simp: clean_cell_def Let_def split: if_splits)

section \<open>Amounts\<close>

text \<open>
  The reasons \<open>parse_amount\<close> raises with. Two callers search the text of the reason, so
  the texts are modelled: \<open>reason_text\<close>. Only the reason for text that is not numeric
  carries text of the file (as its \<open>repr\<close>); the rendered number at the end of the other
  texts, which cannot contain the phrases searched for, is left out.
\<close>

datatype amount_reason = Amount_empty | Amount_bool | Amount_not_numeric pystr
  | Amount_unsupported | Amount_not_finite | Amount_negative | Amount_not_positive
  | Amount_overflow

text \<open>\<open>repr\<close> of a text: quotes, backslashes and control characters are escaped.\<close>

definition hex_digit :: "nat \<Rightarrow> nat" where
  "hex_digit d = (if d < 10 then 48 + d else 87 + d)"

definition repr_char :: "nat \<Rightarrow> nat \<Rightarrow> pystr" where
  "repr_char q c = (if c = q \<or> c = 92 then [92, c]
     else if c = 9 then [92, 116] else if c = 10 then [92, 110] else if c = 13 then [92, 114]
     else if c < 32 \<or> c = 127 then [92, 120, hex_digit (c div 16), hex_digit (c mod 16)]
     else [c])"

definition repr_text :: "pystr \<Rightarrow> pystr" where
  "repr_text s = (let q = (if 39 \<in> set s \<and> 34 \<notin> set s then 34 else 39)
                  in [q] @ concat (map (repr_char q) s) @ [q])"

definition reason_text :: "amount_reason \<Rightarrow> pystr" where
  "reason_text r = (case r of
      Amount_empty \<Rightarrow> str ''amount is empty''
    | Amount_bool \<Rightarrow> str ''amount must be numeric, got bool''
    | Amount_not_numeric s \<Rightarrow> str ''amount is not numeric: '' @ repr_text s
    | Amount_unsupported \<Rightarrow> str ''amount has unsupported type: ''
    | Amount_not_finite \<Rightarrow> str ''amount is not finite: ''
    | Amount_negative \<Rightarrow> str ''amount must be non-negative, got ''
    | Amount_not_positive \<Rightarrow> str ''amount must be strictly positive''
    | Amount_overflow \<Rightarrow> str ''amount overflow: '')"

text \<open>The conversion to \<open>Decimal\<close> (the first half of \<open>parse_amount\<close>).\<close>

definition amount_value :: "cell \<Rightarrow> amount_reason + decimal" where
  "amount_value value = (case value of
      Cell_None \<Rightarrow> Inl Amount_empty
    | Cell_Bool _ \<Rightarrow> Inl Amount_bool
    | Cell_Decimal d \<Rightarrow> Inr d
    | Cell_Int i \<Rightarrow> Inr (Finite (i < 0) (nat \<bar>i\<bar>) 0)
    | Cell_Float t \<Rightarrow> (case decimal_of_text t of None \<Rightarrow> Inl (Amount_not_numeric t) | Some d \<Rightarrow> Inr d)
    | Cell_Str s \<Rightarrow> (let stripped = strip s in
        if stripped = [] then Inl Amount_empty
        else case decimal_of_text stripped of None \<Rightarrow> Inl (Amount_not_numeric s) | Some d \<Rightarrow> Inr d)
    | Cell_Other _ \<Rightarrow> Inl Amount_unsupported)"

text \<open>The checks and the quantization; the amount is a number of cents.\<close>

definition parse_amount :: "cell \<Rightarrow> bool \<Rightarrow> amount_reason + cents" where
  "parse_amount value allow_zero =
     (case amount_value value of Inl r \<Rightarrow> Inl r
      | Inr d \<Rightarrow> (case d of
          Infinite _ \<Rightarrow> Inl Amount_not_finite
        | NaN \<Rightarrow> Inl Amount_not_finite
        | Finite sg c e \<Rightarrow>
            if sg \<and> c \<noteq> 0 then Inl Amount_negative
            else if c = 0 \<and> \<not> allow_zero then Inl Amount_not_positive
            else (case quantize_cents c e of None \<Rightarrow> Inl Amount_overflow | Some q \<Rightarrow> Inr (int q))))"

text \<open>How a parse can have succeeded.\<close>

lemma parse_amount_Inr:
  "parse_amount v az = Inr a \<longleftrightarrow>
    (\<exists>sg c e q. amount_value v = Inr (Finite sg c e) \<and> \<not> (sg \<and> c \<noteq> 0) \<and> (c = 0 \<longrightarrow> az)
       \<and> quantize_cents c e = Some q \<and> a = int q)"
  by (auto simp: parse_amount_def split: sum.splits decimal.splits if_splits option.splits)

lemma parse_amount_nonneg: "parse_amount v az = Inr a \<Longrightarrow> 0 \<le> a"
  by (auto simp: parse_amount_Inr)

lemma parse_amount_range: "parse_amount v az = Inr a \<Longrightarrow> a < 10 ^ 28"
  by (auto simp: parse_amount_Inr dest!: quantize_range)

text \<open>
  The rejection of zero looks at the value before rounding: a positive amount below half a
  cent passes and is stored as zero.
\<close>

lemma parse_amount_below_half_cent:
  "parse_amount (Cell_Str (str ''0.004'')) False = Inr 0"
  by (simp add: parse_amount_def amount_value_def decimal_of_text_def read_number_def read_sign_def
    read_exponent_def digit_val_def digit_zeros_def strip_def is_space_def lower_def lower_char_def
    quantize_cents_def round_half_even_def all_digits_def Let_def)

section \<open>Row errors and validation results\<close>

datatype reason = Reason_amount amount_reason | Reason_positive
  | Reason_cell_empty | Reason_unknown pystr | Reason_unknown_none
  | Reason_not_in_category | Reason_unknown_headers "pystr list" | Reason_missing_columns "pystr list"
  | Reason_no_rows | Reason_file_too_large | Reason_too_many_rows

record row_error =
  err_row :: nat
  err_column :: "string option"
  err_code :: string
  err_reason :: reason

definition row_err :: "nat \<Rightarrow> string \<Rightarrow> string \<Rightarrow> reason \<Rightarrow> row_error" where
  "row_err n col code r = \<lparr>err_row = n, err_column = Some col, err_code = code, err_reason = r\<rparr>"

definition file_err :: "string \<Rightarrow> reason \<Rightarrow> row_error" where
  "file_err code r = \<lparr>err_row = 0, err_column = None, err_code = code, err_reason = r\<rparr>"

record 'c validation_result =
  rows :: "'c list"
  errors :: "row_error list"

definition valid :: "'c validation_result \<Rightarrow> bool" where
  "valid r \<longleftrightarrow> length (errors r) = 0"

section \<open>The interface of the row validators\<close>

text \<open>
  A validator is a loop over the rows of a file, numbered from \<open>first\<close>, that collects the
  errors of every row and the cleaned rows; it hands out the cleaned rows only if no row
  had an error. \<open>run\<close> is the validator's loop, \<open>check_row\<close> what it does with one row.
\<close>

locale row_validator =
  fixes check_row :: "nat \<Rightarrow> 'r \<Rightarrow> row_error list + 'c"
    and first :: nat
    and run :: "'r list \<Rightarrow> 'c validation_result"
  assumes row_reports: "check_row n r = Inl es \<Longrightarrow> es \<noteq> [] \<and> (\<forall>e \<in> set es. err_row e = n)"
    and run_errors: "errors (run rs) =
      concat (map (\<lambda>(i, r). case check_row (first + i) r of Inl es \<Rightarrow> es | Inr _ \<Rightarrow> [])
        (zip [0..<length rs] rs))"
    and run_rows: "rows (run rs) =
      (if errors (run rs) = []
       then map (\<lambda>(i, r). projr (check_row (first + i) r)) (zip [0..<length rs] rs) else [])"
begin

lemma in_numbered: "(i, r) \<in> set (zip [0..<length rs] rs) \<longleftrightarrow> i < length rs \<and> r = rs ! i"
  by (force simp: in_set_zip)

lemma valid_iff: "valid (run rs) \<longleftrightarrow> (\<forall>i < length rs. \<exists>c. check_row (first + i) (rs ! i) = Inr c)"
proof
  assume "valid (run rs)"
  then have none: "\<And>i r. (i, r) \<in> set (zip [0..<length rs] rs) \<Longrightarrow>
      (case check_row (first + i) r of Inl es \<Rightarrow> es | Inr _ \<Rightarrow> []) = []"
    by (auto simp: valid_def run_errors)
  show "\<forall>i < length rs. \<exists>c. check_row (first + i) (rs ! i) = Inr c"
  proof (intro allI impI)
    fix i assume "i < length rs"
    with none [of i "rs ! i"] show "\<exists>c. check_row (first + i) (rs ! i) = Inr c"
      by (cases "check_row (first + i) (rs ! i)") (auto simp: in_numbered dest: row_reports)
  qed
next
  assume ok: "\<forall>i < length rs. \<exists>c. check_row (first + i) (rs ! i) = Inr c"
  then show "valid (run rs)"
    by (auto simp: valid_def run_errors in_numbered split: sum.splits)
qed

text \<open>All or nothing: cleaned rows come out only of a file without errors, one per row.\<close>

lemma all_or_nothing: "rows (run rs) \<noteq> [] \<Longrightarrow> valid (run rs)"
  by (simp add: run_rows valid_def split: if_splits)

lemma one_per_row:
  assumes "valid (run rs)"
  shows "length (rows (run rs)) = length rs"
    and "i < length rs \<Longrightarrow> check_row (first + i) (rs ! i) = Inr (rows (run rs) ! i)"
proof -
  from assms have r: "rows (run rs) =
      map (\<lambda>(i, r). projr (check_row (first + i) r)) (zip [0..<length rs] rs)"
    by (simp add: run_rows valid_def)
  then show "length (rows (run rs)) = length rs" by simp
  assume i: "i < length rs"
  with assms obtain c where "check_row (first + i) (rs ! i) = Inr c"
    by (auto simp: valid_iff)
  with r i show "check_row (first + i) (rs ! i) = Inr (rows (run rs) ! i)" by simp
qed

text \<open>Every faulty row is reported, and no other row is.\<close>

lemma reported_rows:
  "err_row ` set (errors (run rs)) =
     {first + i | i. i < length rs \<and> (\<exists>es. check_row (first + i) (rs ! i) = Inl es)}"
proof (intro equalityI subsetI)
  fix n assume "n \<in> err_row ` set (errors (run rs))"
  then obtain e where e: "n = err_row e" "e \<in> set (errors (run rs))" by blast
  from e(2) obtain i r where ir: "(i, r) \<in> set (zip [0..<length rs] rs)"
      and er: "e \<in> set (case check_row (first + i) r of Inl es \<Rightarrow> es | Inr _ \<Rightarrow> [])"
    unfolding run_errors by auto
  from er obtain es where es: "check_row (first + i) r = Inl es" "e \<in> set es"
    by (cases "check_row (first + i) r") simp_all
  with row_reports e(1) have "n = first + i" by blast
  with ir es(1) show "n \<in> {first + i | i. i < length rs \<and> (\<exists>es. check_row (first + i) (rs ! i) = Inl es)}"
    by (auto simp: in_numbered)
next
  fix n assume "n \<in> {first + i | i. i < length rs \<and> (\<exists>es. check_row (first + i) (rs ! i) = Inl es)}"
  then obtain i es where i: "i < length rs" and n: "n = first + i"
      and c: "check_row (first + i) (rs ! i) = Inl es" by auto
  with row_reports obtain e where e: "e \<in> set es" "err_row e = n"
    by (metis last_in_set)
  have "(i, rs ! i) \<in> set (zip [0..<length rs] rs)" by (simp add: in_numbered i)
  with c e have "e \<in> set (errors (run rs))"
    by (auto simp: run_errors intro!: bexI [of _ "(i, rs ! i)"])
  with e show "n \<in> err_row ` set (errors (run rs))" by auto
qed

end

text \<open>
  The loop most validators write: number the rows, send each outcome to the list of errors
  or of cleaned rows, and drop the cleaned rows if there was an error.
\<close>

fun collect_rows :: "(nat \<Rightarrow> 'r \<Rightarrow> row_error list + 'c) \<Rightarrow> nat \<Rightarrow> 'r list
    \<Rightarrow> row_error list \<Rightarrow> 'c list \<Rightarrow> row_error list \<times> 'c list" where
  "collect_rows chk n [] es cs = (es, cs)"
| "collect_rows chk n (r # rs) es cs =
     (case chk n r of Inl e \<Rightarrow> collect_rows chk (Suc n) rs (es @ e) cs
      | Inr c \<Rightarrow> collect_rows chk (Suc n) rs es (cs @ [c]))"

lemma zip_upt_Cons: "zip [k..<k + length (r # rs)] (r # rs) = (k, r) # zip [Suc k..<Suc k + length rs] rs"
  by (subst upt_conv_Cons) auto

lemma zip_upt_shift_map:
  "map (\<lambda>(i, r). f i r) (zip [k..<k + length rs] rs) =
   map (\<lambda>(i, r). f (k + i) r) (zip [0..<length rs] rs)"
  by (rule nth_equalityI) auto

lemma collect_rows_errors:
  "fst (collect_rows chk n rs es cs) =
     es @ concat (map (\<lambda>(i, r). case chk i r of Inl e \<Rightarrow> e | Inr _ \<Rightarrow> [])
       (zip [n..<n + length rs] rs))"
proof (induction rs arbitrary: n es cs)
  case (Cons r rs)
  show ?case
    unfolding zip_upt_Cons by (simp add: Cons.IH split: sum.splits)
qed simp

lemma collect_rows_rows:
  "(\<And>i r e. chk i r = Inl e \<Longrightarrow> e \<noteq> []) \<Longrightarrow> fst (collect_rows chk n rs es cs) = es \<Longrightarrow>
   snd (collect_rows chk n rs es cs) =
     cs @ map (\<lambda>(i, r). projr (chk i r)) (zip [n..<n + length rs] rs)"
proof (induction rs arbitrary: n es cs)
  case (Cons r rs)
  show ?case
  proof (cases "chk n r")
    case (Inl e)
    with Cons.prems(1) have "e \<noteq> []" by blast
    with Cons.prems(2) Inl show ?thesis by (simp add: collect_rows_errors)
  next
    case (Inr c)
    with Cons show ?thesis unfolding zip_upt_Cons by simp
  qed
qed simp

text \<open>A validator that is this loop satisfies the interface.\<close>

lemma collect_rows_validator:
  assumes reports: "\<And>n r es. chk n r = Inl es \<Longrightarrow> es \<noteq> [] \<and> (\<forall>e \<in> set es. err_row e = n)"
    and run: "\<And>rs. run rs = (case collect_rows chk k rs [] [] of (es, cs) \<Rightarrow>
        if es \<noteq> [] then \<lparr>rows = [], errors = es\<rparr> else \<lparr>rows = cs, errors = []\<rparr>)"
  shows "row_validator chk k run"
proof
  have E: "errors (run rs) = fst (collect_rows chk k rs [] [])" for rs
    by (auto simp: run split: prod.splits)
  show "errors (run rs) = concat (map (\<lambda>(i, r). case chk (k + i) r of Inl es \<Rightarrow> es | Inr _ \<Rightarrow> [])
        (zip [0..<length rs] rs))" for rs
    by (simp only: E collect_rows_errors zip_upt_shift_map append_Nil)
  have nonempty: "\<And>i r e. chk i r = Inl e \<Longrightarrow> e \<noteq> []" using reports by blast
  show "rows (run rs) = (if errors (run rs) = []
       then map (\<lambda>(i, r). projr (chk (k + i) r)) (zip [0..<length rs] rs) else [])" for rs
  proof (cases "errors (run rs) = []")
    case True
    then have "fst (collect_rows chk k rs [] []) = []" by (simp add: E)
    moreover from this have "rows (run rs) = snd (collect_rows chk k rs [] [])"
      by (cases "collect_rows chk k rs [] []") (simp add: run)
    ultimately show ?thesis
      using True collect_rows_rows [of chk k rs "[]" "[]", OF nonempty]
      by (simp add: zip_upt_shift_map)
  next
    case False
    then show ?thesis by (auto simp: run split: prod.splits if_splits)
  qed
qed (use reports in blast)

end
