(* ===== verification/Core_Errors.thy ===== *)
theory Core_Errors
  imports Row_Validation
begin

text \<open>
  \<^verbatim>\<open>core/errors.py\<close>: the registry of error codes, the exception classes and how they are
  built, and \<^verbatim>\<open>main.py\<close>'s mapping of a raised exception to the HTTP answer. The
  human-readable messages are not modelled; the details of a batch error are its row
  errors.
\<close>

definition ERROR_REGISTRY :: "(string \<times> nat) list" where
  "ERROR_REGISTRY = [
    (''AUTH_001'', 503), (''AUTH_002'', 400), (''AUTH_003'', 403), (''AUTH_004'', 401),
    (''RBAC_001'', 403), (''RBAC_002'', 403),
    (''CYCLE_001'', 409), (''CYCLE_002'', 409), (''CYCLE_003'', 409), (''CYCLE_004'', 409),
    (''CYCLE_005'', 409),
    (''ACCOUNT_001'', 404), (''ACCOUNT_002'', 400),
    (''TPL_001'', 500), (''TPL_002'', 404), (''TPL_003'', 500),
    (''UPLOAD_001'', 413), (''UPLOAD_002'', 400), (''UPLOAD_003'', 400), (''UPLOAD_004'', 400),
    (''UPLOAD_005'', 400), (''UPLOAD_006'', 400), (''UPLOAD_007'', 400), (''UPLOAD_008'', 404),
    (''PERS_001'', 400), (''PERS_002'', 400), (''PERS_003'', 400), (''PERS_004'', 400),
    (''SHARED_001'', 400), (''SHARED_002'', 400), (''SHARED_003'', 400), (''SHARED_004'', 400),
    (''REPORT_001'', 404), (''REPORT_002'', 410),
    (''NOTIFY_001'', 502), (''NOTIFY_002'', 500), (''NOTIFY_003'', 404),
    (''AUDIT_001'', 500), (''AUDIT_002'', 400),
    (''SYS_001'', 500), (''SYS_002'', 500), (''SYS_003'', 500),
    (''CSV_001'', 400), (''TABULAR_001'', 400)]"

datatype exn_class = AppError | BatchValidationError | NotFoundError | ConflictError
  | ForbiddenError | UnauthenticatedError | InfraError

record app_error =
  cls :: exn_class
  code :: string
  http_status :: nat
  details :: "row_error list"

text \<open>
  What can be raised: an application error, or one of Python's, SQLAlchemy's and jinja2's
  own (an integrity error is how the database answers a violated constraint, an undefined
  error how a strict template answers a missing variable, an attribute or type error what a
  value of another type than the annotated one leads to, an \<open>Http_error\<close> the \<open>HTTPException\<close> a route
  raises itself, or the 422 of a request body that does not fit its schema).
\<close>

datatype exn = App app_error | Key_error | Value_error | Integrity_error | Undefined_error
  | Attribute_error | Type_error | Http_error nat string

text \<open>\<open>AppError.__init__\<close>: an unknown code is a \<open>KeyError\<close>, whatever was meant to be raised.\<close>

definition app_error_init :: "exn_class \<Rightarrow> string \<Rightarrow> row_error list \<Rightarrow> exn" where
  "app_error_init c cd ds =
     (case map_of ERROR_REGISTRY cd of
        None \<Rightarrow> Key_error
      | Some status \<Rightarrow> App \<lparr>cls = c, code = cd, http_status = status, details = ds\<rparr>)"

abbreviation app_err :: "exn_class \<Rightarrow> string \<Rightarrow> exn" where
  "app_err c cd \<equiv> app_error_init c cd []"

definition batch_validation_error :: "string \<Rightarrow> row_error list \<Rightarrow> exn" where
  "batch_validation_error cd errs = app_error_init BatchValidationError cd errs"

text \<open>The HTTP answer: an application error's own status and code, 500 \<open>SYS_003\<close> otherwise.\<close>

definition error_response :: "exn \<Rightarrow> nat \<times> string" where
  "error_response e = (case e of App a \<Rightarrow> (http_status a, code a)
     | Http_error st cd \<Rightarrow> (st, cd)
     | _ \<Rightarrow> (case app_error_init AppError ''SYS_003'' [] of App a \<Rightarrow> (http_status a, code a)
              | _ \<Rightarrow> (500, '''')))"

text \<open>\<open>except InfraError\<close> and \<open>except (InfraError, AppError)\<close>: the latter is the base class.\<close>

definition is_infra_error :: "exn \<Rightarrow> bool" where
  "is_infra_error e = (case e of App a \<Rightarrow> cls a = InfraError | _ \<Rightarrow> False)"

definition is_app_error :: "exn \<Rightarrow> bool" where
  "is_app_error e = (case e of App a \<Rightarrow> True | _ \<Rightarrow> False)"

lemma is_error_simps [simp]:
  "is_infra_error (app_error_init c cd ds) \<longleftrightarrow> c = InfraError \<and> map_of ERROR_REGISTRY cd \<noteq> None"
  "is_app_error (app_error_init c cd ds) \<longleftrightarrow> map_of ERROR_REGISTRY cd \<noteq> None"
  "\<not> is_infra_error Undefined_error" "\<not> is_app_error Undefined_error"
  "\<not> is_infra_error Integrity_error" "\<not> is_app_error Integrity_error"
  by (auto simp: is_infra_error_def is_app_error_def app_error_init_def split: option.splits)

definition has_code :: "string \<Rightarrow> exn \<Rightarrow> bool" where
  "has_code cd e = (case e of App a \<Rightarrow> code a = cd | _ \<Rightarrow> False)"

lemma registered_code:
  "map_of ERROR_REGISTRY cd = Some st \<Longrightarrow>
    app_error_init c cd ds = App \<lparr>cls = c, code = cd, http_status = st, details = ds\<rparr>"
  by (simp add: app_error_init_def)

lemma registry_distinct: "distinct (map fst ERROR_REGISTRY)"
  by (simp add: ERROR_REGISTRY_def)

lemma registry_is_error: "map_of ERROR_REGISTRY cd = Some st \<Longrightarrow> 400 \<le> st \<and> st < 600"
  by (auto simp: ERROR_REGISTRY_def split: if_splits)

lemma registry_lookup [simp]:
  "map_of ERROR_REGISTRY ''AUTH_001'' = Some 503"
  "map_of ERROR_REGISTRY ''AUTH_002'' = Some 400"
  "map_of ERROR_REGISTRY ''AUTH_003'' = Some 403"
  "map_of ERROR_REGISTRY ''AUTH_004'' = Some 401"
  "map_of ERROR_REGISTRY ''RBAC_001'' = Some 403"
  "map_of ERROR_REGISTRY ''RBAC_002'' = Some 403"
  "map_of ERROR_REGISTRY ''CYCLE_001'' = Some 409"
  "map_of ERROR_REGISTRY ''CYCLE_002'' = Some 409"
  "map_of ERROR_REGISTRY ''CYCLE_003'' = Some 409"
  "map_of ERROR_REGISTRY ''CYCLE_004'' = Some 409"
  "map_of ERROR_REGISTRY ''CYCLE_005'' = Some 409"
  "map_of ERROR_REGISTRY ''ACCOUNT_001'' = Some 404"
  "map_of ERROR_REGISTRY ''ACCOUNT_002'' = Some 400"
  "map_of ERROR_REGISTRY ''TPL_001'' = Some 500"
  "map_of ERROR_REGISTRY ''TPL_002'' = Some 404"
  "map_of ERROR_REGISTRY ''TPL_003'' = Some 500"
  "map_of ERROR_REGISTRY ''UPLOAD_001'' = Some 413"
  "map_of ERROR_REGISTRY ''UPLOAD_002'' = Some 400"
  "map_of ERROR_REGISTRY ''UPLOAD_003'' = Some 400"
  "map_of ERROR_REGISTRY ''UPLOAD_004'' = Some 400"
  "map_of ERROR_REGISTRY ''UPLOAD_005'' = Some 400"
  "map_of ERROR_REGISTRY ''UPLOAD_006'' = Some 400"
  "map_of ERROR_REGISTRY ''UPLOAD_007'' = Some 400"
  "map_of ERROR_REGISTRY ''UPLOAD_008'' = Some 404"
  "map_of ERROR_REGISTRY ''PERS_001'' = Some 400"
  "map_of ERROR_REGISTRY ''PERS_002'' = Some 400"
  "map_of ERROR_REGISTRY ''PERS_003'' = Some 400"
  "map_of ERROR_REGISTRY ''PERS_004'' = Some 400"
  "map_of ERROR_REGISTRY ''SHARED_001'' = Some 400"
  "map_of ERROR_REGISTRY ''SHARED_002'' = Some 400"
  "map_of ERROR_REGISTRY ''SHARED_003'' = Some 400"
  "map_of ERROR_REGISTRY ''SHARED_004'' = Some 400"
  "map_of ERROR_REGISTRY ''REPORT_001'' = Some 404"
  "map_of ERROR_REGISTRY ''REPORT_002'' = Some 410"
  "map_of ERROR_REGISTRY ''NOTIFY_001'' = Some 502"
  "map_of ERROR_REGISTRY ''NOTIFY_002'' = Some 500"
  "map_of ERROR_REGISTRY ''NOTIFY_003'' = Some 404"
  "map_of ERROR_REGISTRY ''AUDIT_001'' = Some 500"
  "map_of ERROR_REGISTRY ''AUDIT_002'' = Some 400"
  "map_of ERROR_REGISTRY ''SYS_001'' = Some 500"
  "map_of ERROR_REGISTRY ''SYS_002'' = Some 500"
  "map_of ERROR_REGISTRY ''SYS_003'' = Some 500"
  "map_of ERROR_REGISTRY ''CSV_001'' = Some 400"
  "map_of ERROR_REGISTRY ''TABULAR_001'' = Some 400"
  by (simp_all add: ERROR_REGISTRY_def)

lemma has_code_app_error [simp]:
  "has_code cd (app_error_init c cd' ds) \<longleftrightarrow> cd = cd' \<and> map_of ERROR_REGISTRY cd \<noteq> None"
  by (auto simp: app_error_init_def has_code_def split: option.splits)

lemma has_code_others [simp]:
  "\<not> has_code cd Key_error" "\<not> has_code cd Value_error" "\<not> has_code cd Integrity_error"
  "\<not> has_code cd Undefined_error"
  by (simp_all add: has_code_def)

end
