(* ===== verification/Models.thy ===== *)
theory Models
  imports Core_Errors
begin

text \<open>
  The tables (\<^verbatim>\<open>domain/*/models.py\<close>, \<^verbatim>\<open>core/security/models.py\<close>), the constraints the
  baseline migration puts on them, and the database session the services work on
  (\<^verbatim>\<open>infra/db/session.py\<close>): a transaction's view of the tables beside the committed ones.
\<close>

section \<open>Enumerations\<close>

datatype cycle_state = draft | "open" | closed

datatype account_category = operational | personnel | shared_cost

datatype upload_status = pending | valid_status | invalid_status

datatype notification_template = CYCLE_OPENED | UPLOAD_CONFIRMED | RESUBMIT_REQUESTED
  | DEADLINE_REMINDER | PERSONNEL_IMPORTED | SHARED_COST_IMPORTED | REPORT_EXPORT_READY

datatype notification_status = queued | sent | failed

datatype job_status = job_queued | job_running | job_succeeded | job_failed

datatype audit_action = LOGIN_SUCCESS | LOGIN_AUTHORIZE_FAILED | LOGOUT | SESSION_EXPIRED
  | RBAC_DENIED | AUTH_FAILED
  | CYCLE_OPEN | CYCLE_CLOSE | CYCLE_REOPEN | CYCLE_CREATE | CYCLE_REMINDER_SET
  | FILING_UNIT_EXCLUDED
  | TEMPLATE_GENERATE | TEMPLATE_DOWNLOAD | TEMPLATE_REGENERATE
  | BUDGET_UPLOAD | BUDGET_UPLOAD_FAILED
  | PERSONNEL_IMPORT | PERSONNEL_IMPORT_FAILED
  | SHARED_COST_IMPORT | SHARED_COST_IMPORT_FAILED
  | ACCOUNT_CREATE | ACCOUNT_UPDATE | ACTUALS_IMPORT
  | NOTIFY_SENT | NOTIFY_FAILED | NOTIFY_RESENT | RESUBMIT_REQUEST
  | REPORT_EXPORT_QUEUED | REPORT_EXPORT_COMPLETE | REPORT_EXPORT_FAILED
  | CHAIN_VERIFIED | AUDIT_EXPORT | USER_ROLE_UPDATED | ORG_UNIT_CREATED | ORG_UNIT_UPDATED

text \<open>The values of a JSONB column.\<close>

datatype json = JNull | JBool bool | JInt int | JText pystr | JName string | JAction audit_action | JUuid uuid
  | JTime stamp | JArr "json list" | JObj "(string \<times> json) list"

text \<open>What a value is worth in a condition.\<close>

definition truthy :: "json \<Rightarrow> bool" where
  "truthy v = (case v of JNull \<Rightarrow> False | JBool b \<Rightarrow> b | JInt i \<Rightarrow> i \<noteq> 0 | JText t \<Rightarrow> t \<noteq> [] | JName t \<Rightarrow> t \<noteq> []
     | JArr vs \<Rightarrow> vs \<noteq> [] | JObj kvs \<Rightarrow> kvs \<noteq> [] | _ \<Rightarrow> True)"

type_synonym bytes = "nat list"

section \<open>Rows\<close>

record org_unit =
  ou_id :: uuid
  ou_code :: pystr
  ou_name :: pystr
  level_code :: pystr
  parent_id :: "uuid option"
  is_filing_unit :: bool
  is_reviewer_only :: bool
  excluded_for_cycle_ids :: "uuid list"
  ou_updated_at :: stamp

record user =
  user_id :: uuid
  sso_id_hash :: bytes
  user_name :: pystr
  email_enc :: bytes
  email_hash :: bytes
  user_roles :: "string list"
  user_org_unit_id :: "uuid option"
  is_active :: bool
  user_created_at :: stamp
  user_updated_at :: stamp

record auth_session =
  sess_id :: uuid
  sess_user_id :: uuid
  refresh_token_hash :: bytes
  csrf_token :: pystr
  sess_ip :: "pystr option"
  sess_agent :: "pystr option"
  last_activity_at :: stamp
  absolute_expires_at :: stamp
  revoked_at :: "stamp option"
  sess_created_at :: stamp

record budget_cycle =
  cycle_id :: uuid
  fiscal_year :: int
  deadline :: day
  reporting_currency :: pystr
  cycle_status :: cycle_state
  opened_at :: "stamp option"
  closed_at :: "stamp option"
  closed_by :: "uuid option"
  reopen_reason :: "pystr option"
  reopened_at :: "stamp option"
  created_by :: uuid
  created_at :: stamp
  updated_at :: stamp

record reminder_schedule =
  rs_id :: uuid
  rs_cycle_id :: uuid
  days_before :: int
  rs_created_at :: stamp

record account_code =
  ac_id :: uuid
  ac_code :: pystr
  ac_name :: pystr
  category :: account_category
  ac_level :: int
  ac_active :: bool
  ac_updated_at :: stamp

record actual_expense =
  ae_id :: uuid
  ae_cycle_id :: uuid
  ae_org_unit_id :: uuid
  ae_account_code_id :: uuid
  ae_amount :: cents
  imported_at :: stamp
  imported_by :: uuid

record budget_upload =
  bu_id :: uuid
  bu_cycle_id :: uuid
  bu_org_unit_id :: uuid
  bu_uploader_id :: uuid
  bu_version :: int
  bu_file_path_enc :: bytes
  file_size_bytes :: int
  row_count :: int
  bu_status :: upload_status
  bu_uploaded_at :: stamp

record budget_line =
  bl_upload_id :: uuid
  bl_account_code_id :: uuid
  bl_amount :: cents

text \<open>Personnel and shared-cost imports have the same columns.\<close>

record import_upload =
  iu_id :: uuid
  iu_cycle_id :: uuid
  iu_uploader_id :: uuid
  iu_uploaded_at :: stamp
  iu_filename :: pystr
  iu_version :: int
  iu_summary :: json

record import_line =
  il_upload_id :: uuid
  il_org_unit_id :: uuid
  il_account_code_id :: uuid
  il_amount :: cents

record excel_template =
  et_id :: uuid
  et_cycle_id :: uuid
  et_org_unit_id :: uuid
  et_file_path_enc :: bytes
  et_generated_at :: stamp
  et_generated_by :: uuid
  download_count :: int
  generation_error :: "exn option"

record notification =
  notif_id :: uuid
  recipient_id :: uuid
  notif_type :: notification_template
  notif_status :: notification_status
  related_resource :: "(string \<times> uuid) option"
  bounce_reason :: "exn option"
  notif_created_at :: stamp
  sent_at :: "stamp option"

record resubmit_request =
  rr_id :: uuid
  rr_cycle_id :: uuid
  rr_org_unit_id :: uuid
  requester_id :: uuid
  target_version :: "int option"
  rr_reason :: pystr
  requested_at :: stamp

record audit_log =
  al_id :: uuid
  sequence_no :: nat
  al_user_id :: "uuid option"
  action :: audit_action
  resource_type :: string
  resource_id :: "uuid option"
  ip_address :: "pystr option"
  al_details :: json
  prev_hash :: bytes
  hash_chain_value :: bytes
  occurred_at :: stamp

text \<open>What a failed job records: the text of the exception, or that its type has no handler.\<close>

datatype job_error = Handler_raised exn | No_handler string

record job_run =
  job_id :: uuid
  job_type :: string
  job_run_status :: job_status
  job_payload :: json
  job_result :: json
  error_message :: "job_error option"
  enqueued_by :: "uuid option"
  enqueued_at :: stamp
  started_at :: "stamp option"
  finished_at :: "stamp option"
  attempts :: int

record db =
  org_units :: "org_unit list"
  users :: "user list"
  auth_sessions :: "auth_session list"
  budget_cycles :: "budget_cycle list"
  reminder_schedules :: "reminder_schedule list"
  account_codes :: "account_code list"
  actual_expenses :: "actual_expense list"
  budget_uploads :: "budget_upload list"
  budget_lines :: "budget_line list"
  personnel_uploads :: "import_upload list"
  personnel_lines :: "import_line list"
  shared_uploads :: "import_upload list"
  shared_lines :: "import_line list"
  excel_templates :: "excel_template list"
  notifications :: "notification list"
  resubmit_requests :: "resubmit_request list"
  audit_logs :: "audit_log list"
  job_runs :: "job_run list"

definition empty_db :: db where
  "empty_db = \<lparr>org_units = [], users = [], auth_sessions = [], budget_cycles = [],
     reminder_schedules = [], account_codes = [], actual_expenses = [], budget_uploads = [],
     budget_lines = [], personnel_uploads = [], personnel_lines = [], shared_uploads = [],
     shared_lines = [], excel_templates = [], notifications = [], resubmit_requests = [],
     audit_logs = [], job_runs = []\<rparr>"

section \<open>Constraints of the schema\<close>

text \<open>
  The unique and check constraints of \<^verbatim>\<open>0001_baseline.py\<close>, table by table (foreign keys
  are not modelled: the services only store identifiers of rows they have just read).
\<close>

definition cycles_ok :: "budget_cycle list \<Rightarrow> bool" where
  "cycles_ok cs \<longleftrightarrow> distinct (map cycle_id cs) \<and>
     distinct (map fiscal_year (filter (\<lambda>c. cycle_status c \<in> {draft, open}) cs))"

definition schedules_ok :: "reminder_schedule list \<Rightarrow> bool" where
  "schedules_ok rs \<longleftrightarrow> distinct (map (\<lambda>r. (rs_cycle_id r, days_before r)) rs) \<and>
     list_all (\<lambda>r. days_before r > 0) rs"

definition accounts_ok :: "account_code list \<Rightarrow> bool" where
  "accounts_ok xs \<longleftrightarrow> distinct (map ac_id xs) \<and> distinct (map ac_code xs) \<and>
     list_all (\<lambda>a. ac_level a \<ge> 1) xs"

definition actuals_ok :: "actual_expense list \<Rightarrow> bool" where
  "actuals_ok xs \<longleftrightarrow>
     distinct (map (\<lambda>a. (ae_cycle_id a, ae_org_unit_id a, ae_account_code_id a)) xs)"

definition uploads_ok :: "budget_upload list \<Rightarrow> bool" where
  "uploads_ok us \<longleftrightarrow> distinct (map bu_id us) \<and>
     distinct (map (\<lambda>u. (bu_cycle_id u, bu_org_unit_id u, bu_version u)) us) \<and>
     list_all (\<lambda>u. file_size_bytes u \<le> 10485760 \<and> row_count u \<le> 5000) us"

definition lines_ok :: "budget_line list \<Rightarrow> bool" where
  "lines_ok ls \<longleftrightarrow> distinct (map (\<lambda>l. (bl_upload_id l, bl_account_code_id l)) ls) \<and>
     list_all (\<lambda>l. bl_amount l \<ge> 0) ls"

definition import_uploads_ok :: "import_upload list \<Rightarrow> bool" where
  "import_uploads_ok us \<longleftrightarrow> distinct (map iu_id us) \<and>
     distinct (map (\<lambda>u. (iu_cycle_id u, iu_version u)) us)"

definition import_lines_ok :: "import_line list \<Rightarrow> bool" where
  "import_lines_ok ls \<longleftrightarrow>
     distinct (map (\<lambda>l. (il_upload_id l, il_org_unit_id l, il_account_code_id l)) ls) \<and>
     list_all (\<lambda>l. il_amount l > 0) ls"

definition templates_ok :: "excel_template list \<Rightarrow> bool" where
  "templates_ok ts \<longleftrightarrow> distinct (map (\<lambda>t. (et_cycle_id t, et_org_unit_id t)) ts)"

definition users_ok :: "user list \<Rightarrow> bool" where
  "users_ok us \<longleftrightarrow> distinct (map user_id us) \<and> distinct (map sso_id_hash us)
     \<and> distinct (map email_hash us)"

definition org_units_ok :: "org_unit list \<Rightarrow> bool" where
  "org_units_ok us \<longleftrightarrow> distinct (map ou_id us) \<and> distinct (map ou_code us) \<and>
     list_all (\<lambda>u. \<not> (is_filing_unit u \<and> is_reviewer_only u)) us"

definition auth_sessions_ok :: "auth_session list \<Rightarrow> bool" where
  "auth_sessions_ok ss \<longleftrightarrow> distinct (map sess_id ss) \<and> distinct (map refresh_token_hash ss)"

definition audit_ok :: "audit_log list \<Rightarrow> bool" where
  "audit_ok ls \<longleftrightarrow> distinct (map sequence_no ls)"

definition db_ok :: "db \<Rightarrow> bool" where
  "db_ok d \<longleftrightarrow> cycles_ok (budget_cycles d) \<and> schedules_ok (reminder_schedules d)
     \<and> accounts_ok (account_codes d) \<and> actuals_ok (actual_expenses d)
     \<and> uploads_ok (budget_uploads d) \<and> lines_ok (budget_lines d)
     \<and> import_uploads_ok (personnel_uploads d) \<and> import_lines_ok (personnel_lines d)
     \<and> import_uploads_ok (shared_uploads d) \<and> import_lines_ok (shared_lines d)
     \<and> templates_ok (excel_templates d) \<and> users_ok (users d) \<and> org_units_ok (org_units d)
     \<and> auth_sessions_ok (auth_sessions d) \<and> audit_ok (audit_logs d)
     \<and> distinct (map notif_id (notifications d)) \<and> distinct (map job_id (job_runs d))"

lemmas constraint_defs = cycles_ok_def schedules_ok_def accounts_ok_def actuals_ok_def
  uploads_ok_def lines_ok_def import_uploads_ok_def import_lines_ok_def templates_ok_def
  users_ok_def org_units_ok_def auth_sessions_ok_def audit_ok_def

lemma empty_db_ok: "db_ok empty_db"
  by (simp add: db_ok_def empty_db_def constraint_defs)

section \<open>The session\<close>

text \<open>
  \<open>cur\<close> is what the transaction sees, \<open>com\<close> what is committed. The sequence behind
  \<open>sequence_no\<close> is not transactional: a rollback leaves gaps. \<open>uid_next\<close> stands for
  \<open>uuid4()\<close>: identifiers never used before. \<open>clock\<close> is what \<open>now_utc()\<close> returns during the
  operation. \<open>files\<close> is the storage directory, \<open>mails\<close> what the SMTP relay accepted: both
  are outside the transaction.
\<close>

record session =
  cur :: db
  com :: db
  seq_next :: nat
  uid_next :: uuid
  clock :: stamp
  files :: "(pystr \<times> bytes) list"
  mails :: "(notification_template \<times> pystr) list"

type_synonym 'a op = "(exn, session, 'a) act"

definition query :: "(db \<Rightarrow> 'a) \<Rightarrow> 'a op" where
  "query f = gets (\<lambda>s. f (cur s))"

definition update :: "(db \<Rightarrow> db) \<Rightarrow> unit op" where
  "update f = modify (\<lambda>s. s\<lparr>cur := f (cur s)\<rparr>)"

definition rollback :: "unit op" where
  "rollback = modify (\<lambda>s. s\<lparr>cur := com s\<rparr>)"

text \<open>
  \<open>flush\<close> sends the pending changes to the database, which checks its constraints; a
  violation aborts the transaction. \<open>commit\<close> flushes and makes the changes durable.
\<close>

definition flush :: "unit op" where
  "flush = (\<lambda>s. if db_ok (cur s) then (Inr (), s) else (Inl Integrity_error, s\<lparr>cur := com s\<rparr>))"

definition commit :: "unit op" where
  "commit = (\<lambda>s. if db_ok (cur s) then (Inr (), s\<lparr>com := cur s\<rparr>)
                  else (Inl Integrity_error, s\<lparr>cur := com s\<rparr>))"

definition new_uuid :: "uuid op" where
  "new_uuid = (\<lambda>s. (Inr (uid_next s), s\<lparr>uid_next := Suc (uid_next s)\<rparr>))"

definition now_utc :: "stamp op" where
  "now_utc = gets clock"

text \<open>
  \<open>get_session\<close>: a request runs on a session of its own; an exception rolls back, a
  database error is reported as \<open>SYS_001\<close>, and closing the session drops whatever was
  flushed but not committed.
\<close>

definition get_session :: "'a op \<Rightarrow> 'a op" where
  "get_session m = (\<lambda>s. case m (s\<lparr>cur := com s\<rparr>) of
      (Inl Integrity_error, t) \<Rightarrow> (Inl (app_err InfraError ''SYS_001''), t\<lparr>cur := com t\<rparr>)
    | (r, t) \<Rightarrow> (r, t\<lparr>cur := com t\<rparr>))"

lemma run_session [act_simps]:
  "query f s = (Inr (f (cur s)), s)"
  "update g s = (Inr (), s\<lparr>cur := g (cur s)\<rparr>)"
  "rollback s = (Inr (), s\<lparr>cur := com s\<rparr>)"
  "new_uuid s = (Inr (uid_next s), s\<lparr>uid_next := Suc (uid_next s)\<rparr>)"
  "now_utc s = (Inr (clock s), s)"
  by (simp_all add: query_def update_def rollback_def new_uuid_def now_utc_def)

lemma run_flush [act_simps]:
  "flush s = (if db_ok (cur s) then (Inr (), s) else (Inl Integrity_error, s\<lparr>cur := com s\<rparr>))"
  by (simp add: flush_def)

lemma run_commit [act_simps]:
  "commit s = (if db_ok (cur s) then (Inr (), s\<lparr>com := cur s\<rparr>)
               else (Inl Integrity_error, s\<lparr>cur := com s\<rparr>))"
  by (simp add: commit_def)

lemma commit_Inr: "commit s = (Inr (), t) \<longleftrightarrow> db_ok (cur s) \<and> t = s\<lparr>com := cur s\<rparr>"
  by (auto simp: commit_def)

lemma flush_Inr: "flush s = (Inr (), t) \<longleftrightarrow> db_ok (cur s) \<and> t = s"
  by (auto simp: flush_def)

lemmas session_inv = act_inv commit_Inr flush_Inr

text \<open>What is committed satisfies the constraints: only \<open>commit\<close> writes it.\<close>

lemma query_preserves [preserves_intros]: "preserves P (query f)"
  by (simp add: query_def preserves_intros)

lemma now_preserves [preserves_intros]: "preserves P now_utc"
  by (simp add: now_utc_def preserves_intros)

lemma committed_ok_basic [preserves_intros]:
  "preserves (\<lambda>s. db_ok (com s)) (update f)"
  "preserves (\<lambda>s. db_ok (com s)) rollback"
  "preserves (\<lambda>s. db_ok (com s)) flush"
  "preserves (\<lambda>s. db_ok (com s)) commit"
  "preserves (\<lambda>s. db_ok (com s)) new_uuid"
  by (auto simp: preserves_def act_simps)

text \<open>Rows built in a loop, each with a fresh identifier.\<close>

definition with_uuid :: "(uuid \<Rightarrow> 'x \<Rightarrow> 'r) \<Rightarrow> 'x \<Rightarrow> 'r op" where
  "with_uuid f x = bnd new_uuid (\<lambda>i. ret (f i x))"

lemma run_with_uuid:
  "with_uuid f x s = (Inr (f (uid_next s) x), s\<lparr>uid_next := Suc (uid_next s)\<rparr>)"
  by (simp add: with_uuid_def act_simps)

lemma mapA_with_uuid [act_simps]:
  "mapA (with_uuid f) xs s =
     (Inr (map2 f [uid_next s..<uid_next s + length xs] xs),
      s\<lparr>uid_next := uid_next s + length xs\<rparr>)"
proof (induction xs arbitrary: s)
  case (Cons x xs)
  have "[uid_next s..<uid_next s + length (x # xs)]
      = uid_next s # [Suc (uid_next s)..<Suc (uid_next s) + length xs]"
    by (simp add: upt_conv_Cons del: upt_Suc)
  then have "map2 f [uid_next s..<uid_next s + length (x # xs)] (x # xs)
      = f (uid_next s) x # map2 f [Suc (uid_next s)..<Suc (uid_next s) + length xs] xs" by simp
  then show ?case by (simp add: act_simps Cons.IH run_with_uuid [of f x s] del: upt_Suc)
qed simp

text \<open>A column of such rows that does not depend on the identifier.\<close>

lemma map_with_uuid:
  "(\<And>i x. g (f i x) = h x) \<Longrightarrow> map g (map2 f [a..<a + length xs] xs) = map h xs"
  by (rule nth_equalityI) simp_all

lemma get_session_simp [act_simps]:
  "get_session m s = (case m (s\<lparr>cur := com s\<rparr>) of
      (Inl Integrity_error, t) \<Rightarrow> (Inl (app_err InfraError ''SYS_001''), t\<lparr>cur := com t\<rparr>)
    | (r, t) \<Rightarrow> (r, t\<lparr>cur := com t\<rparr>))"
  by (simp add: get_session_def)

lemma snd_get_session: "snd (get_session m s) =
    (snd (m (s\<lparr>cur := com s\<rparr>)))\<lparr>cur := com (snd (m (s\<lparr>cur := com s\<rparr>)))\<rparr>"
  by (auto simp: get_session_def split: prod.splits sum.splits exn.splits)

lemma fst_get_session: "fst (get_session m s) = (case fst (m (s\<lparr>cur := com s\<rparr>)) of
    Inl Integrity_error \<Rightarrow> Inl (app_err InfraError ''SYS_001'') | r \<Rightarrow> r)"
  by (auto simp: get_session_def split: prod.splits sum.splits exn.splits)

lemma preserves_get_session [preserves_intros]:
  assumes "preserves P m" "\<And>s. P s \<Longrightarrow> P (s\<lparr>cur := com s\<rparr>)"
  shows "preserves P (get_session m)"
  unfolding preserves_def
proof (intro allI impI)
  fix s assume "P s"
  then have "P (s\<lparr>cur := com s\<rparr>)" by (rule assms(2))
  then have "P (snd (m (s\<lparr>cur := com s\<rparr>)))" by (rule preserves_run [OF assms(1)])
  then show "P (snd (get_session m s))" by (simp add: snd_get_session assms(2))
qed

text \<open>\<open>async with factory() as db\<close>: a session of its own; closing it drops what was not committed.\<close>

definition own_session :: "'a op \<Rightarrow> 'a op" where
  "own_session m = (\<lambda>s. case m (s\<lparr>cur := com s\<rparr>) of (r, t) \<Rightarrow> (r, t\<lparr>cur := com t\<rparr>))"

lemma run_own_session [act_simps]:
  "own_session m s = (case m (s\<lparr>cur := com s\<rparr>) of (r, t) \<Rightarrow> (r, t\<lparr>cur := com t\<rparr>))"
  by (simp add: own_session_def)

lemma preserves_own_session [preserves_intros]:
  assumes "preserves P m" "\<And>s. P s \<Longrightarrow> P (s\<lparr>cur := com s\<rparr>)"
  shows "preserves P (own_session m)"
  using assms unfolding preserves_def by (auto simp: own_session_def split: prod.splits) (metis snd_conv)

end
