(* ===== verification/Config.thy ===== *)
theory Config
  imports Models
begin

text \<open>
  \<^verbatim>\<open>config.py\<close>: the settings the modelled code reads, with their defaults, and the
  functions the code takes from outside the repository, which are parameters of the model:
  the keyed hash behind the audit chain, the AES-GCM cipher, the lookup HMAC, the token
  generators and the SMTP relay.
\<close>

record settings =
  max_upload_bytes :: int
  max_upload_rows :: int
  reopen_window_days :: int
  async_export_threshold :: int
  jobs_max_attempts :: int
  session_ttl_seconds :: int
  refresh_ttl_seconds :: int
  crypto_key_id :: pystr
  crypto_key :: bytes
  sso_role_mapping :: "(pystr \<times> string) list"

definition default_settings :: settings where
  "default_settings = \<lparr>max_upload_bytes = 10 * 1024 * 1024, max_upload_rows = 5000,
     reopen_window_days = 30, async_export_threshold = 1000, jobs_max_attempts = 3,
     session_ttl_seconds = 1800, refresh_ttl_seconds = 28800,
     crypto_key_id = str ''k-default'', crypto_key = replicate 32 0, sso_role_mapping = []\<rparr>"

text \<open>
  An openpyxl workbook: its sheets by name, each the grid that \<open>iter_rows\<close> yields, and the
  name of the active sheet. \<open>sheet[...]\<close> of a cell outside the grid has no value.
\<close>

record workbook =
  sheets :: "(pystr \<times> cell list list) list"
  active_sheet :: "pystr option"

text \<open>
  \<open>chain_hmac p x\<close> is the HMAC-SHA256 of the previous hash \<open>p\<close> followed by the canonical
  JSON text of \<open>x\<close>; \<open>aes_encrypt key nonce plaintext\<close> and \<open>aes_decrypt key nonce ciphertext\<close>
  are AES-GCM (decryption fails on a wrong tag); \<open>nonce\<close> and \<open>random_token\<close> draw random bytes
  and tokens; \<open>smtp t a\<close> says whether the relay accepts a message of template \<open>t\<close> for address
  \<open>a\<close>; \<open>storage_ok\<close> whether the storage directory can be written; \<open>load_workbook\<close> is openpyxl's
  reading of a file (\<open>None\<close>: it refuses it), \<open>save_workbook\<close> its writing.
\<close>

record env =
  cfg :: settings
  chain_hmac :: "bytes \<Rightarrow> json \<Rightarrow> bytes"
  lookup_hmac :: "bytes \<Rightarrow> bytes"
  aes_encrypt :: "bytes \<Rightarrow> bytes \<Rightarrow> bytes \<Rightarrow> bytes"
  aes_decrypt :: "bytes \<Rightarrow> bytes \<Rightarrow> bytes \<Rightarrow> bytes option"
  nonce :: "uuid \<Rightarrow> bytes"
  random_token :: "uuid \<Rightarrow> pystr"
  smtp :: "notification_template \<Rightarrow> pystr \<Rightarrow> bool"
  storage_ok :: bool
  load_workbook :: "bytes \<Rightarrow> workbook option"
  save_workbook :: "workbook \<Rightarrow> bytes"

end
