(* ===== verification/Samples.thy ===== *)
theory Samples
  imports Config
begin

text \<open>
  Concrete inputs for the witnesses: an environment in which every outside function is a
  simple computable one, and a session on a given database with nothing pending.
\<close>

definition env0 :: env where
  "env0 = \<lparr>cfg = default_settings, chain_hmac = (\<lambda>h x. 1 # h), lookup_hmac = (\<lambda>b. b),
     aes_encrypt = (\<lambda>k n p. p @ replicate 16 0),
     aes_decrypt = (\<lambda>k n c. if 16 \<le> length c then Some (take (length c - 16) c) else None),
     nonce = (\<lambda>i. replicate 12 0), random_token = (\<lambda>i. [i]), smtp = (\<lambda>t a. True),
     storage_ok = True, load_workbook = (\<lambda>b. None), save_workbook = (\<lambda>wb. [80, 75])\<rparr>"

definition session_of :: "db \<Rightarrow> session" where
  "session_of d = \<lparr>cur = d, com = d, seq_next = 100, uid_next = 1000, clock = 86400000000,
     files = [], mails = []\<rparr>"

lemma session_of_simps [simp]:
  "cur (session_of d) = d" "com (session_of d) = d" "seq_next (session_of d) = 100"
  "uid_next (session_of d) = 1000" "clock (session_of d) = 86400000000"
  "files (session_of d) = []" "mails (session_of d) = []"
  by (simp_all add: session_of_def)

lemma env0_simps [simp]:
  "cfg env0 = default_settings" "chain_hmac env0 h x = 1 # h" "lookup_hmac env0 b = b"
  "save_workbook env0 wb = [80, 75]" "random_token env0 i = [i]" "smtp env0 t a = True" "storage_ok env0 = True"
  "aes_encrypt env0 k n p = p @ replicate 16 0" "nonce env0 i = replicate 12 0"
  "aes_decrypt env0 k n c = (if 16 \<le> length c then Some (take (length c - 16) c) else None)"
  by (simp_all add: env0_def)

lemma default_settings_simps [simp]:
  "max_upload_bytes default_settings = 10485760" "max_upload_rows default_settings = 5000"
  "reopen_window_days default_settings = 30" "async_export_threshold default_settings = 1000"
  "jobs_max_attempts default_settings = 3" "session_ttl_seconds default_settings = 1800"
  "refresh_ttl_seconds default_settings = 28800" "crypto_key_id default_settings = str ''k-default''"
  "crypto_key default_settings = replicate 32 0"
  by (simp_all add: default_settings_def)

lemma empty_db_simps [simp]:
  "org_units empty_db = []" "users empty_db = []" "auth_sessions empty_db = []"
  "budget_cycles empty_db = []" "reminder_schedules empty_db = []" "account_codes empty_db = []"
  "actual_expenses empty_db = []" "budget_uploads empty_db = []" "budget_lines empty_db = []"
  "personnel_uploads empty_db = []" "personnel_lines empty_db = []" "shared_uploads empty_db = []"
  "shared_lines empty_db = []" "excel_templates empty_db = []" "notifications empty_db = []"
  "resubmit_requests empty_db = []" "audit_logs empty_db = []" "job_runs empty_db = []"
  by (simp_all add: empty_db_def)

text \<open>Two linked audit rows and the database that holds them.\<close>

definition row0 :: audit_log where
  "row0 = \<lparr>al_id = 0, sequence_no = 0, al_user_id = None, action = LOGOUT,
     resource_type = ''session'', resource_id = None, ip_address = None, al_details = JObj [],
     prev_hash = replicate 32 0, hash_chain_value = 1 # replicate 32 0, occurred_at = 10\<rparr>"

definition row1 :: audit_log where
  "row1 = row0\<lparr>al_id := 1, sequence_no := 1, prev_hash := hash_chain_value row0,
     hash_chain_value := 1 # hash_chain_value row0, occurred_at := 20\<rparr>"

definition log_db :: db where
  "log_db = empty_db\<lparr>audit_logs := [row0, row1]\<rparr>"

lemma log_db_ok: "db_ok log_db"
  by (simp add: db_ok_def log_db_def constraint_defs row0_def row1_def)

end
