(* ===== verification/Audit_Log.thy ===== *)
theory Audit_Log
  imports Samples
begin

text \<open>
  \<^verbatim>\<open>domain/audit/repo.py\<close> and \<^verbatim>\<open>domain/audit/service.py\<close>: the append-only audit log, its
  hash chain, the verifier, and the paginated query. The chain invariant \<open>chain_inv\<close> says
  that the rows, in the order of their sequence numbers, link from the genesis hash; every
  \<open>audit_record\<close> keeps it, and the verifier accepts exactly the linked rows.
\<close>

section \<open>Reads\<close>

definition get_latest :: "db \<Rightarrow> audit_log option" where
  "get_latest d = first_row (order_desc (\<lambda>r. int (sequence_no r)) (audit_logs d))"

definition in_range :: "stamp option \<Rightarrow> stamp option \<Rightarrow> audit_log \<Rightarrow> bool" where
  "in_range from_dt to_dt r \<longleftrightarrow>
     (case from_dt of None \<Rightarrow> True | Some a \<Rightarrow> a \<le> occurred_at r) \<and>
     (case to_dt of None \<Rightarrow> True | Some b \<Rightarrow> occurred_at r \<le> b)"

definition range_inverted :: "stamp option \<Rightarrow> stamp option \<Rightarrow> bool" where
  "range_inverted from_dt to_dt \<longleftrightarrow>
     (case (from_dt, to_dt) of (Some a, Some b) \<Rightarrow> b < a | _ \<Rightarrow> False)"

definition fetch_range :: "stamp option \<Rightarrow> stamp option \<Rightarrow> audit_log list op" where
  "fetch_range from_dt to_dt =
     sq (check (\<not> range_inverted from_dt to_dt) (app_err AppError ''AUDIT_002''))
        (query (\<lambda>d. order_asc sequence_no (filter (in_range from_dt to_dt) (audit_logs d))))"

record audit_filters =
  f_user_id :: "uuid option"
  f_action :: "audit_action option"
  f_resource_type :: "string option"
  f_resource_id :: "uuid option"
  f_from_dt :: "stamp option"
  f_to_dt :: "stamp option"
  f_page :: int
  f_size :: int

record 'a page =
  items :: "'a list"
  total_rows :: nat
  page_no :: int
  page_size :: int

definition validate_filters :: "audit_filters \<Rightarrow> unit op" where
  "validate_filters f =
     sq (check (\<not> f_page f < 1) (app_err AppError ''AUDIT_002''))
    (sq (check (\<not> (f_size f < 1 \<or> f_size f > 200)) (app_err AppError ''AUDIT_002''))
        (check (\<not> range_inverted (f_from_dt f) (f_to_dt f)) (app_err AppError ''AUDIT_002'')))"

definition matches :: "audit_filters \<Rightarrow> audit_log \<Rightarrow> bool" where
  "matches f r \<longleftrightarrow>
     (f_user_id f \<noteq> None \<longrightarrow> al_user_id r = f_user_id f) \<and>
     (case f_action f of None \<Rightarrow> True | Some a \<Rightarrow> action r = a) \<and>
     (case f_resource_type f of None \<Rightarrow> True | Some t \<Rightarrow> resource_type r = t) \<and>
     (f_resource_id f \<noteq> None \<longrightarrow> resource_id r = f_resource_id f) \<and>
     in_range (f_from_dt f) (f_to_dt f) r"

definition fetch_page :: "audit_filters \<Rightarrow> audit_log page op" where
  "fetch_page f =
     sq (validate_filters f)
     (bnd (query (\<lambda>d. filter (matches f) (audit_logs d))) (\<lambda>found.
        let offset = (f_page f - 1) * f_size f in
        ret \<lparr>items = take (nat (f_size f)) (drop (nat offset)
                (order_desc (\<lambda>r. int (sequence_no r)) found)),
             total_rows = length found, page_no = f_page f, page_size = f_size f\<rparr>))"

section \<open>The chain\<close>

definition GENESIS_PREV_HASH :: bytes where
  "GENESIS_PREV_HASH = replicate 32 0"

text \<open>The fields that are hashed, under their sorted JSON keys.\<close>

definition serialize_for_chain :: "audit_log \<Rightarrow> json" where
  "serialize_for_chain r = JObj [
     (''action'', JAction (action r)),
     (''details'', al_details r),
     (''ip_address'', case ip_address r of None \<Rightarrow> JNull | Some a \<Rightarrow> if a = [] then JNull else JText a),
     (''occurred_at'', JTime (occurred_at r)),
     (''resource_id'', case resource_id r of None \<Rightarrow> JNull | Some u \<Rightarrow> JUuid u),
     (''resource_type'', JName (resource_type r)),
     (''sequence_no'', JInt (int (sequence_no r))),
     (''user_id'', case al_user_id r of None \<Rightarrow> JNull | Some u \<Rightarrow> JUuid u)]"

definition next_sequence_no :: "nat op" where
  "next_sequence_no = (\<lambda>s. (Inr (seq_next s), s\<lparr>seq_next := Suc (seq_next s)\<rparr>))"

lemma run_next_sequence_no [act_simps]:
  "next_sequence_no s = (Inr (seq_next s), s\<lparr>seq_next := Suc (seq_next s)\<rparr>)"
  by (simp add: next_sequence_no_def)

text \<open>
  \<open>AuditService.record\<close>: read the latest row, insert the new row with a placeholder hash
  so that the database assigns its sequence number, then compute and store the hash. It
  flushes, twice, and does not commit.
\<close>

definition audit_record :: "env \<Rightarrow> audit_action \<Rightarrow> string \<Rightarrow> uuid option \<Rightarrow> uuid option
    \<Rightarrow> pystr option \<Rightarrow> json \<Rightarrow> audit_log op" where
  "audit_record E act rt rid uid ip det =
     bnd (query get_latest) (\<lambda>prev_row.
       let prev = (case prev_row of None \<Rightarrow> GENESIS_PREV_HASH | Some r \<Rightarrow> hash_chain_value r) in
       bnd new_uuid (\<lambda>i.
       bnd now_utc (\<lambda>now.
       bnd next_sequence_no (\<lambda>n.
         let row = \<lparr>al_id = i, sequence_no = n, al_user_id = uid, action = act,
               resource_type = rt, resource_id = rid, ip_address = ip, al_details = det,
               prev_hash = prev, hash_chain_value = GENESIS_PREV_HASH, occurred_at = now\<rparr> in
         sq (update (\<lambda>d. d\<lparr>audit_logs := audit_logs d @ [row]\<rparr>))
        (sq flush
           (let row' = row\<lparr>hash_chain_value := chain_hmac E prev (serialize_for_chain row)\<rparr> in
            sq (update (\<lambda>d. d\<lparr>audit_logs := upd_row sequence_no n (\<lambda>_. row') (audit_logs d)\<rparr>))
           (sq flush
               (ret row'))))))))"

section \<open>Verification\<close>

text \<open>The loop of \<open>verify_chain\<close>, with the hash the next row must name.\<close>

fun verify_rows :: "env \<Rightarrow> bytes \<Rightarrow> audit_log list \<Rightarrow> exn + unit" where
  "verify_rows E expected_prev [] = Inr ()"
| "verify_rows E expected_prev (r # rs) =
     (if prev_hash r \<noteq> expected_prev then Inl (app_err AppError ''AUDIT_001'')
      else if chain_hmac E (prev_hash r) (serialize_for_chain r) \<noteq> hash_chain_value r
        then Inl (app_err AppError ''AUDIT_001'')
      else verify_rows E (hash_chain_value r) rs)"

record chain_verification =
  verified :: bool
  range_start :: "stamp option"
  range_end :: "stamp option"
  chain_length :: nat

definition verify_chain :: "env \<Rightarrow> stamp option \<Rightarrow> stamp option \<Rightarrow> chain_verification op" where
  "verify_chain E start until =
     bnd (fetch_range start until) (\<lambda>rs.
       case rs of
         [] \<Rightarrow> ret \<lparr>verified = True, range_start = start, range_end = until, chain_length = 0\<rparr>
       | r # _ \<Rightarrow> sq (lift (verify_rows E (prev_hash r) rs))
           (ret \<lparr>verified = True, range_start = start, range_end = until,
                 chain_length = length rs\<rparr>))"

section \<open>The chain invariant\<close>

fun linked :: "env \<Rightarrow> bytes \<Rightarrow> audit_log list \<Rightarrow> bool" where
  "linked E p [] = True"
| "linked E p (r # rs) = (prev_hash r = p
     \<and> hash_chain_value r = chain_hmac E p (serialize_for_chain r)
     \<and> linked E (hash_chain_value r) rs)"

fun tip :: "bytes \<Rightarrow> audit_log list \<Rightarrow> bytes" where
  "tip p [] = p"
| "tip p (r # rs) = tip (hash_chain_value r) rs"

definition log_ok :: "env \<Rightarrow> nat \<Rightarrow> audit_log list \<Rightarrow> bool" where
  "log_ok E n log \<longleftrightarrow> sorted_wrt (<) (map sequence_no log)
     \<and> (\<forall>r \<in> set log. sequence_no r < n) \<and> linked E GENESIS_PREV_HASH log"

text \<open>Both the transaction's log and the committed one are intact chains.\<close>

definition chain_inv :: "env \<Rightarrow> session \<Rightarrow> bool" where
  "chain_inv E s \<longleftrightarrow> log_ok E (seq_next s) (audit_logs (cur s))
     \<and> log_ok E (seq_next s) (audit_logs (com s))"

lemma linked_append: "linked E p (xs @ ys) \<longleftrightarrow> linked E p xs \<and> linked E (tip p xs) ys"
  by (induction xs arbitrary: p) auto

lemma tip_append [simp]: "tip p (xs @ ys) = tip (tip p xs) ys"
  by (induction xs arbitrary: p) auto

lemma tip_last: "xs \<noteq> [] \<Longrightarrow> tip p xs = hash_chain_value (last xs)"
  by (induction xs arbitrary: p) auto

lemma verify_rows_linked: "verify_rows E p rs = Inr () \<longleftrightarrow> linked E p rs"
  by (induction rs arbitrary: p) auto

lemma log_ok_mono: "log_ok E n log \<Longrightarrow> n \<le> m \<Longrightarrow> log_ok E m log"
  by (auto simp: log_ok_def)

lemma sorted_sequence: "log_ok E n log \<Longrightarrow> sorted (map sequence_no log)"
  by (simp add: log_ok_def strict_sorted_imp_sorted)

lemma order_asc_sorted: "sorted (map f rs) \<Longrightarrow> order_asc f rs = rs"
  by (simp add: order_asc_def sorted_sort_id sort_key_id_if_sorted)

text \<open>In an intact log the latest row is the last one, so the new row links to the tip.\<close>

lemma get_latest_tip:
  assumes "log_ok E n (audit_logs d)"
  shows "(case get_latest d of None \<Rightarrow> GENESIS_PREV_HASH | Some r \<Rightarrow> hash_chain_value r)
           = tip GENESIS_PREV_HASH (audit_logs d)"
proof (cases "get_latest d")
  case None
  then show ?thesis by (simp add: get_latest_def first_order_desc_None)
next
  case (Some r)
  then have r: "r \<in> set (audit_logs d)" "\<forall>x \<in> set (audit_logs d). sequence_no x \<le> sequence_no r"
    using first_order_desc_Some [of "\<lambda>r. int (sequence_no r)" "audit_logs d" r]
    by (auto simp: get_latest_def)
  then obtain xs where xs: "audit_logs d = xs @ [last (audit_logs d)]"
    by (metis append_butlast_last_id empty_iff list.set(1))
  let ?l = "last (audit_logs d)"
  have "r = ?l"
  proof (rule ccontr)
    assume "r \<noteq> ?l"
    with r(1) xs have "r \<in> set xs"
      by (metis Un_iff empty_iff insert_iff list.set(1) list.set(2) set_append)
    moreover have "sorted_wrt (<) (map sequence_no (xs @ [?l]))"
      using assms xs by (simp add: log_ok_def)
    ultimately have "sequence_no r < sequence_no ?l" by (simp add: sorted_wrt_append)
    moreover have "sequence_no ?l \<le> sequence_no r"
      using r xs by (metis in_set_conv_decomp)
    ultimately show False by simp
  qed
  with Some r(1) show ?thesis by (metis empty_iff list.set(1) option.simps(5) tip_last)
qed

lemma log_ok_snoc:
  assumes "log_ok E n log" "sequence_no r = n" "prev_hash r = tip GENESIS_PREV_HASH log"
    and "hash_chain_value r = chain_hmac E (prev_hash r) (serialize_for_chain r)"
  shows "log_ok E (Suc n) (log @ [r])"
  using assms by (auto simp: log_ok_def linked_append sorted_wrt_append less_Suc_eq)

lemma upd_row_snoc:
  "\<forall>r \<in> set log. sequence_no r < n \<Longrightarrow> sequence_no row = n \<Longrightarrow>
    upd_row sequence_no n (\<lambda>_. row') (log @ [row]) = log @ [row']"
  by (auto simp: upd_row_def intro!: map_idI)

text \<open>
  What \<open>audit_record\<close> does: unless the database refuses the transaction's changes, it
  appends one row that links to the tip; otherwise the transaction is rolled back.
\<close>

definition audit_row :: "env \<Rightarrow> audit_action \<Rightarrow> string \<Rightarrow> uuid option \<Rightarrow> uuid option
    \<Rightarrow> pystr option \<Rightarrow> json \<Rightarrow> session \<Rightarrow> audit_log" where
  "audit_row E act rt rid uid ip det s =
     (let prev = (case get_latest (cur s) of None \<Rightarrow> GENESIS_PREV_HASH | Some r \<Rightarrow> hash_chain_value r);
          row = \<lparr>al_id = uid_next s, sequence_no = seq_next s, al_user_id = uid, action = act,
               resource_type = rt, resource_id = rid, ip_address = ip, al_details = det,
               prev_hash = prev, hash_chain_value = GENESIS_PREV_HASH, occurred_at = clock s\<rparr>
      in row\<lparr>hash_chain_value := chain_hmac E prev (serialize_for_chain row)\<rparr>)"

lemma audit_row_simps [simp]:
  "sequence_no (audit_row E act rt rid uid ip det s) = seq_next s"
  "action (audit_row E act rt rid uid ip det s) = act"
  "resource_type (audit_row E act rt rid uid ip det s) = rt"
  "resource_id (audit_row E act rt rid uid ip det s) = rid"
  "al_user_id (audit_row E act rt rid uid ip det s) = uid"
  "al_details (audit_row E act rt rid uid ip det s) = det"
  "occurred_at (audit_row E act rt rid uid ip det s) = clock s"
  by (simp_all add: audit_row_def Let_def)

lemma audit_row_hash:
  "hash_chain_value (audit_row E act rt rid uid ip det s) =
     chain_hmac E (prev_hash (audit_row E act rt rid uid ip det s))
       (serialize_for_chain (audit_row E act rt rid uid ip det s))"
  by (simp add: audit_row_def serialize_for_chain_def Let_def)

lemma audit_record_cases:
  assumes "\<forall>r \<in> set (audit_logs (cur s)). sequence_no r < seq_next s"
  shows "audit_record E act rt rid uid ip det s =
    (let row = audit_row E act rt rid uid ip det s;
         s' = s\<lparr>seq_next := Suc (seq_next s), uid_next := Suc (uid_next s)\<rparr>
     in if db_ok (cur s)
        then (Inr row, s'\<lparr>cur := (cur s)\<lparr>audit_logs := audit_logs (cur s) @ [row]\<rparr>\<rparr>)
        else (Inl Integrity_error, s'\<lparr>cur := com s\<rparr>))"
proof -
  have seq: "audit_ok (audit_logs (cur s) @ [x]) \<longleftrightarrow> audit_ok (audit_logs (cur s))"
    if "sequence_no x = seq_next s" for x
    using assms that by (auto simp: audit_ok_def)
  show ?thesis
    using assms
    by (simp add: audit_record_def audit_row_def act_simps Let_def upd_row_snoc db_ok_def seq)
qed

section \<open>Commit, record, commit\<close>

text \<open>
  The sequence every service writes (CR-006): commit the change, record it, commit the
  record.
\<close>

definition commit_audited :: "env \<Rightarrow> audit_action \<Rightarrow> string \<Rightarrow> uuid option \<Rightarrow> uuid option
    \<Rightarrow> json \<Rightarrow> unit op" where
  "commit_audited E act rt rid uid det =
     sq commit (bnd (audit_record E act rt rid uid None det) (\<lambda>_. commit))"

definition seq_fresh :: "session \<Rightarrow> bool" where
  "seq_fresh s \<longleftrightarrow> (\<forall>r \<in> set (audit_logs (cur s)). sequence_no r < seq_next s)"

lemma seq_fresh_mods [simp]:
  "seq_fresh (s\<lparr>mails := m\<rparr>) = seq_fresh s" "seq_fresh (s\<lparr>files := f\<rparr>) = seq_fresh s"
  "seq_fresh (s\<lparr>uid_next := i\<rparr>) = seq_fresh s" "seq_fresh (s\<lparr>com := d\<rparr>) = seq_fresh s"
  "seq_fresh (s\<lparr>clock := t\<rparr>) = seq_fresh s"
  by (simp_all add: seq_fresh_def)

lemma seq_fresh_cur [simp]:
  "audit_logs d = audit_logs (cur s) \<Longrightarrow> seq_fresh s \<Longrightarrow> seq_fresh (s\<lparr>cur := d\<rparr>)"
  by (simp add: seq_fresh_def)

text \<open>The state it leaves when the database accepts the change.\<close>

definition audited :: "env \<Rightarrow> audit_action \<Rightarrow> string \<Rightarrow> uuid option \<Rightarrow> uuid option
    \<Rightarrow> json \<Rightarrow> session \<Rightarrow> session" where
  "audited E act rt rid uid det s =
     (let d = (cur s)\<lparr>audit_logs := audit_logs (cur s) @ [audit_row E act rt rid uid None det s]\<rparr>
      in s\<lparr>cur := d, com := d, seq_next := Suc (seq_next s), uid_next := Suc (uid_next s)\<rparr>)"

lemma audit_row_com [simp]:
  "audit_row E act rt rid uid ip det (s\<lparr>com := d\<rparr>) = audit_row E act rt rid uid ip det s"
  by (simp add: audit_row_def)

lemma db_ok_audit:
  assumes "seq_fresh s" "sequence_no r = seq_next s"
  shows "db_ok ((cur s)\<lparr>audit_logs := audit_logs (cur s) @ [r]\<rparr>) \<longleftrightarrow> db_ok (cur s)"
  using assms by (auto simp: db_ok_def audit_ok_def seq_fresh_def)

lemma run_commit_audited:
  assumes "seq_fresh s"
  shows "commit_audited E act rt rid uid det s =
    (if db_ok (cur s) then (Inr (), audited E act rt rid uid det s)
     else (Inl Integrity_error, s\<lparr>cur := com s\<rparr>))"
proof (cases "db_ok (cur s)")
  case True
  have below: "\<forall>r \<in> set (audit_logs (cur (s\<lparr>com := cur s\<rparr>))). sequence_no r < seq_next (s\<lparr>com := cur s\<rparr>)"
    using assms by (simp add: seq_fresh_def)
  from True show ?thesis
    using db_ok_audit [OF assms, of "audit_row E act rt rid uid None det s"]
    by (simp add: commit_audited_def act_simps audit_record_cases [OF below] audited_def Let_def)
qed (simp add: commit_audited_def act_simps)

lemma audited_simps [simp]:
  "budget_cycles (cur (audited E act rt rid uid det s)) = budget_cycles (cur s)"
  "com (audited E act rt rid uid det s) = cur (audited E act rt rid uid det s)"
  "files (audited E act rt rid uid det s) = files s"
  "mails (audited E act rt rid uid det s) = mails s"
  "clock (audited E act rt rid uid det s) = clock s"
  by (simp_all add: audited_def Let_def)

lemma cur_audited:
  "cur (audited E act rt rid uid det s) =
     (cur s)\<lparr>audit_logs := audit_logs (cur s) @ [audit_row E act rt rid uid None det s]\<rparr>"
  by (simp add: audited_def Let_def)

lemma seq_fresh_chain: "chain_inv E s \<Longrightarrow> seq_fresh s"
  by (simp add: chain_inv_def log_ok_def seq_fresh_def)

lemma committed_ok_audit [preserves_intros]:
  "preserves (\<lambda>s. db_ok (com s)) (audit_record E act rt rid uid ip det)"
  by (simp add: audit_record_def Let_def)
    (intro preserves_intros; simp add: preserves_def act_simps)

lemma committed_ok_commit_audited [preserves_intros]:
  "preserves (\<lambda>s. db_ok (com s)) (commit_audited E act rt rid uid det)"
  unfolding commit_audited_def by (intro preserves_intros)

text \<open>A record inside a transaction that the database accepts so far.\<close>

definition recorded :: "env \<Rightarrow> audit_action \<Rightarrow> string \<Rightarrow> uuid option \<Rightarrow> uuid option
    \<Rightarrow> json \<Rightarrow> session \<Rightarrow> session" where
  "recorded E act rt rid uid det s =
     s\<lparr>cur := (cur s)\<lparr>audit_logs := audit_logs (cur s) @ [audit_row E act rt rid uid None det s]\<rparr>,
       seq_next := Suc (seq_next s), uid_next := Suc (uid_next s)\<rparr>"

lemma run_audit_record:
  assumes "seq_fresh s" "db_ok (cur s)"
  shows "audit_record E act rt rid uid None det s =
    (Inr (audit_row E act rt rid uid None det s), recorded E act rt rid uid det s)"
  using audit_record_cases [of s E act rt rid uid None det] assms
  by (simp add: seq_fresh_def recorded_def Let_def)

lemma recorded_simps [simp]:
  "com (recorded E act rt rid uid det s) = com s"
  "mails (recorded E act rt rid uid det s) = mails s"
  "files (recorded E act rt rid uid det s) = files s"
  "clock (recorded E act rt rid uid det s) = clock s"
  "uid_next (recorded E act rt rid uid det s) = Suc (uid_next s)"
  "seq_next (recorded E act rt rid uid det s) = Suc (seq_next s)"
  by (simp_all add: recorded_def)

lemma cur_recorded: "cur (recorded E act rt rid uid det s) =
     (cur s)\<lparr>audit_logs := audit_logs (cur s) @ [audit_row E act rt rid uid None det s]\<rparr>"
  by (simp add: recorded_def)

lemma recorded_tables [simp]:
  "org_units (cur (recorded E act rt rid uid det s)) = org_units (cur s)"
  "users (cur (recorded E act rt rid uid det s)) = users (cur s)"
  "auth_sessions (cur (recorded E act rt rid uid det s)) = auth_sessions (cur s)"
  "budget_cycles (cur (recorded E act rt rid uid det s)) = budget_cycles (cur s)"
  "reminder_schedules (cur (recorded E act rt rid uid det s)) = reminder_schedules (cur s)"
  "account_codes (cur (recorded E act rt rid uid det s)) = account_codes (cur s)"
  "actual_expenses (cur (recorded E act rt rid uid det s)) = actual_expenses (cur s)"
  "budget_uploads (cur (recorded E act rt rid uid det s)) = budget_uploads (cur s)"
  "budget_lines (cur (recorded E act rt rid uid det s)) = budget_lines (cur s)"
  "personnel_uploads (cur (recorded E act rt rid uid det s)) = personnel_uploads (cur s)"
  "personnel_lines (cur (recorded E act rt rid uid det s)) = personnel_lines (cur s)"
  "shared_uploads (cur (recorded E act rt rid uid det s)) = shared_uploads (cur s)"
  "shared_lines (cur (recorded E act rt rid uid det s)) = shared_lines (cur s)"
  "excel_templates (cur (recorded E act rt rid uid det s)) = excel_templates (cur s)"
  "notifications (cur (recorded E act rt rid uid det s)) = notifications (cur s)"
  "resubmit_requests (cur (recorded E act rt rid uid det s)) = resubmit_requests (cur s)"
  "job_runs (cur (recorded E act rt rid uid det s)) = job_runs (cur s)"
  by (simp_all add: cur_recorded)

lemma recorded_log [simp]: "audit_logs (cur (recorded E act rt rid uid det s)) =
    audit_logs (cur s) @ [audit_row E act rt rid uid None det s]"
  by (simp add: cur_recorded)

lemma recorded_fresh [simp]: "seq_fresh s \<Longrightarrow> seq_fresh (recorded E act rt rid uid det s)"
  by (auto simp: seq_fresh_def)

lemma recorded_ok [simp]:
  "seq_fresh s \<Longrightarrow> db_ok (cur (recorded E act rt rid uid det s)) = db_ok (cur s)"
  using db_ok_audit [of s "audit_row E act rt rid uid None det s"] by (simp add: cur_recorded)

section \<open>Keeping the chain\<close>

lemma chain_inv_basic [preserves_intros]:
  "preserves (chain_inv E) rollback"
  "preserves (chain_inv E) flush"
  "preserves (chain_inv E) commit"
  "preserves (chain_inv E) new_uuid"
  by (auto simp: preserves_def chain_inv_def act_simps)

lemma chain_inv_update [preserves_intros]:
  "(\<And>d. audit_logs (f d) = audit_logs d) \<Longrightarrow> preserves (chain_inv E) (update f)"
  by (simp add: preserves_def chain_inv_def act_simps)

lemma chain_inv_record [preserves_intros]:
  "preserves (chain_inv E) (audit_record E act rt rid uid ip det)"
  unfolding preserves_def
proof (intro allI impI)
  fix s assume inv: "chain_inv E s"
  let ?row = "audit_row E act rt rid uid ip det s"
  have below: "\<forall>r \<in> set (audit_logs (cur s)). sequence_no r < seq_next s"
    using inv by (simp add: chain_inv_def log_ok_def)
  have "prev_hash ?row = tip GENESIS_PREV_HASH (audit_logs (cur s))"
    using inv get_latest_tip [of E "seq_next s" "cur s"]
    by (simp add: audit_row_def Let_def chain_inv_def)
  then have "log_ok E (Suc (seq_next s)) (audit_logs (cur s) @ [?row])"
    using inv by (intro log_ok_snoc) (simp_all add: chain_inv_def audit_row_hash)
  moreover have "log_ok E (Suc (seq_next s)) (audit_logs (com s))"
    using inv by (auto simp: chain_inv_def intro: log_ok_mono)
  ultimately show "chain_inv E (snd (audit_record E act rt rid uid ip det s))"
    by (simp add: audit_record_cases [OF below] chain_inv_def Let_def)
qed

lemma chain_inv_commit_audited [preserves_intros]:
  "preserves (chain_inv E) (commit_audited E act rt rid uid det)"
  unfolding commit_audited_def by (intro preserves_intros)

text \<open>
  The invariant every operation of the program keeps: both logs are intact chains and the
  committed database satisfies its constraints.
\<close>

definition store_inv :: "env \<Rightarrow> session \<Rightarrow> bool" where
  "store_inv E s \<longleftrightarrow> chain_inv E s \<and> db_ok (com s)"

lemma store_inv_preserves:
  "preserves (chain_inv E) m \<Longrightarrow> preserves (\<lambda>s. db_ok (com s)) m \<Longrightarrow> preserves (store_inv E) m"
  by (simp add: preserves_def store_inv_def)

lemma store_inv_rebase: "store_inv E s \<Longrightarrow> store_inv E (s\<lparr>cur := com s\<rparr>)"
  by (simp add: store_inv_def chain_inv_def)

lemma store_inv_clock [simp]: "store_inv E (s\<lparr>clock := t\<rparr>) = store_inv E s"
  by (simp add: store_inv_def chain_inv_def)

text \<open>
  What the operations of the program rely on when they keep an invariant of the session: the
  transaction keeps it, and so do appending an audit record and changing any other table; the
  clock, the files and the mails do not matter to it.
\<close>

locale audited_inv =
  fixes E :: env and P :: "session \<Rightarrow> bool"
  assumes kept_basic [preserves_intros]: "preserves P rollback" "preserves P flush" "preserves P commit"
      "preserves P new_uuid"
    and kept_record [preserves_intros]: "preserves P (audit_record E act rt rid uid ip det)"
    and kept_update [preserves_intros]: "(\<And>d. audit_logs (f d) = audit_logs d) \<Longrightarrow> preserves P (update f)"
    and kept_rebase [intro]: "P s \<Longrightarrow> P (s\<lparr>cur := com s\<rparr>)"
    and kept_fields [simp]: "P (s\<lparr>clock := t\<rparr>) = P s" "P (s\<lparr>files := fs\<rparr>) = P s" "P (s\<lparr>mails := ms\<rparr>) = P s"
begin

lemma kept_commit_audited [preserves_intros]: "preserves P (commit_audited E act rt rid uid det)"
  unfolding commit_audited_def by (intro preserves_intros)

lemma kept_with_uuid [preserves_intros]: "preserves P (with_uuid f x)"
  unfolding with_uuid_def by (intro preserves_intros)

lemma kept_sessions_of_own [preserves_intros]:
  "preserves P m \<Longrightarrow> preserves P (get_session m)"
  "preserves P m \<Longrightarrow> preserves P (own_session m)"
  by (rule preserves_get_session preserves_own_session; simp add: kept_rebase)+

end

interpretation stored: audited_inv E "store_inv E" for E
  by unfold_locales (rule store_inv_preserves, (intro preserves_intros; simp)+ |
    simp add: store_inv_rebase | simp add: store_inv_def chain_inv_def)+

lemma store_inv_run: "preserves (store_inv E) m \<Longrightarrow> store_inv E s \<Longrightarrow> store_inv E (snd (m s))"
  by (rule preserves_run)

lemma seq_fresh_rebase: "store_inv E s \<Longrightarrow> seq_fresh (s\<lparr>clock := t, cur := com s\<rparr>)"
  "store_inv E s \<Longrightarrow> seq_fresh (s\<lparr>cur := com s\<rparr>)"
  by (simp_all add: store_inv_def chain_inv_def log_ok_def seq_fresh_def)

lemma seq_fresh_based: "store_inv E s \<Longrightarrow> seq_fresh s"
  by (auto simp: store_inv_def dest: seq_fresh_chain)

lemma verify_range:
  assumes win_def: "win = filter (in_range a b) (audit_logs (cur s))"
    and lk: "linked E p win" and srt: "sorted (map sequence_no (audit_logs (cur s)))"
    and range: "\<not> range_inverted a b"
  shows "verify_chain E a b s = (Inr \<lparr>verified = True, range_start = a, range_end = b,
           chain_length = length win\<rparr>, s)"
proof -
  have "order_asc sequence_no win = win"
    using srt by (simp add: order_asc_sorted sorted_filter win_def)
  then have fetch: "fetch_range a b s = (Inr win, s)"
    using range by (simp add: fetch_range_def act_simps win_def)
  show ?thesis
  proof (cases win)
    case Nil
    with fetch show ?thesis by (simp add: verify_chain_def act_simps)
  next
    case (Cons r rs)
    with lk have "linked E (prev_hash r) (r # rs)" by auto
    then have "verify_rows E (prev_hash r) (r # rs) = Inr ()"
      by (simp only: verify_rows_linked)
    with Cons fetch show ?thesis
      by (simp add: verify_chain_def act_simps del: verify_rows.simps)
  qed
qed

lemma verify_committed:
  assumes "store_inv E s"
  shows "fst (verify_chain E None None (s\<lparr>cur := com s\<rparr>)) = Inr \<lparr>verified = True, range_start = None,
    range_end = None, chain_length = length (audit_logs (com s))\<rparr>"
proof -
  have all: "filter (in_range None None) rs = rs" for rs :: "audit_log list" by (simp add: in_range_def)
  have ok: "log_ok E (seq_next s) (audit_logs (com s))" using assms by (simp add: store_inv_def chain_inv_def)
  have "verify_chain E None None (s\<lparr>cur := com s\<rparr>) = (Inr \<lparr>verified = True, range_start = None,
      range_end = None, chain_length = length (audit_logs (com s))\<rparr>, s\<lparr>cur := com s\<rparr>)"
    by (rule verify_range [where p = GENESIS_PREV_HASH])
      (use ok sorted_sequence [OF ok] in \<open>simp_all add: all range_inverted_def log_ok_def\<close>)
  then show ?thesis by simp
qed

text \<open>A window of a log whose times do not decrease is a contiguous piece of it.\<close>

lemma window_contiguous:
  fixes log :: "audit_log list"
  assumes "sorted (map occurred_at log)"
  shows "\<exists>xs ys. log = xs @ filter (in_range a b) log @ ys"
proof -
  define lo where "lo r = (case a of None \<Rightarrow> True | Some x \<Rightarrow> x \<le> occurred_at r)" for r :: audit_log
  define hi where "hi r = (case b of None \<Rightarrow> True | Some x \<Rightarrow> occurred_at r \<le> x)" for r :: audit_log
  have split: "\<exists>xs ys. log = xs @ filter (\<lambda>r. lo r \<and> hi r) log @ ys"
    using assms
  proof (induction log)
    case (Cons r rs)
    then obtain xs ys where rs: "rs = xs @ filter (\<lambda>r. lo r \<and> hi r) rs @ ys" by auto
    from Cons.prems have later: "\<forall>x \<in> set rs. occurred_at r \<le> occurred_at x" by simp
    show ?case
    proof (cases "lo r \<and> hi r")
      case False
      then show ?thesis by (metis append_Cons filter.simps(2) rs)
    next
      case True
      then have "\<forall>x \<in> set rs. lo x"
        using later by (auto simp: lo_def split: option.splits)
      then have f: "filter (\<lambda>r. lo r \<and> hi r) rs = filter hi rs"
        by (auto intro: filter_cong)
      have "filter hi rs = takeWhile hi rs" if "sorted (map occurred_at rs)" for rs :: "audit_log list"
        using that
      proof (induction rs)
        case (Cons x rs)
        then show ?case
          by (cases rs) (auto simp: hi_def filter_empty_conv split: option.splits)
      qed simp
      with f Cons.prems have "filter (\<lambda>r. lo r \<and> hi r) (r # rs) = r # takeWhile hi rs"
        using True by simp
      then have "r # rs = [] @ filter (\<lambda>r. lo r \<and> hi r) (r # rs) @ dropWhile hi rs" by simp
      then show ?thesis by blast
    qed
  qed simp
  moreover have "in_range a b = (\<lambda>r. lo r \<and> hi r)"
    by (rule ext) (simp add: in_range_def lo_def hi_def)
  ultimately show ?thesis by simp
qed

lemma linked_prev_hd: "linked E p rs \<Longrightarrow> rs \<noteq> [] \<Longrightarrow> prev_hash (hd rs) = p"
  by (cases rs) auto

lemma sample_chain: "chain_inv env0 (session_of log_db)"
  by (simp add: chain_inv_def log_ok_def log_db_def row0_def row1_def GENESIS_PREV_HASH_def)

section \<open>Properties\<close>

text \<open>
  Recording an event never breaks the chain: in a session whose log is intact, in
  the transaction's view and as committed, \<open>record\<close> leaves both intact, whether it succeeds
  or the database refuses the transaction.
\<close>

theorem record_keeps_chain:
  assumes "chain_inv E s"
  shows "chain_inv E (snd (audit_record E act rt rid uid ip det s))"
  using chain_inv_record assms by (rule preserves_run)

lemma record_keeps_chain_witness:
  "chain_inv env0 (session_of log_db) \<and>
   chain_inv env0 (snd (audit_record env0 CYCLE_OPEN ''cycle'' (Some 7) (Some 3) None JNull (session_of log_db)))"
  using sample_chain record_keeps_chain [OF sample_chain] by blast

text \<open>
  The verifier accepts every intact log, over every window of time that is not
  inverted, when the clock has not gone backwards between records; it reports how many rows
  the window holds.
\<close>

theorem verify_accepts_intact_log:
  assumes inv: "chain_inv E s" and ordered: "sorted (map occurred_at (audit_logs (cur s)))"
    and range: "\<not> range_inverted a b"
  shows "fst (verify_chain E a b s) = Inr \<lparr>verified = True, range_start = a, range_end = b,
           chain_length = length (filter (in_range a b) (audit_logs (cur s)))\<rparr>"
proof -
  let ?log = "audit_logs (cur s)" and ?win = "filter (in_range a b) (audit_logs (cur s))"
  from window_contiguous [OF ordered] obtain xs ys where split: "?log = xs @ ?win @ ys" by blast
  from inv have lk: "linked E GENESIS_PREV_HASH ?log" and srt: "sorted (map sequence_no ?log)"
    by (auto simp: chain_inv_def log_ok_def strict_sorted_imp_sorted)
  from lk have "linked E GENESIS_PREV_HASH (xs @ ?win @ ys)"
    by (simp only: split [symmetric])
  then have win: "linked E (tip GENESIS_PREV_HASH xs) ?win"
    by (simp only: linked_append)
  show ?thesis
    using verify_range [OF refl win srt range] by simp
qed

lemma verify_accepts_intact_log_witness:
  "fst (verify_chain env0 (Some 15) None (session_of log_db)) =
     Inr \<lparr>verified = True, range_start = Some 15, range_end = None, chain_length = 1\<rparr>"
  using verify_accepts_intact_log [OF sample_chain, of "Some 15" None]
  by (simp add: log_db_def row0_def row1_def range_inverted_def in_range_def)

text \<open>
  Claim C30: tamper evidence. Take any two logs of equal length that the verifier accepts and
  that end in the same hash (the log as it was, and a rewritten one). If the keyed hash does
  not collide on what the two logs hash, they agree row by row on the previous hash, on
  every hashed field and on the hash: no field that enters the serialization was changed.
\<close>

theorem accepted_logs_agree:
  assumes "verify_rows E p xs = Inr ()" and "verify_rows E q ys = Inr ()"
    and "length xs = length ys" and "tip p xs = tip q ys"
    and "inj_on (\<lambda>(h, x). chain_hmac E h x)
          ((\<lambda>r. (prev_hash r, serialize_for_chain r)) ` (set xs \<union> set ys))"
  shows "map (\<lambda>r. (prev_hash r, serialize_for_chain r, hash_chain_value r)) xs
       = map (\<lambda>r. (prev_hash r, serialize_for_chain r, hash_chain_value r)) ys"
  using assms
proof (induction xs arbitrary: ys rule: rev_induct)
  case Nil
  then show ?case by simp
next
  case (snoc x xs)
  then obtain y ys' where ys: "ys = ys' @ [y]"
    by (metis length_0_conv rev_exhaust snoc_eq_iff_butlast)
  from snoc.prems ys have lx: "linked E p (xs @ [x])" and ly: "linked E q (ys' @ [y])"
    by (simp_all add: verify_rows_linked)
  then have x: "prev_hash x = tip p xs" "hash_chain_value x = chain_hmac E (prev_hash x) (serialize_for_chain x)"
    and y: "prev_hash y = tip q ys'" "hash_chain_value y = chain_hmac E (prev_hash y) (serialize_for_chain y)"
    by (auto simp: linked_append)
  have "hash_chain_value x = hash_chain_value y"
    using snoc.prems(4) by (simp add: ys)
  with x y have "(\<lambda>(h, x). chain_hmac E h x) (prev_hash x, serialize_for_chain x)
      = (\<lambda>(h, x). chain_hmac E h x) (prev_hash y, serialize_for_chain y)" by simp
  with snoc.prems(5) have same: "(prev_hash x, serialize_for_chain x) = (prev_hash y, serialize_for_chain y)"
    by (rule inj_onD) (auto simp: ys)
  have "map (\<lambda>r. (prev_hash r, serialize_for_chain r, hash_chain_value r)) xs
       = map (\<lambda>r. (prev_hash r, serialize_for_chain r, hash_chain_value r)) ys'"
  proof (rule snoc.IH)
    show "verify_rows E p xs = Inr ()" "verify_rows E q ys' = Inr ()"
      using lx ly by (simp_all add: verify_rows_linked linked_append)
    show "length xs = length ys'" using snoc.prems(3) ys by simp
    show "tip p xs = tip q ys'" using same x(1) y(1) by simp
    show "inj_on (\<lambda>(h, x). chain_hmac E h x)
          ((\<lambda>r. (prev_hash r, serialize_for_chain r)) ` (set xs \<union> set ys'))"
      using snoc.prems(5) by (rule inj_on_subset) (auto simp: ys)
  qed
  with same \<open>hash_chain_value x = hash_chain_value y\<close> show ?case by (simp add: ys)
qed

lemma accepted_logs_agree_witness:
  "verify_rows env0 GENESIS_PREV_HASH [row0, row1] = Inr () \<and>
   map (\<lambda>r. (prev_hash r, serialize_for_chain r, hash_chain_value r)) [row0, row1]
     = map (\<lambda>r. (prev_hash r, serialize_for_chain r, hash_chain_value r)) [row0\<lparr>al_id := 9\<rparr>, row1]"
proof -
  have v: "verify_rows env0 GENESIS_PREV_HASH [row0, row1] = Inr ()"
    "verify_rows env0 GENESIS_PREV_HASH [row0\<lparr>al_id := 9\<rparr>, row1] = Inr ()"
    by (simp_all add: row0_def row1_def GENESIS_PREV_HASH_def)
  have "inj_on (\<lambda>(h, x). chain_hmac env0 h x) ((\<lambda>r. (prev_hash r, serialize_for_chain r)) `
      (set [row0, row1] \<union> set [row0\<lparr>al_id := 9\<rparr>, row1]))"
    by (simp add: inj_on_def row0_def row1_def serialize_for_chain_def)
  then show ?thesis using v accepted_logs_agree [OF v] by simp
qed

text \<open>
  What the verifier does not see. Deleting any number of the oldest rows of an
  intact log leaves a log that full verification accepts: the first row's previous hash is
  taken from the row itself and never compared with the genesis value.
\<close>

theorem deleted_prefix_accepted:
  assumes "log_ok E n log" and "audit_logs (cur s) = drop k log"
  shows "fst (verify_chain E None None s) = Inr \<lparr>verified = True, range_start = None,
           range_end = None, chain_length = length log - k\<rparr>"
proof -
  have all: "filter (in_range None None) rs = rs" for rs :: "audit_log list"
    by (simp add: in_range_def)
  have "linked E GENESIS_PREV_HASH (take k log @ drop k log)"
    using assms(1) by (simp add: log_ok_def)
  then have lk: "linked E (tip GENESIS_PREV_HASH (take k log)) (drop k log)"
    by (simp only: linked_append)
  have srt: "sorted (map sequence_no (audit_logs (cur s)))"
    using sorted_wrt_drop [of "(\<le>)" "map sequence_no log" k] sorted_sequence [OF assms(1)]
    by (simp add: assms(2) drop_map)
  have "verify_chain E None None s = (Inr \<lparr>verified = True, range_start = None,
      range_end = None, chain_length = length (drop k log)\<rparr>, s)"
    by (rule verify_range [OF _ lk srt]) (simp_all add: all assms(2) range_inverted_def)
  then show ?thesis by simp
qed

lemma deleted_prefix_accepted_witness:
  "fst (verify_chain env0 None None (session_of (empty_db\<lparr>audit_logs := [row1]\<rparr>))) =
     Inr \<lparr>verified = True, range_start = None, range_end = None, chain_length = 1\<rparr>"
proof -
  have ok: "log_ok env0 2 [row0, row1]"
    by (simp add: log_ok_def row0_def row1_def GENESIS_PREV_HASH_def)
  show ?thesis
    using deleted_prefix_accepted [OF ok, of "session_of (empty_db\<lparr>audit_logs := [row1]\<rparr>)" 1] by simp
qed

text \<open>
  Two requests that record at the same time break the chain. Each reads the same
  latest row before the other's row is visible; the second gets the next sequence number.
  The log that holds both rows is refused by full verification with \<open>AUDIT_001\<close>, unless the
  first row's hash happens to equal the hash before it.
\<close>

theorem concurrent_records_break_chain:
  assumes inv: "chain_inv E s" and base: "cur s = com s" "db_ok (com s)"
    and nonempty: "audit_logs (com s) \<noteq> []"
    and first: "fst (audit_record E act rt rid uid ip det s) = Inr r1"
    and second: "fst (audit_record E act' rt' rid' uid' ip' det'
          (s\<lparr>seq_next := Suc (seq_next s), uid_next := Suc (uid_next s)\<rparr>)) = Inr r2"
    and merged: "audit_logs (cur t) = audit_logs (com s) @ [r1, r2]"
    and differs: "hash_chain_value r1 \<noteq> prev_hash r1"
  shows "fst (verify_chain E None None t) = Inl (app_err AppError ''AUDIT_001'')"
proof -
  let ?s2 = "s\<lparr>seq_next := Suc (seq_next s), uid_next := Suc (uid_next s)\<rparr>"
  let ?log = "audit_logs (com s)"
  have below: "\<forall>r \<in> set (audit_logs (cur s)). sequence_no r < seq_next s"
    using inv by (simp add: chain_inv_def log_ok_def)
  then have below2: "\<forall>r \<in> set (audit_logs (cur ?s2)). sequence_no r < seq_next ?s2" by auto
  have r1: "r1 = audit_row E act rt rid uid ip det s"
    using first base by (simp add: audit_record_cases [OF below] Let_def)
  have r2: "r2 = audit_row E act' rt' rid' uid' ip' det' ?s2"
    using second base audit_record_cases [OF below2] by (simp add: Let_def)
  have prev: "prev_hash r2 = prev_hash r1"
    by (simp add: r1 r2 audit_row_def Let_def)
  have srt: "sorted (map sequence_no (?log @ [r1, r2]))"
    using inv by (auto simp: chain_inv_def log_ok_def r1 r2 sorted_append less_imp_le
        strict_sorted_imp_sorted intro: less_imp_le less_SucI)
  have fetch: "fetch_range None None t = (Inr (?log @ [r1, r2]), t)"
    using order_asc_sorted [OF srt]
    by (simp add: fetch_range_def act_simps range_inverted_def in_range_def merged)
  obtain r rs where log: "?log = r # rs" using nonempty by (cases ?log) auto
  have two: "verify_rows E p rs = Inr () \<or> verify_rows E p rs = Inl (app_err AppError ''AUDIT_001'')" for p rs
    by (induction rs arbitrary: p) auto
  have "\<not> linked E (prev_hash r) (?log @ [r1, r2])"
    using prev differs by (auto simp: linked_append)
  then have "verify_rows E (prev_hash r) (?log @ [r1, r2]) \<noteq> Inr ()"
    by (simp only: verify_rows_linked not_False_eq_True)
  with two have "verify_rows E (prev_hash r) (?log @ [r1, r2]) = Inl (app_err AppError ''AUDIT_001'')"
    by blast
  with fetch log show ?thesis
    by (simp add: verify_chain_def act_simps del: verify_rows.simps)
qed

lemma concurrent_records_break_chain_witness:
  "\<exists>r1 r2. fst (verify_chain env0 None None (session_of (log_db\<lparr>audit_logs := [row0, row1, r1, r2]\<rparr>)))
     = Inl (app_err AppError ''AUDIT_001'')"
proof -
  let ?s = "session_of log_db"
  let ?s2 = "?s\<lparr>seq_next := Suc (seq_next ?s), uid_next := Suc (uid_next ?s)\<rparr>"
  have below: "\<forall>r \<in> set (audit_logs (cur ?s)). sequence_no r < seq_next ?s"
    "\<forall>r \<in> set (audit_logs (cur ?s2)). sequence_no r < seq_next ?s2"
    by (simp_all add: log_db_def row0_def row1_def)
  define r1 where "r1 = audit_row env0 LOGOUT ''session'' None None None JNull ?s"
  define r2 where "r2 = audit_row env0 LOGOUT ''session'' None None None JNull ?s2"
  have "fst (audit_record env0 LOGOUT ''session'' None None None JNull ?s) = Inr r1"
    "fst (audit_record env0 LOGOUT ''session'' None None None JNull ?s2) = Inr r2"
    using log_db_ok audit_record_cases [OF below(1), of env0 LOGOUT "''session''" None None None JNull]
      audit_record_cases [OF below(2), of env0 LOGOUT "''session''" None None None JNull]
    by (simp_all add: r1_def r2_def Let_def)
  moreover have "hash_chain_value r1 \<noteq> prev_hash r1"
    by (simp add: r1_def audit_row_hash)
  ultimately show ?thesis
    using concurrent_records_break_chain [OF sample_chain, of LOGOUT "''session''" None None None JNull r1
        LOGOUT "''session''" None None None JNull r2 "session_of (log_db\<lparr>audit_logs := [row0, row1, r1, r2]\<rparr>)"]
      log_db_ok by (auto simp: log_db_def)
qed

end
