(* ===== verification/Rbac.thy ===== *)
theory Rbac
  imports Samples "HOL-Library.Char_ord"
begin

text \<open>
  \<^verbatim>\<open>core/security/roles.py\<close>, \<open>User.role_set\<close> of \<^verbatim>\<open>core/security/models.py\<close> and
  \<^verbatim>\<open>core/security/rbac.py\<close>: the roles, the set of org units a user may see, and the
  breadth-first closure over the org tree. The sentinel \<open>ALL_SCOPES\<close>, which the code
  recognises by identity, is a constructor of its own.
\<close>

section \<open>Roles\<close>

datatype role = SystemAdmin | FinanceAdmin | HRAdmin | FilingUnitManager | UplineReviewer
  | CompanyReviewer | ITSecurityAuditor

fun role_value :: "role \<Rightarrow> string" where
  "role_value SystemAdmin = ''SystemAdmin''"
| "role_value FinanceAdmin = ''FinanceAdmin''"
| "role_value HRAdmin = ''HRAdmin''"
| "role_value FilingUnitManager = ''FilingUnitManager''"
| "role_value UplineReviewer = ''UplineReviewer''"
| "role_value CompanyReviewer = ''CompanyReviewer''"
| "role_value ITSecurityAuditor = ''ITSecurityAuditor''"

definition all_roles :: "role list" where
  "all_roles = [SystemAdmin, FinanceAdmin, HRAdmin, FilingUnitManager, UplineReviewer,
     CompanyReviewer, ITSecurityAuditor]"

text \<open>\<open>Role(item)\<close>: the member with this value, or \<open>ValueError\<close>.\<close>

definition role_of_value :: "string \<Rightarrow> role option" where
  "role_of_value v = find (\<lambda>r. role_value r = v) all_roles"

lemma role_value_inject [simp]: "role_value a = role_value b \<longleftrightarrow> a = b"
  by (cases a; cases b) simp_all

lemma in_all_roles: "r \<in> set all_roles"
  by (cases r) (simp_all add: all_roles_def)

lemma role_of_value_Some: "role_of_value v = Some r \<longleftrightarrow> v = role_value r"
proof
  assume "role_of_value v = Some r"
  then show "v = role_value r" by (auto simp: role_of_value_def find_Some_iff)
next
  assume v: "v = role_value r"
  then show "role_of_value v = Some r" by (cases r) (simp_all add: role_of_value_def all_roles_def)
qed

text \<open>Roles are listed in messages sorted by value.\<close>

instantiation role :: linorder
begin

definition less_eq_role :: "role \<Rightarrow> role \<Rightarrow> bool" where
  "less_eq_role a b \<longleftrightarrow> role_value a \<le> role_value b"

definition less_role :: "role \<Rightarrow> role \<Rightarrow> bool" where
  "less_role a b \<longleftrightarrow> role_value a < role_value b"

instance
  by standard (auto simp: less_eq_role_def less_role_def less_le)

end

definition role_set :: "user \<Rightarrow> role list" where
  "role_set u = List.map_filter role_of_value (user_roles u)"

lemma set_map_filter: "set (List.map_filter f xs) = {y. \<exists>x \<in> set xs. f x = Some y}"
  by (induction xs) (auto simp: List.map_filter_simps split: option.splits)

lemma set_role_set: "set (role_set u) = {r. role_value r \<in> set (user_roles u)}"
  by (auto simp: role_set_def set_map_filter role_of_value_Some)

definition primary_role :: "user \<Rightarrow> role option" where
  "primary_role u = first_row (role_set u)"

text \<open>\<open>require_role\<close>: the check of the dependency, once the user is known.\<close>

definition require_role :: "role list \<Rightarrow> user \<Rightarrow> user op" where
  "require_role allowed u =
     (if set (role_set u) \<inter> set allowed = {} then raise (app_err ForbiddenError ''RBAC_001'') else ret u)"

text \<open>A route is a session that starts with the role check.\<close>

lemma role_session: "get_session (bnd (require_role allowed u) f) s =
    (if set (role_set u) \<inter> set allowed = {} then (Inl (app_err ForbiddenError ''RBAC_001''), s\<lparr>cur := com s\<rparr>)
     else get_session (f u) s)"
  by (simp add: get_session_simp require_role_def act_simps app_error_init_def)

text \<open>Between requests nothing is pending.\<close>

lemma session_base: "cur s = com s \<Longrightarrow> s\<lparr>cur := com s\<rparr> = s"
  by (metis session.surjective session.update_convs(1))

section \<open>The org tree below a unit\<close>

text \<open>
  One level of the breadth-first search: the units whose parent is in the frontier and that
  have not been visited.
\<close>

definition next_frontier :: "org_unit list \<Rightarrow> uuid list \<Rightarrow> uuid list \<Rightarrow> uuid list" where
  "next_frontier us visited frontier =
     remdups (filter (\<lambda>c. c \<notin> set visited)
       (map ou_id (filter (\<lambda>u. case parent_id u of None \<Rightarrow> False | Some p \<Rightarrow> p \<in> set frontier) us)))"

lemma next_frontier_new:
  "set (next_frontier us v f) \<inter> set v = {}"
  "set (next_frontier us v f) \<subseteq> ou_id ` set us"
  by (auto simp: next_frontier_def)

function descend :: "org_unit list \<Rightarrow> uuid list \<Rightarrow> uuid list \<Rightarrow> uuid list" where
  "descend us visited frontier =
     (if frontier = [] then visited
      else let new = next_frontier us visited frontier in descend us (visited @ new) new)"
  by pat_completeness auto
termination
proof (relation "measure (\<lambda>(us, v, f). 2 * card (ou_id ` set us - set v) + (if f = [] then 0 else 1))",
    simp, goal_cases)
  case (1 us v f new)
  show ?case
  proof (cases "new = []")
    case True
    with 1 show ?thesis by simp
  next
    case False
    then obtain c where c: "c \<in> set new" by (cases new) auto
    have "c \<in> ou_id ` set us - set v"
      using c 1 next_frontier_new [of us v f] by auto
    moreover have "c \<notin> ou_id ` set us - set (v @ new)" using c by simp
    ultimately have "ou_id ` set us - set (v @ new) \<subset> ou_id ` set us - set v" by auto
    then have "card (ou_id ` set us - set (v @ new)) < card (ou_id ` set us - set v)"
      by (intro psubset_card_mono) auto
    with 1 show ?thesis by simp
  qed
qed

declare descend.simps [simp del]

definition descendants :: "org_unit list \<Rightarrow> uuid \<Rightarrow> uuid list" where
  "descendants us root_id = descend us [root_id] [root_id]"

text \<open>The specification: everything reachable from the root along child links.\<close>

definition child_of :: "org_unit list \<Rightarrow> (uuid \<times> uuid) set" where
  "child_of us = {(p, ou_id u) | p u. u \<in> set us \<and> parent_id u = Some p}"

lemma child_of_code: "child_of us = (\<Union>u \<in> set us. case parent_id u of None \<Rightarrow> {} | Some p \<Rightarrow> {(p, ou_id u)})"
  by (auto simp: child_of_def split: option.splits)

lemma set_next_frontier:
  "set (next_frontier us v f) = {c. \<exists>p \<in> set f. (p, c) \<in> child_of us} - set v"
  by (auto simp: next_frontier_def child_of_def split: option.splits)

lemma descend_closed:
  assumes "set f \<subseteq> set v" and "\<forall>p \<in> set v - set f. \<forall>c. (p, c) \<in> child_of us \<longrightarrow> c \<in> set v"
  shows "set (descend us v f) = {c. \<exists>p \<in> set v. (p, c) \<in> (child_of us)\<^sup>*}"
  using assms
proof (induction us v f rule: descend.induct)
  case (1 us v f)
  show ?case
  proof (cases "f = []")
    case True
    with "1.prems" have step: "\<And>p c. (p, c) \<in> child_of us \<Longrightarrow> p \<in> set v \<Longrightarrow> c \<in> set v" by auto
    have "c \<in> set v" if "(p, c) \<in> (child_of us)\<^sup>*" "p \<in> set v" for p c
      using that by (induction rule: rtrancl_induct) (auto intro: step)
    with True show ?thesis by (subst descend.simps) auto
  next
    case False
    let ?new = "next_frontier us v f"
    have IH: "set (descend us (v @ ?new) ?new) = {c. \<exists>p \<in> set (v @ ?new). (p, c) \<in> (child_of us)\<^sup>*}"
      using "1.prems" by (intro "1.IH" [OF False]) (auto simp: set_next_frontier)
    have "\<exists>p \<in> set v. (p, c) \<in> (child_of us)\<^sup>*" if "q \<in> set ?new" "(q, c) \<in> (child_of us)\<^sup>*" for q c
    proof -
      from that(1) obtain p where "p \<in> set f" "(p, q) \<in> child_of us" by (auto simp: set_next_frontier)
      with that(2) "1.prems"(1) show ?thesis by (meson converse_rtrancl_into_rtrancl subsetD)
    qed
    with IH False show ?thesis by (subst descend.simps) (auto simp: Let_def)
  qed
qed

lemma descendants_reachable_set:
  "set (descendants us r) = {c. (r, c) \<in> (child_of us)\<^sup>*}"
  unfolding descendants_def by (subst descend_closed) auto

section \<open>Scopes\<close>

datatype scope = ALL_SCOPES | Units "uuid list"

definition global_roles :: "role list" where
  "global_roles = [SystemAdmin, FinanceAdmin, HRAdmin, ITSecurityAuditor]"

definition scoped_org_units :: "user \<Rightarrow> db \<Rightarrow> scope" where
  "scoped_org_units u d =
     (let roles = set (role_set u) in
      if roles \<inter> set global_roles \<noteq> {} then ALL_SCOPES
      else if CompanyReviewer \<in> roles then
        Units (map ou_id (filter (\<lambda>w. level_code w = str ''0000'') (org_units d)))
      else if FilingUnitManager \<in> roles then
        Units (case user_org_unit_id u of None \<Rightarrow> [] | Some i \<Rightarrow> [i])
      else if UplineReviewer \<in> roles then
        (case user_org_unit_id u of None \<Rightarrow> Units [] | Some i \<Rightarrow> Units (descendants (org_units d) i))
      else Units [])"

definition in_scope :: "scope \<Rightarrow> uuid \<Rightarrow> bool" where
  "in_scope sc i = (case sc of ALL_SCOPES \<Rightarrow> True | Units us \<Rightarrow> i \<in> set us)"

lemma in_scope_simps [simp]: "in_scope ALL_SCOPES i" "in_scope (Units us) i \<longleftrightarrow> i \<in> set us"
  by (simp_all add: in_scope_def)

section \<open>Properties\<close>

text \<open>
  Claim C33: the breadth-first search over the org tree terminates on every table of units,
  also on one whose parent links form a cycle, and returns exactly the units reachable from
  the root along child links, the root included.
\<close>

theorem descendants_reachable:
  "set (descendants us root_id) = {c. (root_id, c) \<in> (child_of us)\<^sup>*}"
  by (rule descendants_reachable_set)

text \<open>
  What a user without a global role sees, role by role in the order of the code:
  a company reviewer only the root units, otherwise a filing-unit manager only their own
  unit, otherwise an upline reviewer their unit and everything below it, anyone else nothing.
\<close>

theorem scope_of_user:
  assumes "set (role_set u) \<inter> set global_roles = {}"
  shows "in_scope (scoped_org_units u d) i \<longleftrightarrow>
    (if CompanyReviewer \<in> set (role_set u)
     then \<exists>w \<in> set (org_units d). ou_id w = i \<and> level_code w = str ''0000''
     else if FilingUnitManager \<in> set (role_set u) then user_org_unit_id u = Some i
     else UplineReviewer \<in> set (role_set u) \<and>
       (\<exists>r. user_org_unit_id u = Some r \<and> (r, i) \<in> (child_of (org_units d))\<^sup>*))"
  using assms by (auto simp: scoped_org_units_def Let_def descendants_reachable_set split: option.splits)

text \<open>A small org tree with a manager and a reviewer, for the witnesses.\<close>

definition unit0 :: org_unit where
  "unit0 = \<lparr>ou_id = 1, ou_code = str ''0001'', ou_name = str ''Root'', level_code = str ''0000'',
     parent_id = None, is_filing_unit = False, is_reviewer_only = False,
     excluded_for_cycle_ids = [], ou_updated_at = 0\<rparr>"

definition unit1 :: org_unit where
  "unit1 = unit0\<lparr>ou_id := 2, ou_code := str ''4023'', ou_name := str ''Sales'',
     level_code := str ''4000'', parent_id := Some 1, is_filing_unit := True\<rparr>"

definition manager0 :: user where
  "manager0 = \<lparr>user_id = 50, sso_id_hash = [1], user_name = str ''M'', email_enc = str ''m@x'',
     email_hash = [2], user_roles = [''FilingUnitManager''], user_org_unit_id = Some 2,
     is_active = True, user_created_at = 0, user_updated_at = 0\<rparr>"

definition admin0 :: user where
  "admin0 = manager0\<lparr>user_id := 51, sso_id_hash := [3], email_hash := [4],
     user_roles := [''SystemAdmin''], user_org_unit_id := None\<rparr>"

definition org_db :: db where
  "org_db = empty_db\<lparr>org_units := [unit0, unit1], users := [manager0, admin0]\<rparr>"

lemma roles_of_samples [simp]:
  "role_set manager0 = [FilingUnitManager]" "role_set admin0 = [SystemAdmin]"
  by (simp_all add: role_set_def List.map_filter_def role_of_value_def all_roles_def
      manager0_def admin0_def)

lemma units_of_samples [simp]:
  "user_org_unit_id manager0 = Some 2" "user_org_unit_id admin0 = None"
  by (simp_all add: manager0_def admin0_def)

lemma org_db_ok: "db_ok org_db"
  by (simp add: db_ok_def org_db_def constraint_defs unit0_def unit1_def manager0_def admin0_def)

lemma scope_of_user_witness:
  "in_scope (scoped_org_units manager0 org_db) 2 \<and> \<not> in_scope (scoped_org_units manager0 org_db) 1"
  using scope_of_user [of manager0 org_db 2] scope_of_user [of manager0 org_db 1]
  by (simp add: global_roles_def)

end
