(* ===== verification/Cycles.thy ===== *)
theory Cycles
  imports Audit_Log Rbac
begin

text \<open>
  \<^verbatim>\<open>domain/cycles/\<close>: the state machine of a budget cycle, the filing units and their
  manager check, the exclusion list, the reminder schedule, and the operations of
  \<open>CycleService\<close>. Each operation is the whole method: its guards in the code's order, its
  writes, its commits and its audit record.
\<close>

section \<open>The state machine\<close>

definition ALLOWED :: "(cycle_state \<times> cycle_state) list" where
  "ALLOWED = [(draft, open), (open, closed), (closed, open)]"

definition can_transition :: "cycle_state \<Rightarrow> cycle_state \<Rightarrow> bool" where
  "can_transition from_state to_state \<longleftrightarrow> (from_state, to_state) \<in> set ALLOWED"

definition assert_transition :: "cycle_state \<Rightarrow> cycle_state \<Rightarrow> unit op" where
  "assert_transition from_state to_state =
     (if \<not> can_transition from_state to_state then raise (app_err ConflictError ''CYCLE_003'')
      else ret ())"

section \<open>Filing units\<close>

definition MANAGER_ROLES :: "string list" where
  "MANAGER_ROLES = map role_value [FilingUnitManager, UplineReviewer, FinanceAdmin, SystemAdmin]"

record filing_unit_info =
  fu_org_unit_id :: uuid
  fu_code :: pystr
  fu_name :: pystr
  has_manager :: bool
  excluded :: bool
  fu_warnings :: "string list"

definition has_manager_role :: "user list \<Rightarrow> bool" where
  "has_manager_role us \<longleftrightarrow> (\<exists>u \<in> set us. \<exists>r \<in> set (user_roles u). r \<in> set MANAGER_ROLES)"

definition list_filing_units :: "db \<Rightarrow> uuid \<Rightarrow> filing_unit_info list" where
  "list_filing_units d cid =
     (let units = order_asc ou_code (filter (\<lambda>w. is_filing_unit w \<and> level_code w \<noteq> str ''0000'')
                    (org_units d));
          active = filter (\<lambda>u. is_active u \<and>
                    (case user_org_unit_id u of None \<Rightarrow> False | Some i \<Rightarrow> i \<in> ou_id ` set units)) (users d)
      in map (\<lambda>w.
           let candidates = filter (\<lambda>u. user_org_unit_id u = Some (ou_id w)) active;
               mgr = has_manager_role candidates;
               excl = cid \<in> set (excluded_for_cycle_ids w)
           in \<lparr>fu_org_unit_id = ou_id w, fu_code = ou_code w, fu_name = ou_name w,
               has_manager = mgr, excluded = excl,
               fu_warnings = (if \<not> mgr \<and> \<not> excl then [''missing-manager''] else [])\<rparr>) units)"

section \<open>Currency codes\<close>

text \<open>
  \<open>str.upper()\<close> as far as the test can tell: the letters whose upper case is ASCII, the
  ligatures and the sharp s included, which become several letters.
\<close>

definition upper_char :: "nat \<Rightarrow> pystr" where
  "upper_char c = (if 97 \<le> c \<and> c \<le> 122 then [c - 32]
     else if c = 223 then str ''SS'' else if c = 305 then str ''I'' else if c = 383 then str ''S''
     else if c = 64256 then str ''FF'' else if c = 64257 then str ''FI'' else if c = 64258 then str ''FL''
     else if c = 64259 then str ''FFI'' else if c = 64260 then str ''FFL''
     else if c = 64261 \<or> c = 64262 then str ''ST'' else [c])"

definition validate_currency :: "pystr \<Rightarrow> exn + pystr" where
  "validate_currency value =
     (let normalized = concat (map upper_char (strip value)) in
      if length normalized \<noteq> 3 \<or> \<not> list_all (\<lambda>c. 65 \<le> c \<and> c \<le> 90) normalized
      then Inl Value_error else Inr normalized)"

section \<open>Reminder schedule\<close>

text \<open>
  \<^verbatim>\<open>reminders.set_reminder_schedule\<close>: validate, delete the cycle's rows, insert the new ones,
  flush.
\<close>

definition set_reminder_schedule :: "uuid \<Rightarrow> int list \<Rightarrow> reminder_schedule list op" where
  "set_reminder_schedule cid days =
     sq (check (\<not> list_ex (\<lambda>raw. raw \<le> 0) days) Value_error)
    (sq (update (\<lambda>d. d\<lparr>reminder_schedules := filter (\<lambda>r. rs_cycle_id r \<noteq> cid) (reminder_schedules d)\<rparr>))
    (bnd now_utc (\<lambda>now.
     bnd (mapA (with_uuid (\<lambda>i n.
            \<lparr>rs_id = i, rs_cycle_id = cid, days_before = n, rs_created_at = now\<rparr>)) days) (\<lambda>inserted.
     sq (update (\<lambda>d. d\<lparr>reminder_schedules := reminder_schedules d @ inserted\<rparr>))
    (sq flush
        (ret inserted))))))"

definition DEFAULT_REMINDER_DAYS :: "int list" where
  "DEFAULT_REMINDER_DAYS = [7, 3, 1]"

section \<open>CycleService\<close>

definition cycle_get :: "uuid \<Rightarrow> budget_cycle op" where
  "cycle_get cid = bnd (query (\<lambda>d. get_row cycle_id cid (budget_cycles d))) (\<lambda>row.
     case row of None \<Rightarrow> raise (app_err NotFoundError ''CYCLE_001'') | Some c \<Rightarrow> ret c)"

definition cycle_get_status :: "uuid \<Rightarrow> cycle_state op" where
  "cycle_get_status cid = bnd (cycle_get cid) (\<lambda>c. ret (cycle_status c))"

definition cycle_list :: "int option \<Rightarrow> budget_cycle list op" where
  "cycle_list fy = query (\<lambda>d.
     order_desc fiscal_year (order_desc created_at
       (case fy of None \<Rightarrow> budget_cycles d
        | Some y \<Rightarrow> filter (\<lambda>c. fiscal_year c = y) (budget_cycles d))))"

definition cycle_assert_open :: "uuid \<Rightarrow> unit op" where
  "cycle_assert_open cid = bnd (cycle_get cid) (\<lambda>c.
     if cycle_status c \<noteq> open then raise (app_err AppError ''CYCLE_004'') else ret ())"

text \<open>Writing the loaded row back: the attributes assigned by the method.\<close>

definition put_cycle :: "budget_cycle \<Rightarrow> unit op" where
  "put_cycle c = update (\<lambda>d. d\<lparr>budget_cycles := upd_row cycle_id (cycle_id c) (\<lambda>_. c) (budget_cycles d)\<rparr>)"

definition cycle_create :: "env \<Rightarrow> int \<Rightarrow> day \<Rightarrow> pystr \<Rightarrow> user \<Rightarrow> budget_cycle op" where
  "cycle_create E fy dl currency_text u =
     bnd (lift (validate_currency currency_text)) (\<lambda>currency.
     bnd (query (\<lambda>d. first_row (filter (\<lambda>c. fiscal_year c = fy \<and> cycle_status c \<noteq> closed)
            (budget_cycles d)))) (\<lambda>existing.
     sq (check (existing = None) (app_err ConflictError ''CYCLE_001''))
    (bnd now_utc (\<lambda>now.
     bnd new_uuid (\<lambda>i.
       let c = \<lparr>cycle_id = i, fiscal_year = fy, deadline = dl, reporting_currency = currency,
             cycle_status = draft, opened_at = None, closed_at = None, closed_by = None,
             reopen_reason = None, reopened_at = None, created_by = user_id u,
             created_at = now, updated_at = now\<rparr> in
       sq (update (\<lambda>d. d\<lparr>budget_cycles := budget_cycles d @ [c]\<rparr>))
      (sq (commit_audited E CYCLE_CREATE ''cycle'' (Some i) (Some (user_id u))
             (JObj [(''fiscal_year'', JInt fy), (''deadline'', JInt dl),
                    (''reporting_currency'', JText currency)]))
          (ret c)))))))"

text \<open>Inside \<open>open\<close>: the default schedule, when the cycle has none.\<close>

definition ensure_schedule :: "uuid \<Rightarrow> unit op" where
  "ensure_schedule cid =
     bnd (query (\<lambda>d. first_row (filter (\<lambda>r. rs_cycle_id r = cid) (reminder_schedules d)))) (\<lambda>existing.
     if existing = None then bnd (set_reminder_schedule cid DEFAULT_REMINDER_DAYS) (\<lambda>_. ret ())
     else ret ())"

definition cycle_open :: "env \<Rightarrow> uuid \<Rightarrow> user \<Rightarrow> (budget_cycle \<times> org_unit list) op" where
  "cycle_open E cid u =
     bnd (cycle_get cid) (\<lambda>c.
     sq (assert_transition (cycle_status c) open)
    (bnd (query (\<lambda>d. list_filing_units d cid)) (\<lambda>infos.
       let missing = filter (\<lambda>i. \<not> has_manager i \<and> \<not> excluded i) infos;
           actionable = filter (\<lambda>i. \<not> excluded i) infos in
       sq (check (missing = []) (app_err ConflictError ''CYCLE_002''))
      (bnd now_utc (\<lambda>now.
         let c' = c\<lparr>cycle_status := open, opened_at := Some now, updated_at := now\<rparr> in
         sq (put_cycle c')
        (sq (ensure_schedule cid)
        (sq (commit_audited E CYCLE_OPEN ''cycle'' (Some cid) (Some (user_id u))
               (JObj [(''fiscal_year'', JInt (fiscal_year c)), (''deadline'', JInt (deadline c)),
                      (''filing_units'', JArr (map (\<lambda>i. JText (fu_code i)) actionable))]))
        (bnd (query (\<lambda>d. order_asc ou_code
               (filter (\<lambda>w. ou_id w \<in> fu_org_unit_id ` set actionable) (org_units d)))) (\<lambda>units.
         ret (c', if actionable = [] then [] else units))))))))))"

definition cycle_close :: "env \<Rightarrow> uuid \<Rightarrow> user \<Rightarrow> budget_cycle op" where
  "cycle_close E cid u =
     bnd (cycle_get cid) (\<lambda>c.
     sq (assert_transition (cycle_status c) closed)
    (bnd now_utc (\<lambda>now.
       let c' = c\<lparr>cycle_status := closed, closed_at := Some now, closed_by := Some (user_id u),
                  updated_at := now\<rparr> in
       sq (put_cycle c')
      (sq (commit_audited E CYCLE_CLOSE ''cycle'' (Some cid) (Some (user_id u))
             (JObj [(''fiscal_year'', JInt (fiscal_year c))]))
          (ret c')))))"

text \<open>\<open>timedelta.days\<close>: whole days, rounded down.\<close>

definition days_between :: "stamp \<Rightarrow> stamp \<Rightarrow> int" where
  "days_between later earlier = (later - earlier) div 86400000000"

definition cycle_reopen :: "env \<Rightarrow> uuid \<Rightarrow> pystr \<Rightarrow> user \<Rightarrow> budget_cycle op" where
  "cycle_reopen E cid reason u =
     sq (check (SystemAdmin \<in> set (role_set u)) (app_err AppError ''RBAC_001''))
    (bnd (cycle_get cid) (\<lambda>c.
     sq (if cycle_status c \<noteq> closed then assert_transition (cycle_status c) open else ret ())
    (case closed_at c of
       None \<Rightarrow> raise (app_err AppError ''CYCLE_005'')
     | Some closed_time \<Rightarrow>
         bnd now_utc (\<lambda>now.
           let elapsed = days_between now closed_time in
           sq (check (\<not> elapsed > reopen_window_days (cfg E)) (app_err AppError ''CYCLE_005''))
          (let c' = c\<lparr>cycle_status := open, reopen_reason := Some reason,
                      reopened_at := Some now, updated_at := now\<rparr> in
           sq (put_cycle c')
          (sq (commit_audited E CYCLE_REOPEN ''cycle'' (Some cid) (Some (user_id u))
                 (JObj [(''reason'', JText reason), (''elapsed_days'', JInt elapsed)]))
              (ret c')))))))"

definition cycle_set_reminder_schedule :: "env \<Rightarrow> uuid \<Rightarrow> int list \<Rightarrow> user \<Rightarrow> reminder_schedule list op" where
  "cycle_set_reminder_schedule E cid days u =
     bnd (set_reminder_schedule cid days) (\<lambda>rows.
     sq (commit_audited E CYCLE_REMINDER_SET ''cycle'' (Some cid) (Some (user_id u))
          (JObj [(''days_before'', JArr (map JInt days))]))
        (ret rows))"

text \<open>\<^verbatim>\<open>exclusions.apply_exclusion\<close>, which \<open>set_exclusions\<close> wraps.\<close>

definition toggle_exclusion :: "uuid \<Rightarrow> bool \<Rightarrow> uuid list \<Rightarrow> uuid list" where
  "toggle_exclusion target excl before =
     (if excl \<and> target \<notin> set before then before @ [target]
      else if \<not> excl \<and> target \<in> set before then filter (\<lambda>x. x \<noteq> target) before
      else before)"

definition apply_exclusion :: "env \<Rightarrow> uuid \<Rightarrow> uuid \<Rightarrow> bool \<Rightarrow> user \<Rightarrow> org_unit op" where
  "apply_exclusion E unit_id cid excl u =
     bnd (query (\<lambda>d. get_row ou_id unit_id (org_units d))) (\<lambda>row.
     case row of
       None \<Rightarrow> raise (app_err NotFoundError ''CYCLE_001'')
     | Some w \<Rightarrow>
         let before = excluded_for_cycle_ids w; after = toggle_exclusion cid excl before in
         bnd now_utc (\<lambda>now.
           let w' = w\<lparr>excluded_for_cycle_ids := after, ou_updated_at := now\<rparr> in
           sq (update (\<lambda>d. d\<lparr>org_units := upd_row ou_id unit_id (\<lambda>_. w') (org_units d)\<rparr>))
          (sq (commit_audited E FILING_UNIT_EXCLUDED ''org_unit'' (Some unit_id) (Some (user_id u))
                 (JObj [(''cycle_id'', JUuid cid), (''excluded'', JBool excl),
                        (''before'', JArr (map JUuid before)), (''after'', JArr (map JUuid after))]))
              (ret w'))))"

section \<open>What each operation does\<close>

lemma cycle_get_run: "cycle_get cid s =
    ((case get_row cycle_id cid (budget_cycles (cur s)) of
        None \<Rightarrow> Inl (app_err NotFoundError ''CYCLE_001'') | Some c \<Rightarrow> Inr c), s)"
  by (simp add: cycle_get_def act_simps split: option.splits)

lemma assert_transition_run: "assert_transition a b s =
    ((if can_transition a b then Inr () else Inl (app_err ConflictError ''CYCLE_003'')), s)"
  by (simp add: assert_transition_def)

lemma can_transition_simps [simp]:
  "can_transition a open \<longleftrightarrow> a \<noteq> open" "can_transition a closed \<longleftrightarrow> a = open"
  "\<not> can_transition a draft"
  by (cases a; simp add: can_transition_def ALLOWED_def)+

lemma put_cycle_run [act_simps]: "put_cycle c s = (Inr (),
    s\<lparr>cur := (cur s)\<lparr>budget_cycles := upd_row cycle_id (cycle_id c) (\<lambda>_. c) (budget_cycles (cur s))\<rparr>\<rparr>)"
  by (simp add: put_cycle_def act_simps)

definition schedule_rows :: "uuid \<Rightarrow> int list \<Rightarrow> session \<Rightarrow> reminder_schedule list" where
  "schedule_rows cid days s = map2 (\<lambda>i n. \<lparr>rs_id = i, rs_cycle_id = cid, days_before = n,
     rs_created_at = clock s\<rparr>) [uid_next s..<uid_next s + length days] days"

lemma set_reminder_schedule_run: "set_reminder_schedule cid days s =
    (if list_ex (\<lambda>n. n \<le> 0) days then (Inl Value_error, s)
     else let d = (cur s)\<lparr>reminder_schedules :=
                filter (\<lambda>r. rs_cycle_id r \<noteq> cid) (reminder_schedules (cur s)) @ schedule_rows cid days s\<rparr>;
              t = s\<lparr>uid_next := uid_next s + length days\<rparr>
          in if db_ok d then (Inr (schedule_rows cid days s), t\<lparr>cur := d\<rparr>)
             else (Inl Integrity_error, t\<lparr>cur := com s\<rparr>))"
  by (simp add: set_reminder_schedule_def act_simps schedule_rows_def Let_def)

text \<open>The row each operation writes.\<close>

definition opened :: "stamp \<Rightarrow> budget_cycle \<Rightarrow> budget_cycle" where
  "opened t c = c\<lparr>cycle_status := open, opened_at := Some t, updated_at := t\<rparr>"

definition closed_by_user :: "stamp \<Rightarrow> uuid \<Rightarrow> budget_cycle \<Rightarrow> budget_cycle" where
  "closed_by_user t u c = c\<lparr>cycle_status := closed, closed_at := Some t, closed_by := Some u, updated_at := t\<rparr>"

definition reopened :: "stamp \<Rightarrow> pystr \<Rightarrow> budget_cycle \<Rightarrow> budget_cycle" where
  "reopened t reason c = c\<lparr>cycle_status := open, reopen_reason := Some reason,
     reopened_at := Some t, updated_at := t\<rparr>"

text \<open>The schedule the cycle has once it is open, and the identifiers taken for it.\<close>

definition default_schedule :: "uuid \<Rightarrow> session \<Rightarrow> reminder_schedule list" where
  "default_schedule cid s =
     (if \<exists>r \<in> set (reminder_schedules (cur s)). rs_cycle_id r = cid then [] 
      else schedule_rows cid DEFAULT_REMINDER_DAYS s)"

lemma first_row_filter_None: "first_row (filter P xs) = None \<longleftrightarrow> \<not> (\<exists>x \<in> set xs. P x)"
  by (cases "filter P xs") (auto simp: filter_empty_conv filter_eq_Cons_iff)

lemma length_default_schedule:
  "length (default_schedule cid s) =
    (if \<exists>r \<in> set (reminder_schedules (cur s)). rs_cycle_id r = cid then 0 else 3)"
  by (simp add: default_schedule_def schedule_rows_def DEFAULT_REMINDER_DAYS_def)

lemma ensure_schedule_run: "ensure_schedule cid s =
    (let new = default_schedule cid s;
         d = (cur s)\<lparr>reminder_schedules := reminder_schedules (cur s) @ new\<rparr>;
         t = s\<lparr>uid_next := uid_next s + length new\<rparr>
     in if new = [] then (Inr (), s)
        else if db_ok d then (Inr (), t\<lparr>cur := d\<rparr>) else (Inl Integrity_error, t\<lparr>cur := com s\<rparr>))"
proof (cases "\<exists>r \<in> set (reminder_schedules (cur s)). rs_cycle_id r = cid")
  case True
  then show ?thesis
    by (simp add: ensure_schedule_def act_simps first_row_filter_None default_schedule_def)
next
  case False
  then have "filter (\<lambda>r. rs_cycle_id r \<noteq> cid) (reminder_schedules (cur s)) = reminder_schedules (cur s)"
    by (auto simp: filter_id_conv)
  with False show ?thesis
    by (simp add: ensure_schedule_def act_simps first_row_filter_None default_schedule_def Let_def
        set_reminder_schedule_run DEFAULT_REMINDER_DAYS_def schedule_rows_def)
qed

lemma written_fields [simp]:
  "cycle_id (opened t c) = cycle_id c" "cycle_status (opened t c) = open"
  "cycle_id (closed_by_user t w c) = cycle_id c" "cycle_status (closed_by_user t w c) = closed"
  "cycle_id (reopened t x c) = cycle_id c" "cycle_status (reopened t x c) = open"
  by (simp_all add: opened_def closed_by_user_def reopened_def)

lemma cycle_close_run:
  assumes "seq_fresh s"
  shows "cycle_close E cid u s =
    (case get_row cycle_id cid (budget_cycles (cur s)) of
       None \<Rightarrow> (Inl (app_err NotFoundError ''CYCLE_001''), s)
     | Some c \<Rightarrow>
        if cycle_status c \<noteq> open then (Inl (app_err ConflictError ''CYCLE_003''), s)
        else let c' = closed_by_user (clock s) (user_id u) c;
                 t = s\<lparr>cur := (cur s)\<lparr>budget_cycles := upd_row cycle_id (cycle_id c) (\<lambda>_. c') (budget_cycles (cur s))\<rparr>\<rparr>
             in if db_ok (cur t)
                then (Inr c', audited E CYCLE_CLOSE ''cycle'' (Some cid) (Some (user_id u))
                        (JObj [(''fiscal_year'', JInt (fiscal_year c))]) t)
                else (Inl Integrity_error, s\<lparr>cur := com s\<rparr>))"
proof -
  have fresh: "seq_fresh (s\<lparr>cur := (cur s)\<lparr>budget_cycles := x\<rparr>\<rparr>)" for x
    using assms by (simp add: seq_fresh_def)
  show ?thesis
    by (simp add: cycle_close_def act_simps cycle_get_run assert_transition_run closed_by_user_def
        run_commit_audited [OF fresh] Let_def split: option.splits)
qed


definition actionable_infos :: "db \<Rightarrow> uuid \<Rightarrow> filing_unit_info list" where
  "actionable_infos d cid = filter (\<lambda>i. \<not> excluded i) (list_filing_units d cid)"

lemma set_actionable_infos:
  "{i \<in> set (list_filing_units d cid). \<not> excluded i} = set (actionable_infos d cid)"
  by (simp add: actionable_infos_def)

definition actionable_units :: "db \<Rightarrow> uuid \<Rightarrow> org_unit list" where
  "actionable_units d cid =
     order_asc ou_code (filter (\<lambda>w. ou_id w \<in> fu_org_unit_id ` set (actionable_infos d cid)) (org_units d))"

lemma cycle_open_run:
  assumes "seq_fresh s"
  shows "cycle_open E cid u s =
    (case get_row cycle_id cid (budget_cycles (cur s)) of
       None \<Rightarrow> (Inl (app_err NotFoundError ''CYCLE_001''), s)
     | Some c \<Rightarrow>
        if cycle_status c = open then (Inl (app_err ConflictError ''CYCLE_003''), s)
        else if \<exists>i \<in> set (actionable_infos (cur s) cid). \<not> has_manager i
        then (Inl (app_err ConflictError ''CYCLE_002''), s)
        else let c' = opened (clock s) c; new = default_schedule cid s;
                 d = (cur s)\<lparr>budget_cycles := upd_row cycle_id (cycle_id c) (\<lambda>_. c') (budget_cycles (cur s)),
                       reminder_schedules := reminder_schedules (cur s) @ new\<rparr>;
                 t = s\<lparr>uid_next := uid_next s + length new\<rparr>
             in if db_ok d
                then (Inr (c', actionable_units (cur s) cid),
                      audited E CYCLE_OPEN ''cycle'' (Some cid) (Some (user_id u))
                        (JObj [(''fiscal_year'', JInt (fiscal_year c)), (''deadline'', JInt (deadline c)),
                          (''filing_units'', JArr (map (\<lambda>i. JText (fu_code i)) (actionable_infos (cur s) cid)))])
                        (t\<lparr>cur := d\<rparr>))
                else (Inl Integrity_error, t\<lparr>cur := com s\<rparr>))"
proof (cases "get_row cycle_id cid (budget_cycles (cur s))")
  case (Some c)
  have missing: "filter (\<lambda>i. \<not> has_manager i \<and> \<not> excluded i) (list_filing_units (cur s) cid) = []
      \<longleftrightarrow> \<not> (\<exists>i \<in> set (actionable_infos (cur s) cid). \<not> has_manager i)"
    by (auto simp: actionable_infos_def filter_empty_conv)
  have fresh: "seq_fresh (s\<lparr>uid_next := z, cur := (cur s)\<lparr>budget_cycles := x, reminder_schedules := y\<rparr>\<rparr>)"
    "seq_fresh (s\<lparr>cur := (cur s)\<lparr>budget_cycles := x, reminder_schedules := y\<rparr>\<rparr>)"
    "seq_fresh (s\<lparr>cur := (cur s)\<lparr>budget_cycles := x\<rparr>\<rparr>)" for x y z
    using assms by (simp_all add: seq_fresh_def)
  have default: "default_schedule cid (s\<lparr>cur := (cur s)\<lparr>budget_cycles := x\<rparr>\<rparr>) = default_schedule cid s" for x
    by (simp add: default_schedule_def schedule_rows_def)
  let ?s1 = "s\<lparr>cur := (cur s)\<lparr>budget_cycles :=
      upd_row cycle_id (cycle_id c) (\<lambda>_. opened (clock s) c) (budget_cycles (cur s))\<rparr>\<rparr>"
  note base = Some cycle_open_def act_simps cycle_get_run assert_transition_run missing Let_def
    opened_def [symmetric] actionable_infos_def [symmetric] set_actionable_infos
  show ?thesis
  proof (cases "cycle_status c = open \<or> (\<exists>i \<in> set (actionable_infos (cur s) cid). \<not> has_manager i)")
    case True
    then show ?thesis by (auto simp: base)
  next
    case False
    then show ?thesis
      by (cases "default_schedule cid s = []")
        (simp_all add: base ensure_schedule_run default run_commit_audited [OF fresh(1)]
          run_commit_audited [OF fresh(3)] cur_audited actionable_units_def cong: if_cong)
  qed
qed (simp add: cycle_open_def act_simps cycle_get_run)

lemma seq_fresh_change:
  "seq_fresh s \<Longrightarrow> audit_logs d = audit_logs (cur s) \<Longrightarrow> seq_fresh (s\<lparr>uid_next := n, cur := d\<rparr>)"
  "seq_fresh s \<Longrightarrow> audit_logs d = audit_logs (cur s) \<Longrightarrow> seq_fresh (s\<lparr>cur := d\<rparr>)"
  by (simp_all add: seq_fresh_def)

definition active_for :: "int \<Rightarrow> budget_cycle list \<Rightarrow> budget_cycle list" where
  "active_for fy cs = filter (\<lambda>c. fiscal_year c = fy \<and> cycle_status c \<noteq> closed) cs"

definition new_cycle :: "int \<Rightarrow> day \<Rightarrow> pystr \<Rightarrow> user \<Rightarrow> session \<Rightarrow> budget_cycle" where
  "new_cycle fy dl currency u s = \<lparr>cycle_id = uid_next s, fiscal_year = fy, deadline = dl,
     reporting_currency = currency, cycle_status = draft, opened_at = None, closed_at = None,
     closed_by = None, reopen_reason = None, reopened_at = None, created_by = user_id u,
     created_at = clock s, updated_at = clock s\<rparr>"

lemma new_cycle_simps [simp]:
  "cycle_id (new_cycle fy dl x u s) = uid_next s" "cycle_status (new_cycle fy dl x u s) = draft"
  "fiscal_year (new_cycle fy dl x u s) = fy"
  by (simp_all add: new_cycle_def)

lemma cycle_create_run:
  assumes "seq_fresh s"
  shows "cycle_create E fy dl txt u s =
    (case validate_currency txt of Inl e \<Rightarrow> (Inl e, s) | Inr currency \<Rightarrow>
       if active_for fy (budget_cycles (cur s)) \<noteq> [] then (Inl (app_err ConflictError ''CYCLE_001''), s)
       else let c = new_cycle fy dl currency u s;
                d = (cur s)\<lparr>budget_cycles := budget_cycles (cur s) @ [c]\<rparr>;
                t = s\<lparr>uid_next := Suc (uid_next s)\<rparr>
            in if db_ok d
               then (Inr c, audited E CYCLE_CREATE ''cycle'' (Some (uid_next s)) (Some (user_id u))
                       (JObj [(''fiscal_year'', JInt fy), (''deadline'', JInt dl),
                              (''reporting_currency'', JText currency)]) (t\<lparr>cur := d\<rparr>))
               else (Inl Integrity_error, t\<lparr>cur := com s\<rparr>))"
proof -
  have none: "first_row xs = None \<longleftrightarrow> xs = []" for xs :: "budget_cycle list" by (cases xs) simp_all
  show ?thesis
    by (simp add: cycle_create_def act_simps none active_for_def [symmetric] new_cycle_def
        run_commit_audited seq_fresh_change [OF assms] Let_def split: sum.splits)
qed

lemma cycle_reopen_run:
  assumes "seq_fresh s"
  shows "cycle_reopen E cid reason u s =
    (if SystemAdmin \<notin> set (role_set u) then (Inl (app_err AppError ''RBAC_001''), s)
     else case get_row cycle_id cid (budget_cycles (cur s)) of
       None \<Rightarrow> (Inl (app_err NotFoundError ''CYCLE_001''), s)
     | Some c \<Rightarrow>
        if cycle_status c = open then (Inl (app_err ConflictError ''CYCLE_003''), s)
        else case closed_at c of
          None \<Rightarrow> (Inl (app_err AppError ''CYCLE_005''), s)
        | Some since \<Rightarrow>
           if days_between (clock s) since > reopen_window_days (cfg E)
           then (Inl (app_err AppError ''CYCLE_005''), s)
           else let c' = reopened (clock s) reason c;
                    d = (cur s)\<lparr>budget_cycles := upd_row cycle_id (cycle_id c) (\<lambda>_. c') (budget_cycles (cur s))\<rparr>
                in if db_ok d
                   then (Inr c', audited E CYCLE_REOPEN ''cycle'' (Some cid) (Some (user_id u))
                          (JObj [(''reason'', JText reason),
                                 (''elapsed_days'', JInt (days_between (clock s) since))]) (s\<lparr>cur := d\<rparr>))
                   else (Inl Integrity_error, s\<lparr>cur := com s\<rparr>))"
proof (cases "SystemAdmin \<in> set (role_set u)")
  case admin: True
  show ?thesis
  proof (cases "get_row cycle_id cid (budget_cycles (cur s))")
    case (Some c)
    then show ?thesis
      by (cases "closed_at c")
        (auto simp: admin cycle_reopen_def act_simps cycle_get_run assert_transition_run Let_def
          reopened_def [symmetric] run_commit_audited seq_fresh_change [OF assms])
  qed (simp add: admin cycle_reopen_def act_simps cycle_get_run)
qed (simp add: cycle_reopen_def act_simps)

lemma cycle_set_reminder_schedule_run:
  assumes "seq_fresh s"
  shows "cycle_set_reminder_schedule E cid days u s =
    (if list_ex (\<lambda>n. n \<le> 0) days then (Inl Value_error, s)
     else let d = (cur s)\<lparr>reminder_schedules :=
                filter (\<lambda>r. rs_cycle_id r \<noteq> cid) (reminder_schedules (cur s)) @ schedule_rows cid days s\<rparr>;
              t = s\<lparr>uid_next := uid_next s + length days\<rparr>
          in if db_ok d
             then (Inr (schedule_rows cid days s),
                   audited E CYCLE_REMINDER_SET ''cycle'' (Some cid) (Some (user_id u))
                     (JObj [(''days_before'', JArr (map JInt days))]) (t\<lparr>cur := d\<rparr>))
             else (Inl Integrity_error, t\<lparr>cur := com s\<rparr>))"
  by (simp add: cycle_set_reminder_schedule_def act_simps set_reminder_schedule_run
      run_commit_audited seq_fresh_change [OF assms] Let_def)

lemma apply_exclusion_run:
  assumes "seq_fresh s"
  shows "apply_exclusion E wid cid excl u s =
    (case get_row ou_id wid (org_units (cur s)) of
       None \<Rightarrow> (Inl (app_err NotFoundError ''CYCLE_001''), s)
     | Some w \<Rightarrow>
        let after = toggle_exclusion cid excl (excluded_for_cycle_ids w);
            w' = w\<lparr>excluded_for_cycle_ids := after, ou_updated_at := clock s\<rparr>;
            d = (cur s)\<lparr>org_units := upd_row ou_id wid (\<lambda>_. w') (org_units (cur s))\<rparr>
        in if db_ok d
           then (Inr w', audited E FILING_UNIT_EXCLUDED ''org_unit'' (Some wid) (Some (user_id u))
                  (JObj [(''cycle_id'', JUuid cid), (''excluded'', JBool excl),
                        (''before'', JArr (map JUuid (excluded_for_cycle_ids w))),
                        (''after'', JArr (map JUuid after))]) (s\<lparr>cur := d\<rparr>))
           else (Inl Integrity_error, s\<lparr>cur := com s\<rparr>))"
  by (simp add: apply_exclusion_def act_simps run_commit_audited seq_fresh_change [OF assms] Let_def
      split: option.splits)

section \<open>The life of a cycle\<close>

text \<open>
  The abstract specification: the moves a cycle's row may make, and what may happen to the
  table of cycles in one request.
\<close>

inductive lifecycle :: "env \<Rightarrow> budget_cycle \<Rightarrow> budget_cycle \<Rightarrow> bool" for E where
  opens: "cycle_status c \<noteq> open \<Longrightarrow> lifecycle E c (opened t c)"
| closes: "cycle_status c = open \<Longrightarrow> lifecycle E c (closed_by_user t w c)"
| reopens: "cycle_status c \<noteq> open \<Longrightarrow> closed_at c = Some since \<Longrightarrow>
    days_between t since \<le> reopen_window_days (cfg E) \<Longrightarrow> lifecycle E c (reopened t reason c)"

inductive_cases lifecycleE: "lifecycle E c c'"

inductive table_step :: "env \<Rightarrow> budget_cycle list \<Rightarrow> budget_cycle list \<Rightarrow> bool" for E where
  same: "table_step E cs cs"
| created: "cycle_status c = draft \<Longrightarrow> opened_at c = None \<Longrightarrow> closed_at c = None \<Longrightarrow>
    reopened_at c = None \<Longrightarrow> table_step E cs (cs @ [c])"
| moved: "get_row cycle_id cid cs = Some c \<Longrightarrow> lifecycle E c c' \<Longrightarrow>
    table_step E cs (upd_row cycle_id (cycle_id c) (\<lambda>_. c') cs)"

inductive_cases table_stepE: "table_step E cs cs'"

datatype cycle_request = Create int day pystr user | Open uuid user | Close uuid user
  | Reopen uuid pystr user | Set_reminders uuid "int list" user | Set_exclusion uuid uuid bool user

fun run_cycle_request :: "env \<Rightarrow> cycle_request \<Rightarrow> unit op" where
  "run_cycle_request E (Create fy dl txt u) = bnd (cycle_create E fy dl txt u) (\<lambda>_. ret ())"
| "run_cycle_request E (Open cid u) = bnd (cycle_open E cid u) (\<lambda>_. ret ())"
| "run_cycle_request E (Close cid u) = bnd (cycle_close E cid u) (\<lambda>_. ret ())"
| "run_cycle_request E (Reopen cid reason u) = bnd (cycle_reopen E cid reason u) (\<lambda>_. ret ())"
| "run_cycle_request E (Set_reminders cid days u) = bnd (cycle_set_reminder_schedule E cid days u) (\<lambda>_. ret ())"
| "run_cycle_request E (Set_exclusion wid cid excl u) = bnd (apply_exclusion E wid cid excl u) (\<lambda>_. ret ())"

lemma snd_bnd_ret: "snd (bnd m (\<lambda>_. ret x) s) = snd (m s)"
  by (auto simp: bnd_def split: prod.splits sum.splits)

lemma request_table_step:
  assumes "seq_fresh s" "cur s = com s"
  shows "table_step E (budget_cycles (com s)) (budget_cycles (com (snd (run_cycle_request E r s))))"
proof (cases r)
  case (Create fy dl x u)
  then show ?thesis
    using assms by (auto simp: snd_bnd_ret cycle_create_run Let_def new_cycle_def
        split: sum.splits intro: same created)
next
  case (Open cid u)
  then show ?thesis
    using assms by (auto simp: snd_bnd_ret cycle_open_run Let_def
        split: option.splits intro: same moved opens)
next
  case (Close cid u)
  then show ?thesis
    using assms by (auto simp: snd_bnd_ret cycle_close_run Let_def
        split: option.splits intro: same moved closes)
next
  case (Reopen cid reason u)
  then show ?thesis
    using assms by (auto simp: snd_bnd_ret cycle_reopen_run Let_def not_less
        split: option.splits intro: same moved reopens)
next
  case (Set_reminders cid days u)
  then show ?thesis
    using assms by (auto simp: snd_bnd_ret cycle_set_reminder_schedule_run Let_def intro: same)
next
  case (Set_exclusion wid cid excl u)
  then show ?thesis
    using assms by (auto simp: snd_bnd_ret apply_exclusion_run Let_def split: option.splits intro: same)
qed

text \<open>A request in its own session at its own time, and a history of requests.\<close>

definition cycle_request_at :: "env \<Rightarrow> stamp \<times> cycle_request \<Rightarrow> session \<Rightarrow> session" where
  "cycle_request_at E tr s = snd (get_session (run_cycle_request E (snd tr)) (s\<lparr>clock := fst tr\<rparr>))"

definition cycle_history :: "env \<Rightarrow> (stamp \<times> cycle_request) list \<Rightarrow> session \<Rightarrow> session" where
  "cycle_history E h s = fold (cycle_request_at E) h s"

definition cycle_wf :: "budget_cycle \<Rightarrow> bool" where
  "cycle_wf c \<longleftrightarrow> (case cycle_status c of
      draft \<Rightarrow> opened_at c = None \<and> closed_at c = None \<and> reopened_at c = None
    | open \<Rightarrow> opened_at c \<noteq> None
    | closed \<Rightarrow> opened_at c \<noteq> None \<and> closed_at c \<noteq> None \<and> closed_by c \<noteq> None)"

definition cycles_inv :: "env \<Rightarrow> session \<Rightarrow> bool" where
  "cycles_inv E s \<longleftrightarrow> store_inv E s \<and> list_all cycle_wf (budget_cycles (com s))"

lemma lifecycle_wf: "lifecycle E c c' \<Longrightarrow> cycle_wf c \<Longrightarrow> cycle_wf c'"
  by (erule lifecycleE; cases "cycle_status c")
    (auto simp: cycle_wf_def opened_def closed_by_user_def reopened_def)

lemma table_step_wf: "table_step E cs cs' \<Longrightarrow> list_all cycle_wf cs \<Longrightarrow> list_all cycle_wf cs'"
  by (erule table_stepE)
    (auto simp: list_all_iff cycle_wf_def upd_row_def dest: get_row_Some lifecycle_wf
      intro: lifecycle_wf [unfolded cycle_wf_def])

lemma lifecycle_fixed: "lifecycle E c c' \<Longrightarrow> cycle_id c' = cycle_id c \<and> fiscal_year c' = fiscal_year c \<and>
    deadline c' = deadline c \<and> reporting_currency c' = reporting_currency c \<and>
    created_by c' = created_by c \<and> created_at c' = created_at c \<and> cycle_status c' \<noteq> draft \<and>
    (cycle_status c, cycle_status c') \<in> set ALLOWED"
  by (erule lifecycleE; cases "cycle_status c")
    (auto simp: opened_def closed_by_user_def reopened_def ALLOWED_def)

lemma table_step_row:
  assumes "table_step E cs cs'" "get_row cycle_id cid cs = Some c"
  shows "\<exists>c'. get_row cycle_id cid cs' = Some c' \<and> (c' = c \<or> lifecycle E c c')"
  using assms
proof (cases rule: table_step.cases)
  case (moved cid0 c0 c1)
  then have id: "cycle_id c0 = cid0" "cycle_id c1 = cycle_id c0" "cycle_id c = cid"
    using assms(2) by (auto dest: get_row_Some lifecycle_fixed)
  have "get_row cycle_id cid (upd_row cycle_id k (\<lambda>_. c1) cs) =
      (if cid = k then map_option (\<lambda>_. c1) (get_row cycle_id cid cs) else get_row cycle_id cid cs)"
    if "cycle_id c1 = k" for k
    using that by (induction cs) (auto simp: get_row_def upd_row_def)
  with moved id assms(2) show ?thesis by (cases "cid = cid0") auto
qed (use assms(2) in \<open>auto simp: get_row_append\<close>)

context audited_inv
begin

lemma kept_cycle_ops [preserves_intros]:
  "preserves P (cycle_get cid)"
  "preserves P (assert_transition a b)"
  "preserves P (put_cycle c)"
  "preserves P (set_reminder_schedule cid days)"
  unfolding cycle_get_def assert_transition_def put_cycle_def set_reminder_schedule_def
  by (intro preserves_intros; simp)+

lemma kept_ensure_schedule [preserves_intros]: "preserves P (ensure_schedule cid)"
  unfolding ensure_schedule_def by (intro preserves_intros)

lemma kept_cycle_services [preserves_intros]:
  "preserves P (cycle_create E fy dl x u)"
  "preserves P (cycle_open E cid u)"
  "preserves P (cycle_close E cid u)"
  "preserves P (cycle_reopen E cid reason u)"
  "preserves P (cycle_set_reminder_schedule E cid days u)"
  "preserves P (apply_exclusion E wid cid excl u)"
  unfolding cycle_create_def cycle_open_def cycle_close_def cycle_reopen_def
    cycle_set_reminder_schedule_def apply_exclusion_def
  by (intro preserves_intros; simp)+

lemma kept_cycle_request [preserves_intros]: "preserves P (run_cycle_request E r)"
  by (cases r) (simp_all, (intro preserves_intros)+)

end

lemma request_at:
  assumes "cycles_inv E s"
  shows "cycles_inv E (cycle_request_at E tr s)"
    and "table_step E (budget_cycles (com s)) (budget_cycles (com (cycle_request_at E tr s)))"
proof -
  let ?s = "s\<lparr>clock := fst tr, cur := com s\<rparr>"
  have inv: "store_inv E (s\<lparr>clock := fst tr\<rparr>)" using assms by (simp add: cycles_inv_def)
  have "seq_fresh ?s" using assms by (intro seq_fresh_rebase [of E]) (simp add: cycles_inv_def)
  then have "table_step E (budget_cycles (com ?s)) (budget_cycles (com (snd (run_cycle_request E (snd tr) ?s))))"
    by (rule request_table_step) simp
  then show step: "table_step E (budget_cycles (com s)) (budget_cycles (com (cycle_request_at E tr s)))"
    by (simp add: cycle_request_at_def snd_get_session)
  have "store_inv E (cycle_request_at E tr s)"
    unfolding cycle_request_at_def by (rule store_inv_run [OF _ inv]) (intro preserves_intros)
  then show "cycles_inv E (cycle_request_at E tr s)"
    using assms table_step_wf [OF step] by (simp add: cycles_inv_def)
qed

lemma cycle_history_simps [simp]:
  "cycle_history E [] s = s"
  "cycle_history E (tr # h) s = cycle_history E h (cycle_request_at E tr s)"
  by (simp_all add: cycle_history_def)

lemma history_inv: "cycles_inv E s \<Longrightarrow> cycles_inv E (cycle_history E h s)"
  by (induction h arbitrary: s) (simp_all add: request_at)

lemma history_row:
  assumes "cycles_inv E s" "get_row cycle_id cid (budget_cycles (com s)) = Some c"
  shows "\<exists>c'. get_row cycle_id cid (budget_cycles (com (cycle_history E h s))) = Some c' \<and> (lifecycle E)\<^sup>*\<^sup>* c c'"
  using assms
proof (induction h arbitrary: s c)
  case (Cons tr h)
  from table_step_row [OF request_at(2) [OF Cons.prems(1), of tr] Cons.prems(2)]
  obtain c1 where c1: "get_row cycle_id cid (budget_cycles (com (cycle_request_at E tr s))) = Some c1"
    "c1 = c \<or> lifecycle E c c1" by blast
  from Cons.IH [OF request_at(1) [OF Cons.prems(1)] c1(1)] c1(2) show ?case
    by (auto intro: converse_rtranclp_into_rtranclp)
qed auto

lemma lifecycles_fixed: "(lifecycle E)\<^sup>*\<^sup>* c c' \<Longrightarrow> cycle_id c' = cycle_id c \<and> fiscal_year c' = fiscal_year c \<and>
    deadline c' = deadline c \<and> reporting_currency c' = reporting_currency c \<and>
    created_by c' = created_by c \<and> created_at c' = created_at c \<and>
    (cycle_status c \<noteq> draft \<longrightarrow> cycle_status c' \<noteq> draft)"
  by (induction rule: rtranclp_induct) (auto dest: lifecycle_fixed)

text \<open>The action a request is recorded under, and who made it.\<close>

fun request_action :: "cycle_request \<Rightarrow> audit_action" where
  "request_action (Create fy dl x u) = CYCLE_CREATE"
| "request_action (Open cid u) = CYCLE_OPEN"
| "request_action (Close cid u) = CYCLE_CLOSE"
| "request_action (Reopen cid reason u) = CYCLE_REOPEN"
| "request_action (Set_reminders cid days u) = CYCLE_REMINDER_SET"
| "request_action (Set_exclusion wid cid excl u) = FILING_UNIT_EXCLUDED"

fun request_user :: "cycle_request \<Rightarrow> user" where
  "request_user (Create fy dl x u) = u"
| "request_user (Open cid u) = u"
| "request_user (Close cid u) = u"
| "request_user (Reopen cid reason u) = u"
| "request_user (Set_reminders cid days u) = u"
| "request_user (Set_exclusion wid cid excl u) = u"

definition all_or_recorded :: "audit_action \<Rightarrow> user \<Rightarrow> session \<Rightarrow> (exn + unit) \<times> session \<Rightarrow> bool" where
  "all_or_recorded act u s rt \<longleftrightarrow> (case fst rt of
      Inl e \<Rightarrow> com (snd rt) = com s
    | Inr _ \<Rightarrow> \<exists>row. audit_logs (com (snd rt)) = audit_logs (com s) @ [row]
         \<and> action row = act \<and> al_user_id row = Some (user_id u))"

lemma request_recorded:
  assumes "seq_fresh s" "cur s = com s"
  shows "all_or_recorded (request_action r) (request_user r) s (run_cycle_request E r s)"
proof (cases r)
  case (Create fy dl x u)
  with assms show ?thesis
    by (simp add: all_or_recorded_def act_simps cycle_create_run cur_audited Let_def split: sum.splits)
next
  case (Open cid u)
  with assms show ?thesis
    by (simp add: all_or_recorded_def act_simps cycle_open_run cur_audited Let_def split: option.splits)
next
  case (Close cid u)
  with assms show ?thesis
    by (simp add: all_or_recorded_def act_simps cycle_close_run cur_audited Let_def split: option.splits)
next
  case (Reopen cid reason u)
  with assms show ?thesis
    by (simp add: all_or_recorded_def act_simps cycle_reopen_run cur_audited Let_def split: option.splits)
next
  case (Set_reminders cid days u)
  with assms show ?thesis
    by (simp add: all_or_recorded_def act_simps cycle_set_reminder_schedule_run cur_audited Let_def)
next
  case (Set_exclusion wid cid excl u)
  with assms show ?thesis
    by (simp add: all_or_recorded_def act_simps apply_exclusion_run cur_audited Let_def split: option.splits)
qed

lemma all_or_recorded_session:
  "all_or_recorded act u (s\<lparr>cur := com s\<rparr>) (m (s\<lparr>cur := com s\<rparr>)) \<Longrightarrow> all_or_recorded act u s (get_session m s)"
  by (auto simp: all_or_recorded_def fst_get_session snd_get_session split: sum.splits exn.splits)

section \<open>Samples\<close>

definition cycle0 :: budget_cycle where
  "cycle0 = \<lparr>cycle_id = 7, fiscal_year = 2026, deadline = 739000, reporting_currency = str ''TWD'',
     cycle_status = closed, opened_at = Some 0, closed_at = Some 1, closed_by = Some 51,
     reopen_reason = None, reopened_at = None, created_by = 51, created_at = 0, updated_at = 1\<rparr>"

definition cycle_db :: db where
  "cycle_db = org_db\<lparr>budget_cycles := [cycle0]\<rparr>"

lemma cycle_db_ok: "db_ok cycle_db"
  using org_db_ok by (simp add: db_ok_def cycle_db_def cycles_ok_def)

lemma cycle_db_inv: "cycles_inv env0 (session_of cycle_db)"
  using cycle_db_ok
  by (simp add: cycles_inv_def store_inv_def chain_inv_def log_ok_def cycle_db_def org_db_def
      cycle_wf_def cycle0_def)

definition history0 :: "(stamp \<times> cycle_request) list" where
  "history0 = [(10, Open 7 admin0), (20, Close 7 admin0), (30, Create 2026 739100 (str '' twd'') admin0),
     (40, Reopen 7 (str ''late'') admin0)]"

section \<open>Properties\<close>

text \<open>
  Claim C1: every history of requests, successful and refused, refines the life cycle. A
  committed cycle is still there afterwards, and its row is reached from the old one by
  moves of \<open>lifecycle\<close> only: open from draft or closed, close from open, reopen inside the
  window. Its year, deadline, currency and creator never change, and it never becomes a
  draft again.
\<close>

theorem cycle_history_refines:
  assumes "cycles_inv E s" and "get_row cycle_id cid (budget_cycles (com s)) = Some c"
  shows "\<exists>c'. get_row cycle_id cid (budget_cycles (com (cycle_history E h s))) = Some c' \<and>
    (lifecycle E)\<^sup>*\<^sup>* c c' \<and> fiscal_year c' = fiscal_year c \<and> deadline c' = deadline c \<and>
    reporting_currency c' = reporting_currency c \<and> created_by c' = created_by c \<and>
    (cycle_status c \<noteq> draft \<longrightarrow> cycle_status c' \<noteq> draft)"
proof -
  from history_row [OF assms] obtain c' where
    "get_row cycle_id cid (budget_cycles (com (cycle_history E h s))) = Some c'" "(lifecycle E)\<^sup>*\<^sup>* c c'"
    by blast
  with lifecycles_fixed [OF this(2)] show ?thesis by auto
qed

lemma cycle_history_refines_witness:
  "\<exists>c'. get_row cycle_id 7 (budget_cycles (com (cycle_history env0 history0 (session_of cycle_db)))) = Some c' \<and>
    (lifecycle env0)\<^sup>*\<^sup>* cycle0 c' \<and> cycle_status c' \<noteq> draft"
  using cycle_history_refines [OF cycle_db_inv, of 7 cycle0 history0]
  by (auto simp: cycle_db_def cycle0_def get_row_def)

text \<open>
  Claim C3: what holds of the committed tables after any history of requests: every cycle is
  well formed (an open one has been opened, a closed one carries who closed it and when), no
  two cycles of one fiscal year are both draft or open, and full verification of the audit
  log succeeds.
\<close>

theorem cycle_history_safe:
  assumes "cycles_inv E s"
  shows "let t = cycle_history E h s; cs = budget_cycles (com t) in
    (\<forall>c \<in> set cs. cycle_wf c) \<and>
    (\<forall>c \<in> set cs. \<forall>c' \<in> set cs. fiscal_year c = fiscal_year c' \<and> cycle_status c \<noteq> closed
        \<and> cycle_status c' \<noteq> closed \<longrightarrow> c = c') \<and>
    fst (verify_chain E None None (t\<lparr>cur := com t\<rparr>)) = Inr \<lparr>verified = True, range_start = None,
        range_end = None, chain_length = length (audit_logs (com t))\<rparr>"
proof -
  let ?t = "cycle_history E h s"
  from history_inv [OF assms] have inv: "store_inv E ?t" "list_all cycle_wf (budget_cycles (com ?t))"
    by (auto simp: cycles_inv_def)
  then have "distinct (map fiscal_year (filter (\<lambda>c. cycle_status c \<in> {draft, open}) (budget_cycles (com ?t))))"
    by (simp add: store_inv_def db_ok_def cycles_ok_def)
  then have one: "c = c'" if "c \<in> set (budget_cycles (com ?t))" "c' \<in> set (budget_cycles (com ?t))"
    "fiscal_year c = fiscal_year c'" "cycle_status c \<noteq> closed" "cycle_status c' \<noteq> closed" for c c'
    using that by (cases "cycle_status c"; cases "cycle_status c'") (auto simp: distinct_map dest!: inj_onD)
  show ?thesis
    using inv(2) verify_committed [OF inv(1)] by (auto simp: Let_def list_all_iff intro: one)
qed

lemma cycle_history_safe_witness:
  "list_all cycle_wf (budget_cycles (com (cycle_history env0 history0 (session_of cycle_db))))"
  using cycle_history_safe [OF cycle_db_inv, of history0] by (simp add: Let_def list_all_iff)

text \<open>
  Claim C5: every request is all or nothing, and recorded. If it is refused, whatever the
  reason, the committed database is the one before; if it succeeds, the committed audit log
  has grown by exactly one row, of the request's action and by the request's user.
\<close>

theorem cycle_request_recorded:
  assumes "store_inv E s"
  shows "all_or_recorded (request_action r) (request_user r) s (get_session (run_cycle_request E r) s)"
  using seq_fresh_rebase(2) [OF assms] by (intro all_or_recorded_session request_recorded) simp_all

lemma cycle_request_recorded_witness:
  "all_or_recorded CYCLE_REOPEN admin0 (session_of cycle_db)
     (get_session (run_cycle_request env0 (Reopen 7 [] admin0)) (session_of cycle_db))"
  using cycle_request_recorded [of env0 "session_of cycle_db" "Reopen 7 [] admin0"] cycle_db_inv
  by (simp add: cycles_inv_def)

text \<open>
  Claim C28: the gate of \<open>open\<close>. When a cycle opens, every filing unit that is not the root and
  not excluded from this cycle has an active user with a managing role of its own; the units
  returned are exactly those filing units; the cycle has a reminder schedule, the default
  one of 7, 3 and 1 days if it had none.
\<close>

theorem cycle_open_gate:
  assumes "seq_fresh s" and "fst (cycle_open E cid u s) = Inr (c', units)"
  shows "(\<forall>w. w \<in> set units \<longleftrightarrow> w \<in> set (org_units (cur s)) \<and>
      (\<exists>v \<in> set (org_units (cur s)). ou_id v = ou_id w \<and> is_filing_unit v \<and> level_code v \<noteq> str ''0000''
         \<and> cid \<notin> set (excluded_for_cycle_ids v))) \<and>
    (\<forall>w \<in> set units. \<exists>m \<in> set (users (cur s)). is_active m \<and> user_org_unit_id m = Some (ou_id w)
       \<and> set (role_set m) \<inter> {FilingUnitManager, UplineReviewer, FinanceAdmin, SystemAdmin} \<noteq> {}) \<and>
    (\<exists>r \<in> set (reminder_schedules (com (snd (cycle_open E cid u s)))). rs_cycle_id r = cid)"
proof -
  from assms obtain c where c: "get_row cycle_id cid (budget_cycles (cur s)) = Some c"
    and mgr: "\<forall>i \<in> set (actionable_infos (cur s) cid). has_manager i"
    and units: "units = actionable_units (cur s) cid"
    and sched: "reminder_schedules (com (snd (cycle_open E cid u s))) = reminder_schedules (cur s) @ default_schedule cid s"
    by (auto simp: cycle_open_run Let_def cur_audited split: option.splits if_splits)
  have ids: "(i \<in> fu_org_unit_id ` set (actionable_infos (cur s) cid)) \<longleftrightarrow>
      (\<exists>v \<in> set (org_units (cur s)). ou_id v = i \<and> is_filing_unit v \<and> level_code v \<noteq> str ''0000''
         \<and> cid \<notin> set (excluded_for_cycle_ids v))" for i
    by (force simp: actionable_infos_def list_filing_units_def Let_def)
  have manager: "\<exists>m \<in> set (users (cur s)). is_active m \<and> user_org_unit_id m = Some i
       \<and> set (role_set m) \<inter> {FilingUnitManager, UplineReviewer, FinanceAdmin, SystemAdmin} \<noteq> {}"
    if "i \<in> fu_org_unit_id ` set (actionable_infos (cur s) cid)" for i
    using that mgr
    by (fastforce simp: actionable_infos_def list_filing_units_def has_manager_role_def MANAGER_ROLES_def
        set_role_set Let_def)
  have "\<exists>r \<in> set (reminder_schedules (cur s) @ default_schedule cid s). rs_cycle_id r = cid"
    by (auto simp: default_schedule_def schedule_rows_def DEFAULT_REMINDER_DAYS_def upt_conv_Cons)
  then show ?thesis
    using ids manager by (auto simp: units actionable_units_def sched)
qed

lemma cycle_open_cycle0:
  "cycle_open env0 7 manager0 (session_of cycle_db) =
     (Inr (opened 86400000000 cycle0, [unit1]), snd (cycle_open env0 7 manager0 (session_of cycle_db)))"
proof -
  have fresh: "seq_fresh (session_of cycle_db)"
    by (simp add: seq_fresh_def cycle_db_def org_db_def)
  have row: "get_row cycle_id 7 (budget_cycles cycle_db) = Some cycle0"
    by (simp add: cycle_db_def get_row_def cycle0_def)
  have infos: "list_filing_units cycle_db 7 = [\<lparr>fu_org_unit_id = 2, fu_code = str ''4023'',
      fu_name = str ''Sales'', has_manager = True, excluded = False, fu_warnings = []\<rparr>]"
    by (simp add: list_filing_units_def Let_def cycle_db_def org_db_def unit0_def unit1_def
        manager0_def admin0_def has_manager_role_def MANAGER_ROLES_def order_asc_def)
  have act: "actionable_infos cycle_db 7 = list_filing_units cycle_db 7" "actionable_units cycle_db 7 = [unit1]"
    by (simp_all add: actionable_infos_def actionable_units_def infos order_asc_def)
      (simp add: cycle_db_def org_db_def unit0_def unit1_def)
  have ok: "db_ok (cycle_db\<lparr>budget_cycles := upd_row cycle_id 7 (\<lambda>_. opened 86400000000 cycle0) (budget_cycles cycle_db),
      reminder_schedules := reminder_schedules cycle_db @ default_schedule 7 (session_of cycle_db)\<rparr>)"
    using cycle_db_ok
    by (simp add: db_ok_def cycles_ok_def schedules_ok_def default_schedule_def schedule_rows_def
        DEFAULT_REMINDER_DAYS_def upt_conv_Cons cycle_db_def org_db_def upd_row_def cycle0_def opened_def)
  have "cycle_status cycle0 = closed" "cycle_id cycle0 = 7" by (simp_all add: cycle0_def)
  with ok show ?thesis
    by (simp add: cycle_open_run [OF fresh] row act infos Let_def)
qed

lemma cycle_open_gate_witness:
  "fst (cycle_open env0 7 manager0 (session_of cycle_db)) = Inr (opened 86400000000 cycle0, [unit1]) \<and>
   (\<exists>m \<in> set (users cycle_db). user_org_unit_id m = Some 2)"
proof -
  have fresh: "seq_fresh (session_of cycle_db)"
    by (simp add: seq_fresh_def cycle_db_def org_db_def)
  have run: "fst (cycle_open env0 7 manager0 (session_of cycle_db)) = Inr (opened 86400000000 cycle0, [unit1])"
    by (subst cycle_open_cycle0) simp
  show ?thesis
    using cycle_open_gate [OF fresh run] run by (auto simp: unit1_def)
qed

text \<open>
  Claim C29: the gate of \<open>reopen\<close>, branch by branch. It succeeds exactly for a system
  administrator, on a cycle that is not open and has been closed at most the configured
  number of whole days ago, provided the database accepts the change; the first failing
  test decides the error.
\<close>

theorem cycle_reopen_gate:
  assumes "seq_fresh s"
  shows "fst (cycle_reopen E cid reason u s) =
    (if SystemAdmin \<notin> set (role_set u) then Inl (app_err AppError ''RBAC_001'')
     else case get_row cycle_id cid (budget_cycles (cur s)) of
       None \<Rightarrow> Inl (app_err NotFoundError ''CYCLE_001'')
     | Some c \<Rightarrow>
        if cycle_status c = open then Inl (app_err ConflictError ''CYCLE_003'')
        else case closed_at c of
          None \<Rightarrow> Inl (app_err AppError ''CYCLE_005'')
        | Some since \<Rightarrow>
            if clock s \<ge> since + (reopen_window_days (cfg E) + 1) * 86400000000
            then Inl (app_err AppError ''CYCLE_005'')
            else if db_ok ((cur s)\<lparr>budget_cycles :=
                   upd_row cycle_id cid (\<lambda>_. reopened (clock s) reason c) (budget_cycles (cur s))\<rparr>)
            then Inr (reopened (clock s) reason c) else Inl Integrity_error)"
proof -
  have window: "days_between a b > w \<longleftrightarrow> b + (w + 1) * 86400000000 \<le> a" for a b w
  proof -
    have "w < x div m \<longleftrightarrow> (w + 1) * m \<le> x" if m: "0 < m" for x m :: int
    proof
      assume "w < x div m"
      then have "(w + 1) * m \<le> (x div m) * m" using m by (intro mult_right_mono) simp_all
      also have "\<dots> \<le> x"
        using div_mult_mod_eq [of x m] pos_mod_sign [OF m, of x] by linarith
      finally show "(w + 1) * m \<le> x" .
    next
      assume "(w + 1) * m \<le> x"
      then have "(w + 1) * m div m \<le> x div m" using m by (rule zdiv_mono1)
      then show "w < x div m" using m by simp
    qed
    from this [of 86400000000 "a - b"] show ?thesis
      by (simp add: days_between_def algebra_simps)
  qed
  show ?thesis
  proof (cases "get_row cycle_id cid (budget_cycles (cur s))")
    case (Some c)
    then have "cycle_id c = cid" by (auto dest: get_row_Some)
    with Some show ?thesis
      by (cases "closed_at c") (simp_all add: cycle_reopen_run [OF assms] window Let_def)
  qed (simp add: cycle_reopen_run [OF assms])
qed

lemma cycle_reopen_gate_witness:
  "fst (cycle_reopen env0 7 [] manager0 (session_of cycle_db)) = Inl (app_err AppError ''RBAC_001'') \<and>
   fst (cycle_reopen env0 8 [] admin0 (session_of cycle_db)) = Inl (app_err NotFoundError ''CYCLE_001'')"
proof -
  have fresh: "seq_fresh (session_of cycle_db)"
    by (simp add: seq_fresh_def cycle_db_def org_db_def)
  show ?thesis
    by (simp add: cycle_reopen_gate [OF fresh]) (simp add: get_row_def cycle_db_def cycle0_def)
qed

text \<open>
  \<open>open\<close> is a way around the reopen window. On a closed cycle, however long ago it
  was closed and whatever the caller's roles, \<open>open\<close> succeeds and returns the cycle to open
  as soon as no filing unit lacks a manager and the database accepts the rows.
\<close>

theorem closed_cycle_opens_again:
  assumes "seq_fresh s" and "get_row cycle_id cid (budget_cycles (cur s)) = Some c"
    and "cycle_status c = closed" and "list_all has_manager (actionable_infos (cur s) cid)"
    and "db_ok ((cur s)\<lparr>budget_cycles := upd_row cycle_id cid (\<lambda>_. opened (clock s) c) (budget_cycles (cur s)),
            reminder_schedules := reminder_schedules (cur s) @ default_schedule cid s\<rparr>)"
  shows "fst (cycle_open E cid u s) = Inr (opened (clock s) c, actionable_units (cur s) cid)"
  using assms by (auto simp: cycle_open_run Let_def list_all_iff dest: get_row_Some)

lemma closed_cycle_opens_again_witness:
  "\<exists>c us. cycle_status cycle0 = closed \<and> fst (cycle_open env0 7 manager0 ((session_of cycle_db)\<lparr>clock := 10 ^ 18\<rparr>))
     = Inr (c, us) \<and> cycle_status c = open"
proof -
  let ?s = "(session_of cycle_db)\<lparr>clock := 10 ^ 18\<rparr>"
  have fresh: "seq_fresh ?s" by (simp add: seq_fresh_def cycle_db_def org_db_def)
  have row: "get_row cycle_id 7 (budget_cycles (cur ?s)) = Some cycle0"
    by (simp add: cycle_db_def get_row_def cycle0_def)
  have st: "cycle_status cycle0 = closed" by (simp add: cycle0_def)
  have mgr: "list_all has_manager (actionable_infos (cur ?s) 7)"
    by (simp add: actionable_infos_def list_filing_units_def Let_def cycle_db_def org_db_def unit0_def
        unit1_def manager0_def admin0_def has_manager_role_def MANAGER_ROLES_def order_asc_def)
  have ok: "db_ok ((cur ?s)\<lparr>budget_cycles := upd_row cycle_id 7 (\<lambda>_. opened (clock ?s) cycle0) (budget_cycles (cur ?s)),
      reminder_schedules := reminder_schedules (cur ?s) @ default_schedule 7 ?s\<rparr>)"
    using cycle_db_ok
    by (simp add: db_ok_def cycles_ok_def schedules_ok_def default_schedule_def schedule_rows_def
        DEFAULT_REMINDER_DAYS_def upt_conv_Cons cycle_db_def org_db_def upd_row_def cycle0_def opened_def)
  show ?thesis
    using closed_cycle_opens_again [OF fresh row st mgr ok, of env0 manager0] st by auto
qed

text \<open>
  Setting a reminder schedule replaces the cycle's schedule by exactly the given
  days, in their order, and leaves every other cycle's rows alone; it fails with a
  \<open>ValueError\<close> on a day that is not positive, and with an integrity error on a repeated day,
  and then commits nothing.
\<close>

theorem reminder_schedule_replaced:
  assumes "store_inv E s" and "cur s = com s"
  shows "let t = snd (cycle_set_reminder_schedule E cid days u s);
             mine = (\<lambda>d. filter (\<lambda>r. rs_cycle_id r = cid) (reminder_schedules d));
             others = (\<lambda>d. filter (\<lambda>r. rs_cycle_id r \<noteq> cid) (reminder_schedules d)) in
    fst (cycle_set_reminder_schedule E cid days u s) =
      (if \<exists>n \<in> set days. n \<le> 0 then Inl Value_error
       else if distinct days then Inr (schedule_rows cid days s) else Inl Integrity_error) \<and>
    others (com t) = others (com s) \<and>
    (if (\<forall>n \<in> set days. 0 < n) \<and> distinct days then map days_before (mine (com t)) = days
     else com t = com s)"
proof -
  have fresh: "seq_fresh s" and ok: "db_ok (com s)"
    using assms seq_fresh_based [of E s] by (simp_all add: store_inv_def)
  let ?others = "filter (\<lambda>r. rs_cycle_id r \<noteq> cid) (reminder_schedules (com s))"
  have days: "map days_before (schedule_rows cid days s) = days"
    unfolding schedule_rows_def by (rule trans [OF map_with_uuid [where h = "\<lambda>n. n"]]) simp_all
  have keys: "map (\<lambda>r. (rs_cycle_id r, days_before r)) (schedule_rows cid days s) = map (Pair cid) days"
    unfolding schedule_rows_def by (rule map_with_uuid) simp
  have mine: "filter (\<lambda>r. rs_cycle_id r = cid) (schedule_rows cid days s) = schedule_rows cid days s"
    "filter (\<lambda>r. rs_cycle_id r \<noteq> cid) (schedule_rows cid days s) = []"
    by (auto simp: schedule_rows_def filter_id_conv filter_empty_conv set_zip)
  have sched: "schedules_ok (?others @ schedule_rows cid days s) \<longleftrightarrow> distinct days" if "\<forall>n \<in> set days. 0 < n"
  proof -
    have "schedules_ok ?others"
      using ok by (auto simp: db_ok_def schedules_ok_def list_all_iff distinct_map inj_on_def)
    moreover have "list_all (\<lambda>r. 0 < days_before r) (schedule_rows cid days s)"
      using that days by (metis list_all_iff list.pred_map comp_def)
    moreover have "set (map (\<lambda>r. (rs_cycle_id r, days_before r)) ?others) \<inter> set (map (Pair cid) days) = {}"
      by auto
    ultimately show ?thesis
      by (simp add: schedules_ok_def keys distinct_map [of "Pair cid"] inj_on_def)
  qed
  have ok': "db_ok ((com s)\<lparr>reminder_schedules := ?others @ schedule_rows cid days s\<rparr>) \<longleftrightarrow> distinct days"
    if "\<forall>n \<in> set days. 0 < n"
    using ok sched [OF that] by (simp add: db_ok_def)
  show ?thesis
  proof (cases "\<forall>n \<in> set days. 0 < n")
    case True
    then have "\<not> list_ex (\<lambda>n. n \<le> 0) days" by (auto simp: list_ex_iff)
    with True show ?thesis
      by (simp add: cycle_set_reminder_schedule_run [OF fresh] assms(2) cur_audited ok'
          days mine Let_def flip: not_less)
  next
    case False
    then have bad: "\<exists>n \<in> set days. n \<le> 0" by (meson not_less)
    then have "list_ex (\<lambda>n. n \<le> 0) days" by (simp add: list_ex_iff)
    with False bad show ?thesis
      by (auto simp: cycle_set_reminder_schedule_run [OF fresh])
  qed
qed

lemma reminder_schedule_replaced_witness:
  "fst (cycle_set_reminder_schedule env0 7 [5, 5] admin0 (session_of cycle_db)) = Inl Integrity_error \<and>
   map days_before (filter (\<lambda>r. rs_cycle_id r = 7)
     (reminder_schedules (com (snd (cycle_set_reminder_schedule env0 7 [9, 2] admin0 (session_of cycle_db)))))) = [9, 2]"
proof -
  have inv: "store_inv env0 (session_of cycle_db)" using cycle_db_inv by (simp add: cycles_inv_def)
  show ?thesis
    using reminder_schedule_replaced [OF inv, of 7 "[5, 5]" admin0]
      reminder_schedule_replaced [OF inv, of 7 "[9, 2]" admin0] by (simp add: Let_def)
qed

end
