(* ===== verification/Text_Encoding.thy ===== *)
theory Text_Encoding
  imports Config
begin

text \<open>
  UTF-8, strictly: \<open>bytes.decode("utf-8")\<close> fails on overlong forms, surrogates, numbers beyond
  the last code point and truncated or stray bytes. On top of it, the address helper that
  the reminder, upload, shared-cost, export and personnel code each carry a copy of.
\<close>

definition cont :: "nat \<Rightarrow> bool" where
  "cont b \<longleftrightarrow> 128 \<le> b \<and> b < 192"

fun utf8_decode :: "bytes \<Rightarrow> pystr option" where
  "utf8_decode [] = Some []"
| "utf8_decode (b # bs) =
     (if b < 128 then map_option (Cons b) (utf8_decode bs)
      else if 194 \<le> b \<and> b < 224 then
        (case bs of c1 # bs1 \<Rightarrow>
           if cont c1 then map_option (Cons ((b - 192) * 64 + (c1 - 128))) (utf8_decode bs1) else None
         | _ \<Rightarrow> None)
      else if 224 \<le> b \<and> b < 240 then
        (case bs of c1 # c2 # bs2 \<Rightarrow>
           let c = (b - 224) * 4096 + (c1 - 128) * 64 + (c2 - 128) in
           if cont c1 \<and> cont c2 \<and> 2048 \<le> c \<and> \<not> (55296 \<le> c \<and> c < 57344)
           then map_option (Cons c) (utf8_decode bs2) else None
         | _ \<Rightarrow> None)
      else if 240 \<le> b \<and> b < 245 then
        (case bs of c1 # c2 # c3 # bs3 \<Rightarrow>
           let c = (b - 240) * 262144 + (c1 - 128) * 4096 + (c2 - 128) * 64 + (c3 - 128) in
           if cont c1 \<and> cont c2 \<and> cont c3 \<and> 65536 \<le> c \<and> c < 1114112
           then map_option (Cons c) (utf8_decode bs3) else None
         | _ \<Rightarrow> None)
      else None)"

definition utf8_char :: "nat \<Rightarrow> bytes" where
  "utf8_char c = (if c < 128 then [c]
     else if c < 2048 then [192 + c div 64, 128 + c mod 64]
     else if c < 65536 then [224 + c div 4096, 128 + c div 64 mod 64, 128 + c mod 64]
     else [240 + c div 262144, 128 + c div 4096 mod 64, 128 + c div 64 mod 64, 128 + c mod 64])"

definition utf8_encode :: "pystr \<Rightarrow> bytes" where
  "utf8_encode s = concat (map utf8_char s)"

text \<open>A code point that text can hold and UTF-8 can encode.\<close>

definition scalar_value :: "nat \<Rightarrow> bool" where
  "scalar_value c \<longleftrightarrow> c < 55296 \<or> (57344 \<le> c \<and> c < 1114112)"

lemma split64: "(c div 64) * 64 + c mod 64 = (c::nat)"
  by (rule div_mult_mod_eq)

lemma decode_char: 
  assumes "scalar_value c"
  shows "utf8_decode (utf8_char c @ bs) = map_option (Cons c) (utf8_decode bs)"
proof -
  have three: "(c div 4096) * 4096 + (c div 64 mod 64) * 64 + c mod 64 = c"
  proof -
    have "c div 4096 = c div 64 div 64" using div_mult2_eq [of c 64 64] by simp
    then show ?thesis
      using div_mult_mod_eq [of c 64] div_mult_mod_eq [of "c div 64" 64] by linarith
  qed
  have four: "(c div 262144) * 262144 + (c div 4096 mod 64) * 4096 + (c div 64 mod 64) * 64 + c mod 64 = c"
  proof -
    have "c div 262144 = c div 4096 div 64" using div_mult2_eq [of c 4096 64] by simp
    then show ?thesis
      using three div_mult_mod_eq [of "c div 4096" 64] by linarith
  qed
  consider "c < 128" | "128 \<le> c" "c < 2048" | "2048 \<le> c" "c < 65536" | "65536 \<le> c" "c < 1114112"
    using assms by (fastforce simp: scalar_value_def not_less)
  then show ?thesis
  proof cases
    case 1
    then show ?thesis by (simp add: utf8_char_def)
  next
    case 2
    then have "2 \<le> c div 64" "c div 64 < 32" by (auto simp: less_mult_imp_div_less)
    with 2 show ?thesis by (simp add: utf8_char_def cont_def split64)
  next
    case 3
    then have "c div 4096 < 16" by (auto simp: less_mult_imp_div_less)
    with 3 assms three show ?thesis
      by (auto simp: utf8_char_def cont_def scalar_value_def Let_def)
  next
    case 4
    then have "c div 262144 < 5" by (auto simp: less_mult_imp_div_less)
    with 4 four show ?thesis by (auto simp: utf8_char_def cont_def Let_def)
  qed
qed

lemma utf8_round_trip: "list_all scalar_value s \<Longrightarrow> utf8_decode (utf8_encode s) = Some s"
  by (induction s) (simp_all add: utf8_encode_def decode_char)

text \<open>\<open>_extract_email\<close>: the stored bytes, decoded as they are.\<close>

definition extract_email :: "user \<Rightarrow> pystr option" where
  "extract_email u =
     (if email_enc u = [] then None
      else case utf8_decode (email_enc u) of
        None \<Rightarrow> None
      | Some text \<Rightarrow> if 64 \<in> set text then Some text else None)"

end
