(* ===== verification/File_Reading.thy ===== *)
theory File_Reading
  imports Text_Encoding
begin

text \<open>
  \<^verbatim>\<open>infra/csv_io\<close>, \<^verbatim>\<open>infra/excel\<close> and \<^verbatim>\<open>infra/tabular.py\<close>: how a file becomes rows. The CSV reader is
  the standard library's state machine in the default (excel, not strict) dialect under
  \<open>DictReader\<close>; a workbook is what openpyxl gives.
\<close>

section \<open>The CSV reader\<close>

datatype csv_state = Start_record | Start_field | In_field | In_quoted | Quote_in_quoted | Eat_crnl

text \<open>The reader's state, the field being read and the fields read; \<open>None\<close> is a \<open>csv.Error\<close>.\<close>

type_synonym csv_config = "csv_state \<times> pystr \<times> pystr list"

definition is_newline :: "nat \<Rightarrow> bool" where
  "is_newline c \<longleftrightarrow> c = 10 \<or> c = 13"

definition add_char :: "csv_state \<Rightarrow> nat \<Rightarrow> pystr \<Rightarrow> pystr list \<Rightarrow> csv_config option" where
  "add_char st c fld flds = (if length fld \<ge> 131072 then None else Some (st, fld @ [c], flds))"

fun csv_char :: "nat \<Rightarrow> csv_config \<Rightarrow> csv_config option" where
  "csv_char c (Start_record, fld, flds) =
     (if is_newline c then Some (Eat_crnl, fld, flds)
      else if c = 34 then Some (In_quoted, fld, flds)
      else if c = 44 then Some (Start_field, [], flds @ [fld])
      else add_char In_field c fld flds)"
| "csv_char c (Start_field, fld, flds) =
     (if is_newline c then Some (Eat_crnl, [], flds @ [fld])
      else if c = 34 then Some (In_quoted, fld, flds)
      else if c = 44 then Some (Start_field, [], flds @ [fld])
      else add_char In_field c fld flds)"
| "csv_char c (In_field, fld, flds) =
     (if is_newline c then Some (Eat_crnl, [], flds @ [fld])
      else if c = 44 then Some (Start_field, [], flds @ [fld])
      else add_char In_field c fld flds)"
| "csv_char c (In_quoted, fld, flds) =
     (if c = 34 then Some (Quote_in_quoted, fld, flds) else add_char In_quoted c fld flds)"
| "csv_char c (Quote_in_quoted, fld, flds) =
     (if c = 34 then add_char In_quoted c fld flds
      else if c = 44 then Some (Start_field, [], flds @ [fld])
      else if is_newline c then Some (Eat_crnl, [], flds @ [fld])
      else add_char In_field c fld flds)"
| "csv_char c (Eat_crnl, fld, flds) = (if is_newline c then Some (Eat_crnl, fld, flds) else None)"

text \<open>The end of a line of the input.\<close>

fun csv_eol :: "csv_config \<Rightarrow> csv_config" where
  "csv_eol (Start_record, fld, flds) = (Start_record, fld, flds)"
| "csv_eol (Start_field, fld, flds) = (Start_record, [], flds @ [fld])"
| "csv_eol (In_field, fld, flds) = (Start_record, [], flds @ [fld])"
| "csv_eol (In_quoted, fld, flds) = (In_quoted, fld, flds)"
| "csv_eol (Quote_in_quoted, fld, flds) = (Start_record, [], flds @ [fld])"
| "csv_eol (Eat_crnl, fld, flds) = (Start_record, fld, flds)"

fun csv_line :: "pystr \<Rightarrow> csv_config \<Rightarrow> csv_config option" where
  "csv_line [] k = Some (csv_eol k)"
| "csv_line (c # cs) k = (case csv_char c k of None \<Rightarrow> None | Some k' \<Rightarrow> csv_line cs k')"

fun csv_records :: "pystr list \<Rightarrow> csv_config \<Rightarrow> pystr list list option" where
  "csv_records [] (st, fld, flds) = Some (if fld \<noteq> [] \<or> st = In_quoted then [flds @ [fld]] else [])"
| "csv_records (l # ls) k =
     (case csv_line l k of
        None \<Rightarrow> None
      | Some (st, fld, flds) \<Rightarrow>
          if st = Start_record then map_option (Cons flds) (csv_records ls (Start_record, [], []))
          else csv_records ls (st, fld, flds))"

text \<open>Iterating a \<open>StringIO\<close>: lines end after each line feed; the carriage return is kept.\<close>

fun split_lines :: "pystr \<Rightarrow> pystr list" where
  "split_lines [] = []"
| "split_lines (c # cs) =
     (if c = 10 then [c] # split_lines cs
      else case split_lines cs of [] \<Rightarrow> [[c]] | l # ls \<Rightarrow> (c # l) # ls)"

definition csv_reader :: "pystr \<Rightarrow> pystr list list option" where
  "csv_reader text = csv_records (split_lines text) (Start_record, [], [])"

text \<open>A dictionary built from pairs: a later value of a key replaces the earlier one.\<close>

definition dict_of :: "('k \<times> 'v) list \<Rightarrow> ('k, 'v) dict" where
  "dict_of ps = fold (\<lambda>(k, v) d. AList.update k v d) ps []"

lemma map_of_dict_of: "map_of (dict_of ps) = map_of (rev ps)"
proof -
  have "map_of (fold (\<lambda>(k, v) d. AList.update k v d) ps d) = map_of d ++ map_of (rev ps)" for d
    by (induction ps arbitrary: d) (auto simp: update_conv' map_add_upd_left fun_eq_iff map_add_def split: option.splits)
  then show ?thesis by (simp add: dict_of_def)
qed

text \<open>
  \<open>DictReader\<close> and the loop of \<open>parse_dicts\<close>: the first record names the columns; empty records
  are skipped; missing fields are None, surplus fields are collected under the key None. A
  row whose values are all blank is skipped (surplus fields count as a value, the text of a
  list, which is never blank); None becomes the empty text and the key None is dropped.
\<close>

definition csv_row :: "pystr list \<Rightarrow> pystr list \<Rightarrow> (pystr, pystr option) dict \<times> bool" where
  "csv_row header rec =
     (dict_of (zip header (map Some rec)  @ map (\<lambda>k. (k, None)) (drop (length rec) header)),
      length header < length rec)"

definition blank :: "pystr option \<Rightarrow> bool" where
  "blank v \<longleftrightarrow> (case v of None \<Rightarrow> True | Some s \<Rightarrow> strip s = [])"

definition csv_dicts :: "pystr list list \<Rightarrow> (pystr, pystr) dict list" where
  "csv_dicts recs = (case recs of
      [] \<Rightarrow> []
    | header # rest \<Rightarrow>
        map (\<lambda>(d, _). map (\<lambda>(k, v). (k, case v of None \<Rightarrow> [] | Some s \<Rightarrow> s)) d)
          (filter (\<lambda>(d, surplus). surplus \<or> \<not> list_all (\<lambda>(k, v). blank v) d)
            (map (csv_row header) (filter (\<lambda>r. r \<noteq> []) rest))))"

definition parse_dicts :: "bytes \<Rightarrow> exn + (pystr, pystr) dict list" where
  "parse_dicts content =
     (let raw = dropWhile (\<lambda>b. b \<in> {239, 187, 191}) content in
      case utf8_decode raw of
        None \<Rightarrow> Inl (app_err InfraError ''CSV_001'')
      | Some text \<Rightarrow>
          (case csv_reader text of
             None \<Rightarrow> Inl (app_err InfraError ''CSV_001'')
           | Some recs \<Rightarrow> Inr (csv_dicts recs)))"

section \<open>Workbooks\<close>

definition open_workbook :: "env \<Rightarrow> bytes \<Rightarrow> exn + workbook" where
  "open_workbook E content =
     (case load_workbook E content of None \<Rightarrow> Inl (app_err InfraError ''SYS_002'') | Some wb \<Rightarrow> Inr wb)"

definition resolve_sheet :: "workbook \<Rightarrow> pystr option \<Rightarrow> exn + cell list list" where
  "resolve_sheet wb sheet_name =
     (case sheet_name of
        None \<Rightarrow> (case active_sheet wb of
            None \<Rightarrow> Inl (app_err InfraError ''SYS_002'')
          | Some n \<Rightarrow> (case map_of (sheets wb) n of None \<Rightarrow> Inl (app_err InfraError ''SYS_002'') | Some g \<Rightarrow> Inr g))
      | Some n \<Rightarrow> (case map_of (sheets wb) n of
            None \<Rightarrow> Inl (app_err InfraError ''SYS_002'') | Some g \<Rightarrow> Inr g))"

definition empty_cell :: "cell \<Rightarrow> bool" where
  "empty_cell c \<longleftrightarrow> (case c of Cell_None \<Rightarrow> True | Cell_Str s \<Rightarrow> strip s = [] | _ \<Rightarrow> False)"

definition header_names :: "cell list \<Rightarrow> pystr list" where
  "header_names raw = map (\<lambda>(idx, c). if c = Cell_None then str ''column_'' @ nat_text (idx + 1) else cell_text c)
     (zip [0..<length raw] raw)"

definition read_rows :: "workbook \<Rightarrow> pystr option \<Rightarrow> nat \<Rightarrow> exn + raw_row list" where
  "read_rows wb sheet_name header_row =
     (if header_row < 1 then Inl (app_err InfraError ''SYS_002'')
      else case resolve_sheet wb sheet_name of
        Inl e \<Rightarrow> Inl e
      | Inr grid \<Rightarrow>
          if length grid < header_row then Inr []
          else let headers = header_names (grid ! (header_row - 1)) in
            Inr (map (\<lambda>row. dict_of (map (\<lambda>(idx, h). (h, if idx < length row then row ! idx else Cell_None))
                     (zip [0..<length headers] headers)))
              (filter (\<lambda>row. \<not> list_all empty_cell row) (drop header_row grid))))"

section \<open>The dispatch by extension\<close>

definition csv_rows :: "bytes \<Rightarrow> exn + raw_row list" where
  "csv_rows content = (case parse_dicts content of
      Inl e \<Rightarrow> Inl e | Inr ds \<Rightarrow> Inr (map (map (\<lambda>(k, v). (k, Cell_Str v))) ds))"

definition xlsx_rows :: "env \<Rightarrow> bytes \<Rightarrow> exn + raw_row list" where
  "xlsx_rows E content = (case open_workbook E content of
      Inl e \<Rightarrow> Inl e | Inr wb \<Rightarrow> read_rows wb None 1)"

definition parse_table :: "env \<Rightarrow> pystr \<Rightarrow> bytes \<Rightarrow> exn + raw_row list" where
  "parse_table E filename content =
     (if filename = [] then Inl (app_err InfraError ''TABULAR_001'')
      else if ends_with (str ''.csv'') (lower filename) then csv_rows content
      else if ends_with (str ''.xlsx'') (lower filename) then xlsx_rows E content
      else Inl (app_err InfraError ''TABULAR_001''))"

section \<open>Properties\<close>

text \<open>
  The CSV parser refuses well-formed UTF-8 that starts with a full-width character
  (U+FF00 to U+FF3F: full-width punctuation, digits and capital letters), with or without a
  byte order mark before it: what it strips from the left is not the mark but every leading
  byte that occurs in the mark, the character's own first byte included.
\<close>

theorem full_width_start_refused:
  assumes "65280 \<le> c" "c < 65344"
  shows "parse_dicts (utf8_encode (c # cs)) = Inl (app_err InfraError ''CSV_001'') \<and>
    parse_dicts (utf8_encode (65279 # c # cs)) = Inl (app_err InfraError ''CSV_001'')"
proof -
  have "c div 64 = 1020"
    using assms by (intro div_nat_eqI) simp_all
  moreover have "c div 4096 = 15"
    using assms by (intro div_nat_eqI) simp_all
  ultimately have c: "utf8_char c = [239, 188, 128 + c mod 64]"
    using assms by (simp add: utf8_char_def)
  have bom: "utf8_char 65279 = [239, 187, 191]" by (simp add: utf8_char_def)
  have "utf8_decode (188 # bs) = None" for bs by simp
  then show ?thesis
    by (simp add: parse_dicts_def utf8_encode_def c bom Let_def del: utf8_decode.simps)
qed

lemma full_width_start_refused_witness:
  "parse_dicts (utf8_encode (65313 # str ''mount'')) = Inl (app_err InfraError ''CSV_001'')"
  using full_width_start_refused [of 65313 "str ''mount''"] by simp

end
