(* ===== verification/Accounts.thy ===== *)
theory Accounts
  imports Cycles File_Reading
begin

text \<open>
  \<^verbatim>\<open>domain/accounts/\<close>: the chart of accounts, the validator of an actuals file and the
  import that replaces a cycle's actual expenses in one transaction.
\<close>

section \<open>Header rows and look-ups that the importers share\<close>

text \<open>One row with its keys cleaned and lower-cased; keys that clean to nothing are dropped.\<close>

definition lower_keys :: "raw_row \<Rightarrow> raw_row" where
  "lower_keys raw = dict_of (List.map_filter (\<lambda>(k, v).
     map_option (\<lambda>ck. (lower ck, v)) (clean_cell (Cell_Str k))) raw)"

definition code_id_map :: "account_code list \<Rightarrow> pystr \<Rightarrow> uuid option" where
  "code_id_map acs = map_of (rev (map (\<lambda>a. (ac_code a, ac_id a)) acs))"

definition org_unit_code_to_id_map :: "org_unit list \<Rightarrow> pystr \<Rightarrow> uuid option" where
  "org_unit_code_to_id_map us = map_of (rev (map (\<lambda>w. (ou_code w, ou_id w)) us))"

lemma map_of_rev_distinct: "distinct (map fst ps) \<Longrightarrow> map_of (rev ps) = map_of ps"
proof (induction ps)
  case (Cons p ps)
  then have "map_of ps (fst p) = None" by (simp add: map_of_eq_None_iff)
  with Cons show ?case by (cases p) (auto simp: map_add_def fun_eq_iff split: option.splits)
qed simp

section \<open>ActualsRowValidator\<close>

fun lookup_cell :: "raw_row \<Rightarrow> pystr list \<Rightarrow> cell" where
  "lookup_cell row [] = Cell_None"
| "lookup_cell row (k # ks) = (case map_of row k of Some v \<Rightarrow> v | None \<Rightarrow> lookup_cell row ks)"

record actual_row =
  ar_row :: nat
  ar_org_code :: pystr
  ar_org_id :: uuid
  ar_account_code :: pystr
  ar_amount :: cents

definition check_org_cell :: "nat \<Rightarrow> (pystr \<Rightarrow> uuid option) \<Rightarrow> cell \<Rightarrow> row_error list + pystr \<times> uuid" where
  "check_org_cell n ocodes v = (case clean_cell v of
      None \<Rightarrow> Inl [row_err n ''org_unit_code'' ''ACCOUNT_002'' Reason_cell_empty]
    | Some org_code \<Rightarrow> (case ocodes org_code of
        None \<Rightarrow> Inl [row_err n ''org_unit_code'' ''ACCOUNT_002'' (Reason_unknown org_code)]
      | Some i \<Rightarrow> Inr (org_code, i)))"

definition check_account_cell :: "nat \<Rightarrow> pystr set \<Rightarrow> cell \<Rightarrow> row_error list + pystr" where
  "check_account_cell n acodes v = (case clean_cell v of
      None \<Rightarrow> Inl [row_err n ''account_code'' ''ACCOUNT_002'' Reason_cell_empty]
    | Some c \<Rightarrow> if c \<notin> acodes
        then Inl [row_err n ''account_code'' ''ACCOUNT_002'' (Reason_unknown c)] else Inr c)"

definition check_amount_cell :: "nat \<Rightarrow> cell \<Rightarrow> row_error list + cents" where
  "check_amount_cell n v = (case parse_amount v True of
      Inl r \<Rightarrow> Inl [row_err n ''amount'' ''ACCOUNT_002'' (Reason_amount r)] | Inr a \<Rightarrow> Inr a)"

definition errors_of :: "row_error list + 'a \<Rightarrow> row_error list" where
  "errors_of r = (case r of Inl es \<Rightarrow> es | Inr _ \<Rightarrow> [])"

definition validate_actual_row :: "(pystr \<Rightarrow> uuid option) \<Rightarrow> pystr set \<Rightarrow> nat \<Rightarrow> raw_row
    \<Rightarrow> row_error list + actual_row" where
  "validate_actual_row ocodes acodes n raw =
     (let org = check_org_cell n ocodes (lookup_cell raw
            [str ''org_unit_code'', str ''dept_id'', str ''ORG_UNIT_CODE'', str ''DEPT_ID'']);
          acc = check_account_cell n acodes (lookup_cell raw [str ''account_code'', str ''ACCOUNT_CODE'']);
          amt = check_amount_cell n (lookup_cell raw [str ''amount'', str ''AMOUNT''])
      in case (org, acc, amt) of
           (Inr (org_code, i), Inr c, Inr a) \<Rightarrow>
             Inr \<lparr>ar_row = n, ar_org_code = org_code, ar_org_id = i, ar_account_code = c, ar_amount = a\<rparr>
         | _ \<Rightarrow> Inl (errors_of org @ errors_of acc @ errors_of amt))"

definition validate_actuals :: "(pystr \<Rightarrow> uuid option) \<Rightarrow> pystr set \<Rightarrow> raw_row list
    \<Rightarrow> actual_row validation_result" where
  "validate_actuals ocodes acodes rs =
     (case collect_rows (validate_actual_row ocodes acodes) 1 rs [] [] of
        (es, cs) \<Rightarrow> if es \<noteq> [] then \<lparr>rows = [], errors = es\<rparr> else \<lparr>rows = cs, errors = []\<rparr>)"

lemma row_err_row [simp]: "err_row (row_err n c cd r) = n"
  by (simp add: row_err_def)

lemma cell_checks_report:
  "check_org_cell n m v = Inl es \<Longrightarrow> es \<noteq> [] \<and> (\<forall>e \<in> set es. err_row e = n)"
  "check_account_cell n A v = Inl es \<Longrightarrow> es \<noteq> [] \<and> (\<forall>e \<in> set es. err_row e = n)"
  "check_amount_cell n v = Inl es \<Longrightarrow> es \<noteq> [] \<and> (\<forall>e \<in> set es. err_row e = n)"
  by (auto simp: check_org_cell_def check_account_cell_def check_amount_cell_def
      split: option.splits sum.splits if_splits)

interpretation actuals: row_validator "validate_actual_row org_codes acc_codes" 1 "validate_actuals org_codes acc_codes"
  for org_codes :: "pystr \<Rightarrow> uuid option" and acc_codes :: "pystr set"
proof (rule collect_rows_validator)
  fix n r es
  assume e: "validate_actual_row org_codes acc_codes n r = Inl es"
  define o1 where "o1 = check_org_cell n org_codes (lookup_cell r
      [str ''org_unit_code'', str ''dept_id'', str ''ORG_UNIT_CODE'', str ''DEPT_ID''])"
  define a1 where "a1 = check_account_cell n acc_codes (lookup_cell r [str ''account_code'', str ''ACCOUNT_CODE''])"
  define m1 where "m1 = check_amount_cell n (lookup_cell r [str ''amount'', str ''AMOUNT''])"
  have "es = errors_of o1 @ errors_of a1 @ errors_of m1" "isl o1 \<or> isl a1 \<or> isl m1"
    using e unfolding validate_actual_row_def o1_def [symmetric] a1_def [symmetric] m1_def [symmetric] Let_def
    by (auto split: sum.splits prod.splits)
  moreover have "x \<noteq> [] \<and> (\<forall>e \<in> set x. err_row e = n)" if "o1 = Inl x \<or> a1 = Inl x \<or> m1 = Inl x" for x
    using that unfolding o1_def a1_def m1_def by (elim disjE) (rule cell_checks_report; assumption)+
  ultimately show "es \<noteq> [] \<and> (\<forall>e \<in> set es. err_row e = n)"
    by (cases o1; cases a1; cases m1) (auto simp: errors_of_def)
qed (simp add: validate_actuals_def)

section \<open>AccountService\<close>

definition list_accounts :: "account_category option \<Rightarrow> db \<Rightarrow> account_code list" where
  "list_accounts c d = order_asc ac_code
     (case c of None \<Rightarrow> account_codes d | Some x \<Rightarrow> filter (\<lambda>a. category a = x) (account_codes d))"

definition get_by_code :: "pystr \<Rightarrow> account_code op" where
  "get_by_code c = bnd (query (\<lambda>d. get_row ac_code c (account_codes d))) (\<lambda>row.
     case row of None \<Rightarrow> raise (app_err NotFoundError ''ACCOUNT_001'') | Some a \<Rightarrow> ret a)"

definition codes_by_category :: "account_category \<Rightarrow> db \<Rightarrow> pystr set" where
  "codes_by_category c d = ac_code ` set (filter (\<lambda>a. category a = c) (account_codes d))"

definition operational_codes :: "db \<Rightarrow> pystr set" where
  "operational_codes d = codes_by_category operational d"

definition load_all_codes :: "db \<Rightarrow> pystr set" where
  "load_all_codes d = ac_code ` set (account_codes d)"

record account_write =
  aw_code :: pystr
  aw_name :: pystr
  aw_category :: account_category
  aw_level :: int

text \<open>The request schema: lengths and the lowest level.\<close>

definition account_write_ok :: "account_write \<Rightarrow> bool" where
  "account_write_ok w \<longleftrightarrow> 1 \<le> length (aw_code w) \<and> length (aw_code w) \<le> 32
     \<and> 1 \<le> length (aw_name w) \<and> length (aw_name w) \<le> 200 \<and> 1 \<le> aw_level w"

definition category_name :: "account_category \<Rightarrow> string" where
  "category_name c = (case c of operational \<Rightarrow> ''operational'' | personnel \<Rightarrow> ''personnel''
     | shared_cost \<Rightarrow> ''shared_cost'')"

definition account_upsert :: "env \<Rightarrow> account_write \<Rightarrow> user \<Rightarrow> account_code op" where
  "account_upsert E w u =
     bnd (query (\<lambda>d. get_row ac_code (aw_code w) (account_codes d))) (\<lambda>existing.
     bnd now_utc (\<lambda>now.
     bnd (case existing of
            None \<Rightarrow> bnd new_uuid (\<lambda>i.
              let a = \<lparr>ac_id = i, ac_code = aw_code w, ac_name = aw_name w, category = aw_category w,
                    ac_level = aw_level w, ac_active = True, ac_updated_at = now\<rparr> in
              sq (update (\<lambda>d. d\<lparr>account_codes := account_codes d @ [a]\<rparr>)) (ret (a, ACCOUNT_CREATE)))
          | Some a0 \<Rightarrow>
              let a = a0\<lparr>ac_name := aw_name w, category := aw_category w, ac_level := aw_level w,
                    ac_updated_at := now\<rparr> in
              sq (update (\<lambda>d. d\<lparr>account_codes := upd_row ac_id (ac_id a0) (\<lambda>_. a) (account_codes d)\<rparr>))
                 (ret (a, ACCOUNT_UPDATE))) (\<lambda>(a, act).
     sq (commit_audited E act ''account_code'' (Some (ac_id a)) (Some (user_id u))
           (JObj [(''code'', JText (ac_code a)), (''name'', JText (ac_name a)),
                  (''category'', JName (category_name (category a))), (''level'', JInt (ac_level a))]))
        (ret a))))"

section \<open>Importing actuals\<close>

definition normalize_actuals_headers :: "raw_row list \<Rightarrow> raw_row list \<times> row_error list" where
  "normalize_actuals_headers raw_rows =
     (if raw_rows = [] then ([], [file_err ''ACCOUNT_002'' Reason_no_rows])
      else let normalized = map lower_keys raw_rows;
               seen = \<Union> (set (map (\<lambda>r. fst ` set r) normalized));
               alias = str ''org_unit_code'' \<notin> seen \<and> str ''dept_id'' \<in> seen;
               normalized' = (if alias then map (\<lambda>r. case (map_of r (str ''org_unit_code''), map_of r (str ''dept_id'')) of
                    (None, Some v) \<Rightarrow> AList.update (str ''org_unit_code'') v r | _ \<Rightarrow> r) normalized else normalized);
               seen' = (if alias then insert (str ''org_unit_code'') seen else seen);
               missing = filter (\<lambda>c. c \<notin> seen') [str ''account_code'', str ''amount'', str ''org_unit_code'']
           in (normalized', if missing \<noteq> [] then [file_err ''ACCOUNT_002'' (Reason_missing_columns missing)] else []))"

record import_summary =
  is_cycle_id :: uuid
  is_filename :: pystr
  rows_imported :: nat
  org_units_affected :: "pystr list"

text \<open>The loop that builds the rows; a code without an identifier ends the import.\<close>

fun build_actuals :: "uuid \<Rightarrow> uuid \<Rightarrow> stamp \<Rightarrow> (pystr \<Rightarrow> uuid option) \<Rightarrow> actual_row list
    \<Rightarrow> actual_expense list op" where
  "build_actuals cid uid now ids [] = ret []"
| "build_actuals cid uid now ids (r # rs) =
     (case ids (ar_account_code r) of
        None \<Rightarrow> raise (batch_validation_error ''ACCOUNT_002''
          [row_err (ar_row r) ''account_code'' ''ACCOUNT_002'' (Reason_unknown (ar_account_code r))])
      | Some a \<Rightarrow> bnd new_uuid (\<lambda>i.
          bnd (build_actuals cid uid now ids rs) (\<lambda>es.
            ret (\<lparr>ae_id = i, ae_cycle_id = cid, ae_org_unit_id = ar_org_id r, ae_account_code_id = a,
              ae_amount = ar_amount r, imported_at = now, imported_by = uid\<rparr> # es))))"

definition import_actuals :: "env \<Rightarrow> uuid \<Rightarrow> pystr \<Rightarrow> bytes \<Rightarrow> user \<Rightarrow> import_summary op" where
  "import_actuals E cid filename content u =
     sq (cycle_assert_open cid)
    (bnd (lift (parse_table E filename content)) (\<lambda>raw_rows.
     let (normalized, header_errors) = normalize_actuals_headers raw_rows in
     sq (check (header_errors = []) (batch_validation_error ''ACCOUNT_002'' header_errors))
    (bnd (query (\<lambda>d. org_unit_code_to_id_map (org_units d))) (\<lambda>org_unit_map.
     bnd (query load_all_codes) (\<lambda>codes.
       let result = validate_actuals org_unit_map codes normalized in
       sq (check (valid result) (batch_validation_error ''ACCOUNT_002'' (errors result)))
      (bnd (query (\<lambda>d. code_id_map (filter (\<lambda>a. ac_code a \<in> codes) (account_codes d)))) (\<lambda>ids.
       sq (update (\<lambda>d. d\<lparr>actual_expenses := filter (\<lambda>a. ae_cycle_id a \<noteq> cid) (actual_expenses d)\<rparr>))
      (bnd now_utc (\<lambda>now.
       bnd (build_actuals cid (user_id u) now ids (rows result)) (\<lambda>new.
       sq (update (\<lambda>d. d\<lparr>actual_expenses := actual_expenses d @ new\<rparr>))
      (let affected = order_asc (\<lambda>c. c) (remdups (map ar_org_code (rows result))) in
       sq (commit_audited E ACTUALS_IMPORT ''cycle'' (Some cid) (Some (user_id u))
             (JObj [(''filename'', JText filename), (''rows_imported'', JInt (int (length new))),
                    (''org_units_affected'', JArr (map JText affected))]))
          (ret \<lparr>is_cycle_id = cid, is_filename = filename, rows_imported = length new,
             org_units_affected = affected\<rparr>))))))))))))"

text \<open>\<open>file.filename or default\<close>.\<close>

definition name_or :: "string \<Rightarrow> pystr option \<Rightarrow> pystr" where
  "name_or dflt f = (case f of None \<Rightarrow> str dflt | Some n \<Rightarrow> if n = [] then str dflt else n)"

section \<open>The routes\<close>

definition list_accounts_route :: "account_category option \<Rightarrow> user \<Rightarrow> account_code list op" where
  "list_accounts_route c u = get_session (bnd (require_role [FinanceAdmin, SystemAdmin, HRAdmin] u) (\<lambda>_.
     query (list_accounts c)))"

definition get_account :: "pystr \<Rightarrow> user \<Rightarrow> account_code op" where
  "get_account c u = get_session (bnd (require_role [FinanceAdmin, SystemAdmin, HRAdmin] u) (\<lambda>_. get_by_code c))"

definition upsert_account :: "env \<Rightarrow> account_write \<Rightarrow> user \<Rightarrow> account_code op" where
  "upsert_account E w u = get_session (bnd (require_role [FinanceAdmin, SystemAdmin] u) (\<lambda>u. account_upsert E w u))"

definition import_actuals_route :: "env \<Rightarrow> uuid \<Rightarrow> pystr option \<Rightarrow> bytes \<Rightarrow> user \<Rightarrow> import_summary op" where
  "import_actuals_route E cid filename content u = get_session (bnd (require_role [FinanceAdmin, SystemAdmin] u) (\<lambda>u.
     import_actuals E cid (name_or ''upload.csv'' filename) content u))"

section \<open>What the operations do\<close>

definition actual_rows :: "uuid \<Rightarrow> uuid \<Rightarrow> stamp \<Rightarrow> (pystr \<Rightarrow> uuid option) \<Rightarrow> uuid \<Rightarrow> actual_row list
    \<Rightarrow> actual_expense list" where
  "actual_rows cid uid now ids i rs = map2 (\<lambda>j r. \<lparr>ae_id = j, ae_cycle_id = cid,
     ae_org_unit_id = ar_org_id r, ae_account_code_id = the (ids (ar_account_code r)),
     ae_amount = ar_amount r, imported_at = now, imported_by = uid\<rparr>) [i..<i + length rs] rs"

lemma build_actuals_run:
  "\<forall>r \<in> set rs. ids (ar_account_code r) \<noteq> None \<Longrightarrow> build_actuals cid uid now ids rs s =
    (Inr (actual_rows cid uid now ids (uid_next s) rs), s\<lparr>uid_next := uid_next s + length rs\<rparr>)"
proof (induction rs arbitrary: s)
  case (Cons r rs)
  then obtain a where "ids (ar_account_code r) = Some a" by auto
  moreover have "[uid_next s..<uid_next s + length (r # rs)]
      = uid_next s # [Suc (uid_next s)..<Suc (uid_next s) + length rs]"
    by (simp add: upt_conv_Cons del: upt_Suc)
  ultimately show ?case
    using Cons by (simp add: act_simps actual_rows_def del: upt_Suc)
qed (simp add: actual_rows_def)

lemma valid_actual_rows:
  assumes "valid (validate_actuals org codes rs)" "r \<in> set (rows (validate_actuals org codes rs))"
  shows "ar_account_code r \<in> codes \<and> org (ar_org_code r) = Some (ar_org_id r) \<and> 0 \<le> ar_amount r"
proof -
  from assms(2) obtain i where "i < length (rows (validate_actuals org codes rs))"
    "r = rows (validate_actuals org codes rs) ! i" by (metis in_set_conv_nth)
  with actuals.one_per_row [OF assms(1)] have "validate_actual_row org codes (1 + i) (rs ! i) = Inr r" by simp
  then show ?thesis
    by (auto simp: validate_actual_row_def check_org_cell_def check_account_cell_def check_amount_cell_def Let_def
        split: sum.splits prod.splits option.splits if_splits dest: parse_amount_nonneg)
qed

lemma code_id_map_known:
  "c \<in> codes \<Longrightarrow> c \<in> load_all_codes d \<Longrightarrow>
    code_id_map (filter (\<lambda>a. ac_code a \<in> codes) (account_codes d)) c \<noteq> None"
  by (auto simp: code_id_map_def load_all_codes_def map_of_eq_None_iff image_iff simp del: not_None_eq)

text \<open>The reading half of the import: everything before the first write.\<close>

definition read_actuals :: "env \<Rightarrow> db \<Rightarrow> pystr \<Rightarrow> bytes \<Rightarrow> exn + actual_row list" where
  "read_actuals E d filename content = (case parse_table E filename content of
      Inl e \<Rightarrow> Inl e
    | Inr raw \<Rightarrow> (case normalize_actuals_headers raw of (normalized, errs) \<Rightarrow>
        if errs \<noteq> [] then Inl (batch_validation_error ''ACCOUNT_002'' errs)
        else let result = validate_actuals (org_unit_code_to_id_map (org_units d)) (load_all_codes d) normalized in
          if valid result then Inr (rows result)
          else Inl (batch_validation_error ''ACCOUNT_002'' (errors result))))"

lemma read_actuals_codes:
  assumes "read_actuals E d filename content = Inr rs" "r \<in> set rs"
  shows "\<exists>x \<in> set (account_codes d). ac_id x =
      the (code_id_map (filter (\<lambda>a. ac_code a \<in> load_all_codes d) (account_codes d)) (ar_account_code r))
    \<and> ac_code x = ar_account_code r"
proof -
  from assms obtain normalized where
      "valid (validate_actuals (org_unit_code_to_id_map (org_units d)) (load_all_codes d) normalized)"
      "r \<in> set (rows (validate_actuals (org_unit_code_to_id_map (org_units d)) (load_all_codes d) normalized))"
    by (auto simp: read_actuals_def Let_def split: sum.splits prod.splits if_splits)
  then have "ar_account_code r \<in> load_all_codes d" using valid_actual_rows by blast
  then obtain i where i: "code_id_map (filter (\<lambda>a. ac_code a \<in> load_all_codes d) (account_codes d)) (ar_account_code r) = Some i"
    using code_id_map_known by blast
  then have "(ar_account_code r, i) \<in> set (rev (map (\<lambda>a. (ac_code a, ac_id a))
      (filter (\<lambda>a. ac_code a \<in> load_all_codes d) (account_codes d))))"
    unfolding code_id_map_def by (rule map_of_SomeD)
  with i show ?thesis by auto
qed

lemma cycle_assert_open_run: "cycle_assert_open cid s =
    ((case get_row cycle_id cid (budget_cycles (cur s)) of
        None \<Rightarrow> Inl (app_err NotFoundError ''CYCLE_001'')
      | Some c \<Rightarrow> if cycle_status c = open then Inr () else Inl (app_err AppError ''CYCLE_004'')), s)"
  by (simp add: cycle_assert_open_def act_simps cycle_get_run split: option.splits)

lemma import_actuals_run:
  assumes "seq_fresh s"
  shows "import_actuals E cid filename content u s =
    (case fst (cycle_assert_open cid s) of Inl e \<Rightarrow> (Inl e, s) | Inr _ \<Rightarrow>
     case read_actuals E (cur s) filename content of Inl e \<Rightarrow> (Inl e, s) | Inr rs \<Rightarrow>
       let new = actual_rows cid (user_id u) (clock s)
                   (code_id_map (filter (\<lambda>a. ac_code a \<in> load_all_codes (cur s)) (account_codes (cur s))))
                   (uid_next s) rs;
           affected = order_asc (\<lambda>c. c) (remdups (map ar_org_code rs));
           d = (cur s)\<lparr>actual_expenses :=
                 filter (\<lambda>a. ae_cycle_id a \<noteq> cid) (actual_expenses (cur s)) @ new\<rparr>;
           t = s\<lparr>uid_next := uid_next s + length rs\<rparr>
       in if db_ok d
          then (Inr \<lparr>is_cycle_id = cid, is_filename = filename, rows_imported = length rs,
                  org_units_affected = affected\<rparr>,
                audited E ACTUALS_IMPORT ''cycle'' (Some cid) (Some (user_id u))
                  (JObj [(''filename'', JText filename), (''rows_imported'', JInt (int (length rs))),
                    (''org_units_affected'', JArr (map JText affected))]) (t\<lparr>cur := d\<rparr>))
          else (Inl Integrity_error, t\<lparr>cur := com s\<rparr>))"
proof -
  have len: "length (actual_rows cid uid now ids i rs) = length rs" for uid now ids i rs
    by (simp add: actual_rows_def)
  show ?thesis
  proof (cases "fst (cycle_assert_open cid s)")
    case (Inl e)
    then show ?thesis by (simp add: import_actuals_def run_sq cycle_assert_open_run)
  next
    case (Inr x)
    then have open_cycle: "cycle_assert_open cid s = (Inr (), s)" by (simp add: cycle_assert_open_run)
    show ?thesis
    proof (cases "read_actuals E (cur s) filename content")
      case (Inl e)
      then show ?thesis
        by (auto simp: import_actuals_def run_sq open_cycle act_simps read_actuals_def Let_def
            split: sum.splits prod.splits if_splits)
    next
      case (Inr rs)
      then obtain raw normalized where parsed: "parse_table E filename content = Inr raw"
          "normalize_actuals_headers raw = (normalized, [])"
        and ok: "valid (validate_actuals (org_unit_code_to_id_map (org_units (cur s))) (load_all_codes (cur s)) normalized)"
        and rs: "rs = rows (validate_actuals (org_unit_code_to_id_map (org_units (cur s))) (load_all_codes (cur s)) normalized)"
        by (auto simp: read_actuals_def Let_def split: sum.splits prod.splits if_splits)
      have known: "\<forall>r \<in> set rs. code_id_map (filter (\<lambda>a. ac_code a \<in> load_all_codes (cur s))
          (account_codes (cur s))) (ar_account_code r) \<noteq> None"
        using valid_actual_rows [OF ok] code_id_map_known unfolding rs by blast
      show ?thesis
        using ok by (simp add: import_actuals_def open_cycle act_simps parsed Inr build_actuals_run [OF known]
            rs [symmetric] run_commit_audited assms len Let_def del: not_None_eq)
    qed
  qed
qed


lemma get_upd_row_const: "key a = k \<Longrightarrow> get_row key j (upd_row key k (\<lambda>_. a) rs) =
    (if j = k then (if k \<in> key ` set rs then Some a else None) else get_row key j rs)"
  by (induction rs) (auto simp: get_row_def upd_row_def)

lemma get_row_snoc: "get_row key k (rs @ [r]) =
    (case get_row key k rs of None \<Rightarrow> if key r = k then Some r else None | Some x \<Rightarrow> Some x)"
  by (induction rs) (auto simp: get_row_def)

text \<open>A row loaded by one unique key and written back by another.\<close>

lemma upd_row_by_other_key:
  "distinct (map f rs) \<Longrightarrow> distinct (map g rs) \<Longrightarrow> r \<in> set rs \<Longrightarrow>
    upd_row f (f r) h rs = upd_row g (g r) h rs"
  by (auto simp: upd_row_def dest: distinct_map_eq)

definition upserted :: "account_write \<Rightarrow> session \<Rightarrow> account_code \<times> account_code list \<times> audit_action" where
  "upserted w s = (case get_row ac_code (aw_code w) (account_codes (cur s)) of
      None \<Rightarrow> let a = \<lparr>ac_id = uid_next s, ac_code = aw_code w, ac_name = aw_name w,
                 category = aw_category w, ac_level = aw_level w, ac_active = True, ac_updated_at = clock s\<rparr>
        in (a, account_codes (cur s) @ [a], ACCOUNT_CREATE)
    | Some a0 \<Rightarrow> let a = a0\<lparr>ac_name := aw_name w, category := aw_category w, ac_level := aw_level w,
                 ac_updated_at := clock s\<rparr>
        in (a, upd_row ac_id (ac_id a0) (\<lambda>_. a) (account_codes (cur s)), ACCOUNT_UPDATE))"

lemma account_upsert_run:
  assumes "seq_fresh s"
  shows "account_upsert E w u s =
    (case upserted w s of (a, tbl, act) \<Rightarrow>
       let d = (cur s)\<lparr>account_codes := tbl\<rparr>;
           t = s\<lparr>uid_next := uid_next s + (if act = ACCOUNT_CREATE then 1 else 0)\<rparr>
       in if db_ok d then (Inr a, audited E act ''account_code'' (Some (ac_id a)) (Some (user_id u))
           (JObj [(''code'', JText (ac_code a)), (''name'', JText (ac_name a)),
                  (''category'', JName (category_name (category a))), (''level'', JInt (ac_level a))])
           (t\<lparr>cur := d\<rparr>))
          else (Inl Integrity_error, t\<lparr>cur := com s\<rparr>))"
  using assms
  by (simp add: account_upsert_def act_simps upserted_def run_commit_audited Let_def split: option.splits)

context audited_inv
begin

lemma kept_build_actuals [preserves_intros]: "preserves P (build_actuals cid uid now ids rs)"
proof (induction rs)
  case (Cons r rs)
  show ?case by (simp, intro preserves_intros Cons.IH)
qed (simp only: build_actuals.simps preserves_basic)

lemma kept_accounts [preserves_intros]:
  "preserves P (account_upsert E w u)"
  "preserves P (cycle_assert_open cid)"
  "preserves P (import_actuals E cid filename content u)"
  unfolding account_upsert_def import_actuals_def cycle_assert_open_def cycle_get_def Let_def
  by (intro preserves_intros; simp)+

end

section \<open>Sample\<close>

definition account0 :: account_code where
  "account0 = \<lparr>ac_id = 50, ac_code = str ''5100'', ac_name = str ''Travel'', category = operational,
     ac_level = 1, ac_active = True, ac_updated_at = 0\<rparr>"

definition accounts_db :: db where
  "accounts_db = org_db\<lparr>budget_cycles := [cycle0\<lparr>cycle_status := open\<rparr>], account_codes := [account0]\<rparr>"

lemma accounts_db_inv: "store_inv env0 (session_of accounts_db)"
  using org_db_ok
  by (simp add: store_inv_def chain_inv_def log_ok_def db_ok_def accounts_db_def constraint_defs org_db_def account0_def)

definition actuals_csv :: bytes where
  "actuals_csv = str ''dept_id,account_code,amount'' @ [10] @ str ''4023,5100,12.5'' @ [10]"

lemma actuals_csv_dicts: "parse_dicts actuals_csv = Inr [[(str ''dept_id'', str ''4023''),
    (str ''account_code'', str ''5100''), (str ''amount'', str ''12.5'')]]"
  by (simp add: actuals_csv_def parse_dicts_def csv_reader_def is_newline_def add_char_def csv_dicts_def csv_row_def
      dict_of_def blank_def strip_def is_space_def)

lemma csv_name: "ends_with (str ''.csv'') (lower (str ''a.csv''))" "str ''a.csv'' \<noteq> []"
  by (simp_all add: ends_with_def lower_def lower_char_def)

definition actuals_row0 :: raw_row where
  "actuals_row0 = [(str ''dept_id'', Cell_Str (str ''4023'')), (str ''account_code'', Cell_Str (str ''5100'')),
     (str ''amount'', Cell_Str (str ''12.5''))]"

definition actuals_row1 :: raw_row where
  "actuals_row1 = actuals_row0 @ [(str ''org_unit_code'', Cell_Str (str ''4023''))]"

lemma actuals_csv_headers: "normalize_actuals_headers [actuals_row0] = ([actuals_row1], [])"
  by (simp add: normalize_actuals_headers_def lower_keys_def clean_cell_def strip_def is_space_def lower_def
      lower_char_def List.map_filter_def dict_of_def actuals_row0_def actuals_row1_def)

lemma actuals_csv_valid:
  "validate_actuals (org_unit_code_to_id_map (org_units accounts_db)) (load_all_codes accounts_db) [actuals_row1]
    = \<lparr>rows = [\<lparr>ar_row = 1, ar_org_code = str ''4023'', ar_org_id = 2, ar_account_code = str ''5100'',
         ar_amount = 1250\<rparr>], errors = []\<rparr>"
  by (simp add: actuals_row0_def actuals_row1_def validate_actuals_def validate_actual_row_def check_org_cell_def
      check_account_cell_def check_amount_cell_def org_unit_code_to_id_map_def load_all_codes_def accounts_db_def
      org_db_def unit0_def unit1_def account0_def clean_cell_def strip_def is_space_def parse_amount_def
      amount_value_def decimal_of_text_def read_number_def read_sign_def read_exponent_def digit_val_def
      digit_zeros_def lower_def lower_char_def quantize_cents_def round_half_even_def all_digits_def Let_def)

lemma read_actuals_csv: "read_actuals env0 accounts_db (str ''a.csv'') actuals_csv =
    Inr [\<lparr>ar_row = 1, ar_org_code = str ''4023'', ar_org_id = 2, ar_account_code = str ''5100'', ar_amount = 1250\<rparr>]"
proof -
  have "parse_table env0 (str ''a.csv'') actuals_csv = Inr [actuals_row0]"
    by (simp add: parse_table_def csv_name csv_rows_def actuals_csv_dicts actuals_row0_def del: str_simps)
  then show ?thesis
    by (simp add: read_actuals_def actuals_csv_headers actuals_csv_valid valid_def del: str_simps)
qed

section \<open>Properties\<close>

text \<open>A row of an actuals file as the importer wants it.\<close>

definition actual_row_ok :: "(pystr \<Rightarrow> uuid option) \<Rightarrow> pystr set \<Rightarrow> raw_row \<Rightarrow> bool" where
  "actual_row_ok org codes raw \<longleftrightarrow>
      (\<exists>c. clean_cell (lookup_cell raw [str ''org_unit_code'', str ''dept_id'', str ''ORG_UNIT_CODE'',
             str ''DEPT_ID'']) = Some c \<and> org c \<noteq> None)
    \<and> (\<exists>c \<in> codes. clean_cell (lookup_cell raw [str ''account_code'', str ''ACCOUNT_CODE'']) = Some c)
    \<and> (\<exists>a. parse_amount (lookup_cell raw [str ''amount'', str ''AMOUNT'']) True = Inr a)"

text \<open>
  The validator of an actuals file. A file is valid iff every row names a known
  organisation unit (under any of the four header spellings) and a known account code and
  has an amount that is a finite number not below zero; and the rows that errors are
  reported for, numbered from 1, are exactly the faulty ones.
\<close>

theorem actuals_file_valid:
  "(valid (validate_actuals org codes rs) \<longleftrightarrow> list_all (actual_row_ok org codes) rs)
    \<and> err_row ` set (errors (validate_actuals org codes rs))
        = {Suc i | i. i < length rs \<and> \<not> actual_row_ok org codes (rs ! i)}"
proof -
  have row: "(\<exists>c. validate_actual_row org codes n raw = Inr c) \<longleftrightarrow> actual_row_ok org codes raw" for n raw
    unfolding actual_row_ok_def validate_actual_row_def check_org_cell_def check_account_cell_def check_amount_cell_def
    by (auto simp: Let_def simp del: lookup_cell.simps str_simps split: option.splits sum.splits if_splits)
  moreover have "(\<exists>es. x = Inl es) \<longleftrightarrow> \<not> (\<exists>c. x = Inr c)" for x :: "row_error list + actual_row"
    by (cases x) simp_all
  ultimately show ?thesis
    by (simp only: actuals.valid_iff actuals.reported_rows list_all_length plus_1_eq_Suc)
qed

text \<open>
  Claim C21: an import of actuals replaces exactly the cycle's rows, or nothing. When it
  fails, the committed database is as it was. When it succeeds, the cycle was open, the
  cycle's committed actuals are the rows of the file, in order, each under the identifier
  of the account with its code; other cycles' actuals and every other table are as before,
  but for one audit row; and the summary counts the rows and lists the units named, sorted
  and without repetition.
\<close>

theorem import_actuals_replaces:
  assumes "store_inv E s" "cur s = com s"
  shows "case import_actuals E cid filename content u s of
      (Inl e, t) \<Rightarrow> com t = com s
    | (Inr summary, t) \<Rightarrow> \<exists>rs row c.
        get_row cycle_id cid (budget_cycles (com s)) = Some c \<and> cycle_status c = open
      \<and> read_actuals E (com s) filename content = Inr rs
      \<and> list_all2 (\<lambda>a r. ae_org_unit_id a = ar_org_id r \<and> ae_amount a = ar_amount r
            \<and> (\<exists>x \<in> set (account_codes (com s)). ac_id x = ae_account_code_id a \<and> ac_code x = ar_account_code r))
          (filter (\<lambda>a. ae_cycle_id a = cid) (actual_expenses (com t))) rs
      \<and> filter (\<lambda>a. ae_cycle_id a \<noteq> cid) (actual_expenses (com t))
          = filter (\<lambda>a. ae_cycle_id a \<noteq> cid) (actual_expenses (com s))
      \<and> com t = (com s)\<lparr>actual_expenses := actual_expenses (com t), audit_logs := audit_logs (com s) @ [row]\<rparr>
      \<and> action row = ACTUALS_IMPORT \<and> resource_id row = Some cid \<and> al_user_id row = Some (user_id u)
      \<and> rows_imported summary = length rs
      \<and> set (org_units_affected summary) = ar_org_code ` set rs
      \<and> sorted (org_units_affected summary) \<and> distinct (org_units_affected summary)"
proof -
  have fresh: "seq_fresh s" using assms(1) by (rule seq_fresh_based)
  show ?thesis
  proof (cases "fst (cycle_assert_open cid s)")
    case (Inl e)
    then show ?thesis by (simp add: import_actuals_run [OF fresh])
  next
    case (Inr x)
    then obtain c where c: "get_row cycle_id cid (budget_cycles (com s)) = Some c" "cycle_status c = open"
      using assms(2) by (auto simp: cycle_assert_open_run split: option.splits if_splits)
    show ?thesis
    proof (cases "read_actuals E (com s) filename content")
      case (Inl e)
      with Inr assms(2) show ?thesis by (simp add: import_actuals_run [OF fresh])
    next
      case rs: (Inr rs)
      let ?ids = "code_id_map (filter (\<lambda>a. ac_code a \<in> load_all_codes (com s)) (account_codes (com s)))"
      let ?new = "actual_rows cid (user_id u) (clock s) ?ids (uid_next s) rs"
      have mine: "filter (\<lambda>a. ae_cycle_id a = cid) ?new = ?new" "filter (\<lambda>a. ae_cycle_id a \<noteq> cid) ?new = []"
        by (auto simp: actual_rows_def filter_id_conv filter_empty_conv in_set_zip)
      have "list_all2 (\<lambda>a r. ae_org_unit_id a = ar_org_id r \<and> ae_amount a = ar_amount r
            \<and> (\<exists>x \<in> set (account_codes (com s)). ac_id x = ae_account_code_id a \<and> ac_code x = ar_account_code r)) ?new rs"
        using read_actuals_codes [OF rs] by (auto simp: actual_rows_def list_all2_conv_all_nth)
      with Inr rs c assms(2) mine show ?thesis
        by (auto simp: import_actuals_run [OF fresh] Let_def cur_audited order_asc_def sorted_sort_id
          intro!: exI [of _ rs])
    qed
  qed
qed


lemma import_actuals_replaces_witness:
  "\<exists>t. import_actuals env0 7 (str ''a.csv'') actuals_csv admin0 (session_of accounts_db) =
     (Inr \<lparr>is_cycle_id = 7, is_filename = str ''a.csv'', rows_imported = 1,
        org_units_affected = [str ''4023'']\<rparr>, t)
   \<and> map ae_amount (filter (\<lambda>a. ae_cycle_id a = 7) (actual_expenses (com t))) = [1250]"
proof -
  let ?s = "session_of accounts_db"
  have fresh: "seq_fresh ?s" by (rule seq_fresh_based [OF accounts_db_inv])
  have opened: "cycle_assert_open 7 ?s = (Inr (), ?s)"
    by (simp add: cycle_assert_open_run accounts_db_def get_row_def cycle0_def)
  have ok: "db_ok (accounts_db\<lparr>actual_expenses := [a]\<rparr>)" for a
    using accounts_db_inv by (simp add: store_inv_def db_ok_def constraint_defs)
  have none: "filter P (actual_expenses accounts_db) = []" for P
    by (simp add: accounts_db_def org_db_def)
  obtain t where t: "import_actuals env0 7 (str ''a.csv'') actuals_csv admin0 ?s =
      (Inr \<lparr>is_cycle_id = 7, is_filename = str ''a.csv'', rows_imported = 1,
        org_units_affected = [str ''4023'']\<rparr>, t)"
    by (simp add: import_actuals_run [OF fresh] opened read_actuals_csv Let_def none actual_rows_def ok
        order_asc_def del: str_simps)
  have "list_all2 (\<lambda>a r. ae_amount a = ar_amount r) (filter (\<lambda>a. ae_cycle_id a = 7) (actual_expenses (com t)))
      [\<lparr>ar_row = 1, ar_org_code = str ''4023'', ar_org_id = 2, ar_account_code = str ''5100'', ar_amount = 1250\<rparr>]"
    using import_actuals_replaces [OF accounts_db_inv, of 7 "str ''a.csv''" actuals_csv admin0, unfolded t]
    by (simp add: read_actuals_csv del: str_simps) (elim exE conjE, erule list_all2_mono, blast)
  then have "map ae_amount (filter (\<lambda>a. ae_cycle_id a = 7) (actual_expenses (com t))) = [1250]"
    by (auto simp: list_all2_Cons2)
  with t show ?thesis by (intro exI conjI)
qed

text \<open>
  \<^verbatim>\<open>upsert\<close> creates the account of a new code or updates the one that has it. The
  row of that code then holds the given name, category and level; an existing row keeps
  its identifier and its active flag, a new one is active; every other code's row is as
  before; one audit row says which of the two happened. With a level of at least one and
  fresh identifiers it always succeeds; if it fails, nothing was committed.
\<close>

theorem account_upsert_effect:
  assumes "store_inv E s" "cur s = com s"
  shows "case account_upsert E w u s of
      (Inl e, t) \<Rightarrow> com t = com s \<and> (aw_level w < 1 \<or> uid_next s \<in> ac_id ` set (account_codes (com s)))
    | (Inr a, t) \<Rightarrow>
        get_row ac_code (aw_code w) (account_codes (com t)) = Some a
      \<and> ac_name a = aw_name w \<and> category a = aw_category w \<and> ac_level a = aw_level w
      \<and> (\<forall>c. c \<noteq> aw_code w \<longrightarrow> get_row ac_code c (account_codes (com t)) = get_row ac_code c (account_codes (com s)))
      \<and> (case get_row ac_code (aw_code w) (account_codes (com s)) of
           None \<Rightarrow> ac_active a \<and> map action (audit_logs (com t)) = map action (audit_logs (com s)) @ [ACCOUNT_CREATE]
         | Some a0 \<Rightarrow> ac_id a = ac_id a0 \<and> ac_active a = ac_active a0
             \<and> map action (audit_logs (com t)) = map action (audit_logs (com s)) @ [ACCOUNT_UPDATE])"
proof -
  have fresh: "seq_fresh s" using assms(1) by (rule seq_fresh_based)
  have ok: "db_ok (com s)" using assms(1) by (simp add: store_inv_def)
  let ?T = "account_codes (com s)"
  have keys: "distinct (map ac_id ?T)" "distinct (map ac_code ?T)" and lv: "list_all (\<lambda>a. 1 \<le> ac_level a) ?T"
    using ok by (simp_all add: db_ok_def accounts_ok_def)
  have okd: "db_ok ((com s)\<lparr>account_codes := tbl\<rparr>) \<longleftrightarrow> accounts_ok tbl" for tbl
    using ok by (simp add: db_ok_def)
  show ?thesis
  proof (cases "get_row ac_code (aw_code w) ?T")
    case None
    then have new: "aw_code w \<notin> ac_code ` set ?T" by (simp add: get_row_None)
    from None show ?thesis
      using assms(2) keys lv new
      by (auto simp: account_upsert_run [OF fresh] upserted_def okd cur_audited get_row_snoc
          accounts_ok_def Let_def split: option.splits)
  next
    case (Some a0)
    from get_row_Some [OF Some] have a0: "a0 \<in> set ?T" "ac_code a0 = aw_code w" by simp_all
    let ?a = "a0\<lparr>ac_name := aw_name w, category := aw_category w, ac_level := aw_level w, ac_updated_at := clock s\<rparr>"
    have upd: "upd_row ac_id (ac_id a0) (\<lambda>_. ?a) ?T = upd_row ac_code (aw_code w) (\<lambda>_. ?a) ?T"
      using upd_row_by_other_key [OF keys a0(1)] a0(2) by simp
    have "map ac_id (upd_row ac_code (aw_code w) (\<lambda>_. ?a) ?T) = map ac_id ?T"
      "map ac_code (upd_row ac_code (aw_code w) (\<lambda>_. ?a) ?T) = map ac_code ?T"
      using a0 keys by (auto simp: upd_row_def dest: distinct_map_eq)
    moreover have "list_all (\<lambda>a. 1 \<le> ac_level a) (upd_row ac_code (aw_code w) (\<lambda>_. ?a) ?T)" if "1 \<le> aw_level w"
      using that lv by (auto simp: upd_row_def list_all_iff)
    ultimately have "accounts_ok (upd_row ac_code (aw_code w) (\<lambda>_. ?a) ?T)" if "1 \<le> aw_level w"
      using that keys by (simp only: accounts_ok_def)
    moreover have "aw_code w \<in> ac_code ` set ?T" using a0 by force
    ultimately show ?thesis
      using Some a0 assms(2) by (auto simp: account_upsert_run [OF fresh] upserted_def okd cur_audited upd
          get_upd_row_const Let_def intro: image_eqI)
  qed
qed

lemma account_upsert_effect_witness:
  "case account_upsert env0 \<lparr>aw_code = str ''5100'', aw_name = str ''Trips'', aw_category = operational, aw_level = 2\<rparr>
      admin0 (session_of accounts_db) of
     (Inl e, t) \<Rightarrow> False
   | (Inr a, t) \<Rightarrow> get_row ac_code (str ''5100'') (account_codes (com t)) = Some a \<and> ac_id a = 50 \<and> ac_level a = 2"
  using account_upsert_effect [OF accounts_db_inv, of
      "\<lparr>aw_code = str ''5100'', aw_name = str ''Trips'', aw_category = operational, aw_level = 2\<rparr>" admin0]
  by (auto simp: accounts_db_def account0_def get_row_def simp del: str_simps split: sum.splits prod.splits)

end
