(* ===== verification/Storage.thy ===== *)
theory Storage
  imports Audit_Log Text_Encoding
begin

text \<open>
  \<^verbatim>\<open>infra/storage\<close> and \<^verbatim>\<open>infra/crypto\<close>: the names under which uploaded and generated files are
  kept, the checks that keep a key inside the storage root, and the envelope of an
  encrypted column. Symbolic links inside the storage root are not modelled.
\<close>

section \<open>Calendar\<close>

text \<open>The year and month of a time, by days since the first of March of the year 0.\<close>

definition civil :: "stamp \<Rightarrow> int \<times> int" where
  "civil t = (let z = t div 86400000000 + 719468;
      era = z div 146097; doe = z - era * 146097;
      yoe = (doe - doe div 1460 + doe div 36524 - doe div 146096) div 365;
      doy = doe - (365 * yoe + yoe div 4 - yoe div 100);
      mp = (5 * doy + 2) div 153;
      m = (if mp < 10 then mp + 3 else mp - 9)
    in (yoe + era * 400 + (if m \<le> 2 then 1 else 0), m))"

definition zero_padded :: "nat \<Rightarrow> int \<Rightarrow> pystr" where
  "zero_padded w i = (let ds = int_text i in replicate (w - length ds) 48 @ ds)"

section \<open>Storage\<close>

definition ALLOWED_CATEGORIES :: "string list" where
  "ALLOWED_CATEGORIES = [''uploads'', ''templates'', ''exports'', ''budget_uploads'', ''personnel'', ''shared_costs'']"

definition safe_char :: "nat \<Rightarrow> bool" where
  "safe_char c \<longleftrightarrow> (65 \<le> c \<and> c \<le> 90) \<or> (97 \<le> c \<and> c \<le> 122) \<or> (48 \<le> c \<and> c \<le> 57)
     \<or> c = 46 \<or> c = 95 \<or> c = 45"

fun split_on :: "nat \<Rightarrow> pystr \<Rightarrow> pystr list" where
  "split_on sep [] = [[]]"
| "split_on sep (c # cs) = (if c = sep then [] # split_on sep cs
     else case split_on sep cs of [] \<Rightarrow> [[c]] | p # ps \<Rightarrow> (c # p) # ps)"

definition sanitize_filename :: "pystr \<Rightarrow> pystr" where
  "sanitize_filename filename =
     (if filename = [] then str ''file''
      else let base = filter (\<lambda>c. c \<noteq> 0) (last (split_on 47 (map (\<lambda>c. if c = 92 then 47 else c) filename)));
               base' = map (\<lambda>c. if c = 32 then 95 else c) (strip base);
               cleaned = map (\<lambda>c. if safe_char c then c else 95) base'
           in if cleaned = [] then str ''file'' else cleaned)"

definition validate_category :: "string \<Rightarrow> unit op" where
  "validate_category c = check (c \<in> set ALLOWED_CATEGORIES) (app_err InfraError ''SYS_002'')"

definition key_ok :: "pystr \<Rightarrow> bool" where
  "key_ok k \<longleftrightarrow> \<not> (k = [] \<or> hd k = 47 \<or> hd k = 92) \<and>
     (let parts = split_on 47 (map (\<lambda>c. if c = 92 then 47 else c) k)
      in \<not> (str ''..'' \<in> set parts \<or> [] \<in> set parts))"

definition validate_key :: "pystr \<Rightarrow> unit op" where
  "validate_key k = check (key_ok k) (app_err InfraError ''SYS_002'')"

definition hex32 :: "uuid \<Rightarrow> pystr" where
  "hex32 u = map (\<lambda>i. hex_digit (u div 16 ^ (31 - i) mod 16)) [0..<32]"

definition build_key :: "string \<Rightarrow> pystr \<Rightarrow> stamp \<Rightarrow> uuid \<Rightarrow> pystr" where
  "build_key cat filename now uid =
     (case civil now of (y, m) \<Rightarrow>
        str cat @ [47] @ zero_padded 4 y @ [47] @ zero_padded 2 m @ [47]
          @ hex32 uid @ [95] @ sanitize_filename filename)"

definition storage_save :: "env \<Rightarrow> string \<Rightarrow> pystr \<Rightarrow> bytes \<Rightarrow> pystr op" where
  "storage_save E cat filename content =
     sq (validate_category cat)
    (bnd now_utc (\<lambda>now.
     bnd new_uuid (\<lambda>uid.
       let k = build_key cat filename now uid in
       sq (validate_key k)
      (sq (check (storage_ok E) (app_err InfraError ''SYS_002''))
      (sq (modify (\<lambda>s. s\<lparr>files := AList.update k content (files s)\<rparr>))
          (ret k))))))"

definition storage_read :: "pystr \<Rightarrow> bytes op" where
  "storage_read k =
     sq (validate_key k)
    (bnd (gets (\<lambda>s. map_of (files s) k)) (\<lambda>r.
     case r of None \<Rightarrow> raise (app_err InfraError ''SYS_002'') | Some c \<Rightarrow> ret c))"

definition storage_delete :: "pystr \<Rightarrow> unit op" where
  "storage_delete k = sq (validate_key k) (modify (\<lambda>s. s\<lparr>files := AList.delete k (files s)\<rparr>))"

section \<open>Encrypted columns\<close>

text \<open>
  The envelope: the length of the key identifier in two bytes, the identifier, the nonce,
  the ciphertext with its tag. The master key was checked when the settings were loaded.
\<close>

definition ascii_bytes :: "pystr \<Rightarrow> bool" where
  "ascii_bytes b \<longleftrightarrow> list_all (\<lambda>c. c < 128) b"

definition load_aes_key :: "env \<Rightarrow> pystr option \<Rightarrow> exn + pystr \<times> bytes" where
  "load_aes_key E key_id =
     (let active = crypto_key_id (cfg E); resolved = (case key_id of None \<Rightarrow> active | Some k \<Rightarrow> k) in
      if resolved \<noteq> active then Inl (app_err InfraError ''SYS_002'')
      else Inr (resolved, crypto_key (cfg E)))"

definition encrypt_field :: "env \<Rightarrow> bytes \<Rightarrow> bytes op" where
  "encrypt_field E plaintext =
     bnd (lift (load_aes_key E None)) (\<lambda>(key_id, raw_key).
     bnd new_uuid (\<lambda>i.
       let n = nonce E i; k = length key_id in
       ret ([k div 256, k mod 256] @ key_id @ n @ aes_encrypt E raw_key n plaintext)))"

definition decrypt_field :: "env \<Rightarrow> bytes \<Rightarrow> exn + bytes" where
  "decrypt_field E buf =
     (if length buf < 2 then Inl (app_err InfraError ''SYS_002'')
      else let key_id_len = buf ! 0 * 256 + buf ! 1 in
      if length buf < 2 + key_id_len + 12 + 16 then Inl (app_err InfraError ''SYS_002'')
      else let key_id = take key_id_len (drop 2 buf) in
      if \<not> ascii_bytes key_id then Inl (app_err InfraError ''SYS_002'')
      else case load_aes_key E (Some key_id) of
        Inl e \<Rightarrow> Inl e
      | Inr (_, raw_key) \<Rightarrow>
          let nonce_start = 2 + key_id_len; nonce_end = nonce_start + 12;
              n = take 12 (drop nonce_start buf); ct = drop nonce_end buf in
          (case aes_decrypt E raw_key n ct of
             None \<Rightarrow> Inl (app_err InfraError ''SYS_002'') | Some p \<Rightarrow> Inr p))"

section \<open>Keys stay inside the storage root\<close>

lemma split_on_nonempty [simp]: "split_on sep s \<noteq> []"
  by (cases s) (auto split: list.splits)

lemma split_on_absent: "sep \<notin> set s \<Longrightarrow> split_on sep s = [s]"
  by (induction s) auto

lemma split_on_append: "sep \<notin> set s \<Longrightarrow> split_on sep (s @ sep # t) = s # split_on sep t"
  by (induction s) auto

lemma set_sanitize: "set (sanitize_filename f) \<subseteq> Collect safe_char"
  by (auto simp: sanitize_filename_def Let_def safe_char_def)

lemma sanitize_nonempty [simp]: "sanitize_filename f \<noteq> []"
  by (simp add: sanitize_filename_def Let_def)

lemma hex32_chars: "c \<in> set (hex32 u) \<Longrightarrow> (48 \<le> c \<and> c \<le> 57) \<or> (97 \<le> c \<and> c \<le> 102)"
  by (auto simp: hex32_def hex_digit_def)

lemma length_hex32 [simp]: "length (hex32 u) = 32"
  by (simp add: hex32_def)

lemma no_backslash: "92 \<notin> set s \<Longrightarrow> map (\<lambda>c. if c = 92 then 47 else c) s = s"
  by (induction s) auto

definition plain :: "pystr \<Rightarrow> bool" where
  "plain s \<longleftrightarrow> s \<noteq> [] \<and> 47 \<notin> set s \<and> 92 \<notin> set s \<and> s \<noteq> str ''..''"

lemma plain_keys: 
  assumes "plain a" "plain b" "plain c" "plain d"
  shows "key_ok (a @ [47] @ b @ [47] @ c @ [47] @ d)"
proof -
  let ?k = "a @ [47] @ b @ [47] @ c @ [47] @ d"
  have "split_on 47 ?k = [a, b, c, d]"
    using assms by (simp add: plain_def split_on_append split_on_absent)
  moreover have "map (\<lambda>c. if c = 92 then 47 else c) ?k = ?k"
    using assms by (intro no_backslash) (simp add: plain_def)
  moreover have "hd ?k \<noteq> 47" "hd ?k \<noteq> 92" "?k \<noteq> []"
    using assms by (cases a; auto simp: plain_def)+
  ultimately show ?thesis
    using assms by (auto simp: key_ok_def plain_def Let_def)
qed

lemma plain_digits: "plain (zero_padded w i)"
proof -
  have c: "c = 45 \<or> 48 \<le> c \<and> c < 58" if "c \<in> set (zero_padded w i)" for c
    using that by (auto simp: zero_padded_def int_text_def Let_def split: if_splits dest: nat_text_digits)
  then have "47 \<notin> set (zero_padded w i)" "92 \<notin> set (zero_padded w i)" "46 \<notin> set (zero_padded w i)"
    by fastforce+
  moreover have "zero_padded w i \<noteq> []" by (auto simp: zero_padded_def int_text_def Let_def)
  ultimately show ?thesis by (auto simp: plain_def)
qed

lemma plain_category: "cat \<in> set ALLOWED_CATEGORIES \<Longrightarrow> plain (str cat)"
  by (auto simp: ALLOWED_CATEGORIES_def plain_def)

lemma plain_file: "plain (hex32 u @ [95] @ sanitize_filename f)"
proof -
  have "47 \<notin> set (hex32 u)" "92 \<notin> set (hex32 u)" using hex32_chars by fastforce+
  moreover have "47 \<notin> set (sanitize_filename f)" "92 \<notin> set (sanitize_filename f)"
    using set_sanitize [of f] by (auto simp: safe_char_def)
  moreover have "hex32 u @ [95] @ sanitize_filename f \<noteq> str ''..''"
  proof
    assume "hex32 u @ [95] @ sanitize_filename f = str ''..''"
    then have "length (hex32 u @ [95] @ sanitize_filename f) = length (str ''..'')" by (rule arg_cong)
    then show False by simp
  qed
  ultimately show ?thesis by (simp add: plain_def del: str_simps)
qed

lemma build_key_ok: "cat \<in> set ALLOWED_CATEGORIES \<Longrightarrow> key_ok (build_key cat f now u)"
  using plain_keys [OF plain_category plain_digits plain_digits plain_file]
  by (simp add: build_key_def split: prod.splits)

lemma storage_save_run:
  "storage_save E cat filename content s =
    (if cat \<notin> set ALLOWED_CATEGORIES then (Inl (app_err InfraError ''SYS_002''), s)
     else let k = build_key cat filename (clock s) (uid_next s); t = s\<lparr>uid_next := Suc (uid_next s)\<rparr> in
       if storage_ok E then (Inr k, t\<lparr>files := AList.update k content (files s)\<rparr>)
       else (Inl (app_err InfraError ''SYS_002''), t))"
  by (simp add: storage_save_def validate_category_def validate_key_def act_simps build_key_ok Let_def)

lemma encrypt_field_run:
  "encrypt_field E p s = (Inr ([length (crypto_key_id (cfg E)) div 256, length (crypto_key_id (cfg E)) mod 256]
     @ crypto_key_id (cfg E) @ nonce E (uid_next s) @ aes_encrypt E (crypto_key (cfg E)) (nonce E (uid_next s)) p),
     s\<lparr>uid_next := Suc (uid_next s)\<rparr>)"
  by (simp add: encrypt_field_def load_aes_key_def act_simps Let_def)

context audited_inv
begin

lemma kept_files [preserves_intros]:
  "preserves P (storage_save E' cat f content)"
  "preserves P (encrypt_field E' p)"
  unfolding storage_save_def validate_category_def validate_key_def encrypt_field_def
  by (intro preserves_intros preserves_modify; simp)+

end

section \<open>Properties\<close>

text \<open>
  Whatever name the client gives a file, parent directories, separators of either
  kind and control characters included, the key it is saved under passes the check that
  keeps keys inside the storage root, and its last part is made of the hex identifier and
  safe characters only. The file is readable back under the key as it was saved, and no
  other stored file is touched unless the identifier was used before.
\<close>

theorem save_then_read:
  assumes "fst (storage_save E cat filename content s) = Inr k"
  shows "key_ok k \<and> fst (storage_read k (snd (storage_save E cat filename content s))) = Inr content \<and>
    list_all (\<lambda>c. safe_char c) (sanitize_filename filename) \<and>
    (\<forall>j. j \<noteq> k \<longrightarrow> map_of (files (snd (storage_save E cat filename content s))) j = map_of (files s) j)"
proof -
  from assms have cat: "cat \<in> set ALLOWED_CATEGORIES" and ok: "storage_ok E"
    and k: "k = build_key cat filename (clock s) (uid_next s)"
    by (auto simp: storage_save_run Let_def split: if_splits)
  have "map_of (AList.update k content (files s)) j = (if j = k then Some content else map_of (files s) j)" for j
    by (simp add: update_conv')
  moreover have "list_all (\<lambda>c. safe_char c) (sanitize_filename filename)"
    using set_sanitize [of filename] by (auto simp: list_all_iff)
  moreover have "key_ok k" using build_key_ok [OF cat] by (simp only: k)
  ultimately show ?thesis
    by (simp add: storage_save_run storage_read_def validate_key_def act_simps cat ok k [symmetric] Let_def)
qed

lemma save_then_read_witness:
  "\<exists>k. fst (storage_save env0 ''uploads'' (str ''../../etc/passwd'') [1, 2] (session_of empty_db)) = Inr k \<and> key_ok k"
proof -
  have "fst (storage_save env0 ''uploads'' (str ''../../etc/passwd'') [1, 2] (session_of empty_db))
      = Inr (build_key ''uploads'' (str ''../../etc/passwd'') 86400000000 1000)"
    by (simp add: storage_save_run ALLOWED_CATEGORIES_def Let_def)
  from save_then_read [OF this] this show ?thesis by blast
qed

text \<open>
  An encrypted column decrypts to what was encrypted, for every cipher that
  decrypts its own output under the same key and nonce and adds a tag, whatever the key
  identifier's text, provided it is ASCII and its length fits in two bytes.
\<close>

theorem decrypt_encrypted:
  assumes "aes_decrypt E (crypto_key (cfg E)) n (aes_encrypt E (crypto_key (cfg E)) n p) = Some p"
    and "16 \<le> length (aes_encrypt E (crypto_key (cfg E)) n p)"
    and "n = nonce E (uid_next s)" "length n = 12"
    and "ascii_bytes (crypto_key_id (cfg E))" "length (crypto_key_id (cfg E)) < 65536"
    and "fst (encrypt_field E p s) = Inr envelope"
  shows "decrypt_field E envelope = Inr p"
proof -
  let ?id = "crypto_key_id (cfg E)" and ?ct = "aes_encrypt E (crypto_key (cfg E)) n p"
  have e: "envelope = length ?id div 256 # length ?id mod 256 # ?id @ n @ ?ct"
    using assms(3,7) by (simp add: encrypt_field_run)
  have len: "envelope ! 0 * 256 + envelope ! 1 = length ?id" by (simp add: e)
  have prefix: "drop (length pre) (pre @ rest) = rest" for pre rest :: bytes by simp
  have "2 + length ?id + 12 = length (length ?id div 256 # length ?id mod 256 # ?id @ n)"
    using assms(4) by simp
  moreover have "envelope = (length ?id div 256 # length ?id mod 256 # ?id @ n) @ ?ct"
    by (simp add: e)
  ultimately have "drop (2 + length ?id + 12) envelope = ?ct" by (simp only: prefix)
  moreover have "take (length ?id) (drop 2 envelope) = ?id" "take 12 (drop (2 + length ?id) envelope) = n"
    using assms(4) by (simp_all add: e)
  moreover have "\<not> length envelope < 2 + length ?id + 12 + 16" "\<not> length envelope < 2"
    using assms(2,4) by (simp_all add: e)
  ultimately show ?thesis
    using assms(1,5)
    by (simp only: decrypt_field_def len Let_def if_False) (simp add: load_aes_key_def)
qed

lemma decrypt_encrypted_witness:
  "\<exists>b. fst (encrypt_field env0 [7, 8] (session_of empty_db)) = Inr b \<and> decrypt_field env0 b = Inr [7, 8]"
proof -
  obtain b where b: "fst (encrypt_field env0 [7, 8] (session_of empty_db)) = Inr b"
    by (simp add: encrypt_field_run)
  have "decrypt_field env0 b = Inr [7, 8]"
    by (rule decrypt_encrypted [OF _ _ refl _ _ _ b]) (simp_all add: ascii_bytes_def)
  with b show ?thesis by blast
qed

end
