(* ===== verification/Versions.thy ===== *)
theory Versions
  imports Accounts Storage
begin

text \<open>
  What the three upload services share: \<^verbatim>\<open>next_version\<close> of \<^verbatim>\<open>infra/db/helpers.py\<close>, the query for
  the latest version of a group, and the contract between them (locale \<open>version_store\<close>):
  within its group a new row's version lies above every other, so that it is the latest, and
  the versions of a group are 1, 2, 3, ... in the order they were stored.
\<close>

section \<open>The queries\<close>

text \<open>\<open>SELECT coalesce(max(version), 0)\<close> over the selected rows, plus one.\<close>

definition next_version :: "('r \<Rightarrow> int) \<Rightarrow> ('r \<Rightarrow> bool) \<Rightarrow> 'r list \<Rightarrow> int" where
  "next_version ver sel rs =
     (case map ver (filter sel rs) of [] \<Rightarrow> 0 | v # vs \<Rightarrow> fold max vs v) + 1"

text \<open>\<open>ORDER BY version DESC LIMIT 1\<close>.\<close>

definition latest_version :: "('r \<Rightarrow> int) \<Rightarrow> ('r \<Rightarrow> bool) \<Rightarrow> 'r list \<Rightarrow> 'r option" where
  "latest_version ver sel rs = first_row (order_desc ver (filter sel rs))"

lemma fold_max: "fold max vs v \<in> insert v (set vs) \<and> (\<forall>x \<in> insert v (set vs). x \<le> fold max vs v)"
  for v :: int
proof (induction vs arbitrary: v)
  case (Cons a vs)
  from Cons.IH [of "max a v"] show ?case by (auto simp: max_def split: if_splits)
qed simp

section \<open>The contract\<close>

text \<open>The versions of every group are 1, 2, 3, ... in insertion order.\<close>

definition numbered :: "('r \<Rightarrow> 'k) \<Rightarrow> ('r \<Rightarrow> int) \<Rightarrow> 'r list \<Rightarrow> bool" where
  "numbered grp ver rs \<longleftrightarrow> (\<forall>k. map ver (filter (\<lambda>r. grp r = k) rs) =
     map int [1..<Suc (length (filter (\<lambda>r. grp r = k) rs))])"

locale version_store =
  fixes grp :: "'r \<Rightarrow> 'k"
    and ver :: "'r \<Rightarrow> int"
    and next_of :: "'k \<Rightarrow> 'r list \<Rightarrow> int"
    and latest_of :: "'k \<Rightarrow> 'r list \<Rightarrow> 'r option"
  assumes next_first: "k \<notin> grp ` set rs \<Longrightarrow> next_of k rs = 1"
    and next_after: "r \<in> set rs \<Longrightarrow> \<exists>m \<in> set rs. grp m = grp r \<and> next_of (grp r) rs = ver m + 1 \<and> ver r \<le> ver m"
    and latest_None: "latest_of k rs = None \<longleftrightarrow> k \<notin> grp ` set rs"
    and latest_Some: "latest_of k rs = Some r \<Longrightarrow>
      r \<in> set rs \<and> grp r = k \<and> (\<forall>x \<in> set rs. grp x = k \<longrightarrow> ver x \<le> ver r)"
    and latest_local: "latest_of k rs = latest_of k (filter (\<lambda>r. grp r = k) rs)"
begin

lemma below_next: "r \<in> set rs \<Longrightarrow> ver r < next_of (grp r) rs"
  using next_after by fastforce

lemma numbered_range:
  assumes "numbered grp ver rs" "r \<in> set rs"
  shows "1 \<le> ver r \<and> ver r \<le> int (length (filter (\<lambda>x. grp x = grp r) rs))"
proof -
  have "ver r \<in> set (map ver (filter (\<lambda>x. grp x = grp r) rs))" using assms(2) by simp
  moreover have "map ver (filter (\<lambda>x. grp x = grp r) rs) = map int [1..<Suc (length (filter (\<lambda>x. grp x = grp r) rs))]"
    using assms(1) unfolding numbered_def by blast
  ultimately have "ver r \<in> set (map int [1..<Suc (length (filter (\<lambda>x. grp x = grp r) rs))])" by simp
  then show ?thesis by auto
qed

lemma next_numbered:
  assumes "numbered grp ver rs"
  shows "next_of k rs = int (length (filter (\<lambda>r. grp r = k) rs)) + 1"
proof (cases "k \<in> grp ` set rs")
  case False
  then have "filter (\<lambda>r. grp r = k) rs = []" by (auto simp: filter_empty_conv)
  with False show ?thesis by (simp add: next_first)
next
  case True
  let ?f = "filter (\<lambda>r. grp r = k) rs"
  have vs: "map ver ?f = map int [1..<Suc (length ?f)]" using assms by (simp only: numbered_def)
  from True have "?f \<noteq> []" by (auto simp: filter_empty_conv)
  then have "int (length ?f) \<in> set (map ver ?f)" unfolding vs by (cases ?f) auto
  then obtain r where r: "r \<in> set rs" "grp r = k" "ver r = int (length ?f)" by auto
  from next_after [OF r(1)] obtain m where m: "m \<in> set rs" "grp m = k" "next_of k rs = ver m + 1" "ver r \<le> ver m"
    using r(2) by auto
  with numbered_range [OF assms m(1)] r(3) show ?thesis by simp
qed

lemma numbered_append:
  assumes "numbered grp ver rs" "ver r = next_of (grp r) rs"
  shows "numbered grp ver (rs @ [r])"
  using assms next_numbered [OF assms(1), of "grp r"]
  by (simp add: numbered_def)

text \<open>The row just stored is its group's latest; other groups keep theirs.\<close>

lemma latest_append:
  assumes "ver r = next_of (grp r) rs"
  shows "latest_of (grp r) (rs @ [r]) = Some r"
proof (cases "latest_of (grp r) (rs @ [r])")
  case None
  then show ?thesis by (simp add: latest_None)
next
  case (Some x)
  from latest_Some [OF Some] have x: "x \<in> set (rs @ [r])" "grp x = grp r" "ver r \<le> ver x" by auto
  have "x \<notin> set rs" using below_next [of x rs] x assms by auto
  with x Some show ?thesis by simp
qed

lemma latest_append_other: "k \<noteq> grp r \<Longrightarrow> latest_of k (rs @ [r]) = latest_of k rs"
  by (subst (1 2) latest_local) simp

end

section \<open>The queries satisfy it\<close>

lemma version_store_queries:
  "version_store grp ver (\<lambda>k. next_version ver (\<lambda>r. grp r = k)) (\<lambda>k. latest_version ver (\<lambda>r. grp r = k))"
  for grp :: "'r \<Rightarrow> 'k"
proof
  fix k rs
  show "next_version ver (\<lambda>r. grp r = k) rs = 1" if "k \<notin> grp ` set rs"
  proof -
    have "filter (\<lambda>r. grp r = k) rs = []" using that by (auto simp: filter_empty_conv)
    then show ?thesis by (simp add: next_version_def)
  qed
  show "(latest_version ver (\<lambda>r. grp r = k) rs = None) = (k \<notin> grp ` set rs)"
    unfolding latest_version_def first_order_desc_None by (auto simp: filter_empty_conv)
  show "r \<in> set rs \<and> grp r = k \<and> (\<forall>x \<in> set rs. grp x = k \<longrightarrow> ver x \<le> ver r)"
    if "latest_version ver (\<lambda>r. grp r = k) rs = Some r" for r
    using first_order_desc_Some [OF that [unfolded latest_version_def]] by auto
  show "latest_version ver (\<lambda>r. grp r = k) rs =
      latest_version ver (\<lambda>r. grp r = k) (filter (\<lambda>r. grp r = k) rs)"
    by (simp add: latest_version_def)
next
  fix r :: 'r and rs
  assume "r \<in> set rs"
  then have r: "ver r \<in> set (map ver (filter (\<lambda>x. grp x = grp r) rs))" by simp
  then obtain v vs where vs: "map ver (filter (\<lambda>x. grp x = grp r) rs) = v # vs"
    by (cases "map ver (filter (\<lambda>x. grp x = grp r) rs)") auto
  have "fold max vs v \<in> set (v # vs)" "ver r \<le> fold max vs v"
    using fold_max [of vs v] r unfolding vs by auto
  moreover from this(1) have "fold max vs v \<in> set (map ver (filter (\<lambda>x. grp x = grp r) rs))" by (simp only: vs)
  then obtain m where "m \<in> set rs" "grp m = grp r" "ver m = fold max vs v" by auto
  ultimately show "\<exists>m \<in> set rs. grp m = grp r \<and> next_version ver (\<lambda>x. grp x = grp r) rs = ver m + 1 \<and> ver r \<le> ver m"
    by (intro bexI [of _ m]) (simp_all add: next_version_def vs)
qed

section \<open>Fresh identifiers\<close>

text \<open>Every upload and every line's upload identifier was drawn before: \<open>uuid4\<close> does not repeat.\<close>

definition uploads_fresh :: "session \<Rightarrow> bool" where
  "uploads_fresh s \<longleftrightarrow>
     (\<forall>u \<in> set (budget_uploads (cur s)). bu_id u < uid_next s)
   \<and> (\<forall>l \<in> set (budget_lines (cur s)). bl_upload_id l < uid_next s)
   \<and> (\<forall>u \<in> set (personnel_uploads (cur s)) \<union> set (shared_uploads (cur s)). iu_id u < uid_next s)
   \<and> (\<forall>l \<in> set (personnel_lines (cur s)) \<union> set (shared_lines (cur s)). il_upload_id l < uid_next s)"

text \<open>The audit row after a commit, committed in turn.\<close>

lemma record_commit:
  assumes "seq_fresh (t\<lparr>cur := d\<rparr>)" "db_ok d"
  shows "bnd (audit_record E act rt rid uid None det) (\<lambda>_. sq commit m) (t\<lparr>cur := d, com := d\<rparr>)
    = m (audited E act rt rid uid det (t\<lparr>cur := d\<rparr>))"
proof -
  have row: "audit_row E act rt rid uid None det (t\<lparr>cur := d, com := d\<rparr>)
      = audit_row E act rt rid uid None det (t\<lparr>cur := d\<rparr>)"
    using audit_row_com [of E act rt rid uid None det d "t\<lparr>cur := d\<rparr>"] by simp
  have swap: "t\<lparr>cur := a, seq_next := n, uid_next := i, com := b\<rparr> = t\<lparr>cur := a, com := b, seq_next := n, uid_next := i\<rparr>"
    for a n i b by simp
  have "seq_fresh (t\<lparr>cur := d, com := d\<rparr>)" using assms(1) by (simp add: seq_fresh_def)
  with assms show ?thesis
    by (simp add: act_simps run_audit_record audited_def Let_def recorded_def row)
      (use db_ok_audit [OF assms(1), of "audit_row E act rt rid uid None det (t\<lparr>cur := d\<rparr>)"] in \<open>simp add: swap\<close>)
qed

lemmas record_commit_case = record_commit [unfolded run_bnd]

lemma audited_com: "\<exists>row. com (audited E act rt rid uid det (t\<lparr>cur := d\<rparr>)) = d\<lparr>audit_logs := audit_logs d @ [row]\<rparr>
    \<and> action row = act \<and> resource_id row = rid \<and> al_user_id row = uid"
  by (rule exI [of _ "audit_row E act rt rid uid None det (t\<lparr>cur := d\<rparr>)"]) (simp add: cur_audited)

text \<open>A \<open>Decimal\<close> with two places, as text.\<close>

definition cents_text :: "cents \<Rightarrow> pystr" where
  "cents_text c = decimal_text (Finite (c < 0) (nat \<bar>c\<bar>) (- 2))"

section \<open>The identifiers of the accounts that validated rows name\<close>

text \<open>\<open>account_code_id_map\<close>, of which each of the three packages has a copy.\<close>

definition account_ids :: "db \<Rightarrow> pystr set \<Rightarrow> pystr \<Rightarrow> uuid option" where
  "account_ids d codes = code_id_map (filter (\<lambda>a. ac_code a \<in> codes) (account_codes d))"

lemma account_ids_known: "x \<in> codes \<Longrightarrow> x \<in> codes_by_category c d \<Longrightarrow> account_ids d codes x \<noteq> None"
  unfolding account_ids_def
  by (rule code_id_map_known) (force simp: codes_by_category_def load_all_codes_def)+

lemma account_ids_account:
  assumes "accounts_ok (account_codes d)" "account_ids d codes x = Some i" "x \<in> codes_by_category c d"
  shows "\<exists>a \<in> set (account_codes d). ac_code a = x \<and> ac_id a = i \<and> category a = c"
proof -
  have "(x, i) \<in> set (rev (map (\<lambda>a. (ac_code a, ac_id a)) (filter (\<lambda>a. ac_code a \<in> codes) (account_codes d))))"
    using assms(2) unfolding account_ids_def code_id_map_def by (rule map_of_SomeD)
  then obtain a where a: "a \<in> set (account_codes d)" "ac_code a = x" "ac_id a = i" by auto
  moreover from assms(3) obtain b where "b \<in> set (account_codes d)" "ac_code b = x" "category b = c"
    by (auto simp: codes_by_category_def)
  ultimately show ?thesis using assms(1) by (metis accounts_ok_def distinct_map_eq)
qed

lemma account_ids_other:
  assumes "accounts_ok (account_codes d)" "account_ids d codes x \<noteq> None" "x \<in> codes_by_category c d"
    and "a \<in> set (account_codes d)" "ac_code a \<noteq> x"
  shows "the (account_ids d codes x) \<noteq> ac_id a"
proof -
  from assms(2) obtain i where i: "account_ids d codes x = Some i" by auto
  from account_ids_account [OF assms(1) i assms(3)] obtain b where "b \<in> set (account_codes d)" "ac_code b = x" "ac_id b = i"
    by blast
  with assms(1,4,5) i show ?thesis by (metis accounts_ok_def distinct_map_eq option.sel)
qed

section \<open>Sums over distinct keys\<close>

lemma filter_key_distinct: "distinct (map f xs) \<Longrightarrow>
    filter (\<lambda>x. f x = k) xs = (case find (\<lambda>x. f x = k) xs of None \<Rightarrow> [] | Some x \<Rightarrow> [x])"
proof (induction xs)
  case (Cons a xs)
  show ?case
  proof (cases "f a = k")
    case True
    with Cons.prems have "filter (\<lambda>x. f x = k) xs = []" by (auto simp: filter_empty_conv image_iff)
    with True show ?thesis by simp
  qed (use Cons in simp)
qed simp

lemma mem_filter_image: "k \<in> f ` set xs \<longleftrightarrow> filter (\<lambda>x. f x = k) xs \<noteq> []"
  by (auto simp: filter_empty_conv)

section \<open>The scope check of the upload routes\<close>

definition assert_scope :: "user \<Rightarrow> uuid \<Rightarrow> unit op" where
  "assert_scope u unit_id = bnd (query (scoped_org_units u)) (\<lambda>sc.
     check (in_scope sc unit_id) (app_err ForbiddenError ''RBAC_002''))"

lemma assert_scope_run: "assert_scope u unit_id s =
    (if in_scope (scoped_org_units u (cur s)) unit_id then Inr () else Inl (app_err ForbiddenError ''RBAC_002''), s)"
  by (simp add: assert_scope_def act_simps)

end
