(* ===== verification/Notifications.thy ===== *)
theory Notifications
  imports Audit_Log Rbac Text_Encoding
begin

text \<open>
  \<^verbatim>\<open>infra/email\<close> and \<^verbatim>\<open>domain/notifications/\<close>: the e-mail client with its strict templates, the
  notification service (send, batch, resend, the failed list), and the resubmit requests.
  A template's variables are those of its file; rendering with one of them missing raises,
  and what it raises is not the \<open>InfraError\<close> the service expects from the relay.
\<close>

section \<open>The e-mail client\<close>

definition vars_cycle_opened :: "string list" where
  "vars_cycle_opened = [''cycle_fiscal_year'', ''deadline'', ''cycle_url'']"

definition vars_upload_confirmed :: "string list" where
  "vars_upload_confirmed = [''org_unit_name'', ''version'', ''filename'', ''uploaded_at'', ''upload_url'']"

definition vars_resubmit_requested :: "string list" where
  "vars_resubmit_requested =
     [''org_unit_name'', ''cycle_fiscal_year'', ''requested_by'', ''reason'', ''template_url'']"

definition vars_deadline_reminder :: "string list" where
  "vars_deadline_reminder = [''cycle_fiscal_year'', ''days_remaining'', ''deadline'', ''upload_url'']"

definition vars_personnel_imported :: "string list" where
  "vars_personnel_imported = [''fiscal_year'', ''uploader_name'', ''affected_count'']"

definition vars_shared_cost_imported :: "string list" where
  "vars_shared_cost_imported = [''org_unit_name'', ''fiscal_year'', ''diff_summary'']"

definition vars_report_export_ready :: "string list" where
  "vars_report_export_ready = [''cycle_fiscal_year'', ''file_url'', ''row_count'', ''expires_at'']"

lemmas template_vars_defs = vars_cycle_opened_def vars_upload_confirmed_def vars_resubmit_requested_def
  vars_deadline_reminder_def vars_personnel_imported_def vars_shared_cost_imported_def
  vars_report_export_ready_def

fun template_vars :: "notification_template \<Rightarrow> string list" where
  "template_vars CYCLE_OPENED = vars_cycle_opened"
| "template_vars UPLOAD_CONFIRMED = vars_upload_confirmed"
| "template_vars RESUBMIT_REQUESTED = vars_resubmit_requested"
| "template_vars DEADLINE_REMINDER = vars_deadline_reminder"
| "template_vars PERSONNEL_IMPORTED = vars_personnel_imported"
| "template_vars SHARED_COST_IMPORTED = vars_shared_cost_imported"
| "template_vars REPORT_EXPORT_READY = vars_report_export_ready"

type_synonym context_dict = "(string \<times> json) list"

definition renders :: "notification_template \<Rightarrow> context_dict \<Rightarrow> bool" where
  "renders t ctx \<longleftrightarrow> set (template_vars t) \<subseteq> fst ` set ctx"

text \<open>\<open>EmailClient.send\<close>: render, then hand the message to the relay.\<close>

definition email_send :: "env \<Rightarrow> notification_template \<Rightarrow> pystr \<Rightarrow> context_dict \<Rightarrow> unit op" where
  "email_send E t recipient ctx =
     sq (check (renders t ctx) Undefined_error)
    (sq (check (smtp E t recipient) (app_err InfraError ''NOTIFY_001''))
        (modify (\<lambda>s. s\<lparr>mails := mails s @ [(t, recipient)]\<rparr>)))"

section \<open>NotificationRepo\<close>

definition put_notification :: "notification \<Rightarrow> unit op" where
  "put_notification n =
     update (\<lambda>d. d\<lparr>notifications := upd_row notif_id (notif_id n) (\<lambda>_. n) (notifications d)\<rparr>)"

definition notif_insert :: "notification \<Rightarrow> unit op" where
  "notif_insert n = sq (update (\<lambda>d. d\<lparr>notifications := notifications d @ [n]\<rparr>)) flush"

definition notif_get :: "uuid \<Rightarrow> notification option op" where
  "notif_get i = query (\<lambda>d. get_row notif_id i (notifications d))"

definition mark_sent :: "uuid \<Rightarrow> stamp \<Rightarrow> unit op" where
  "mark_sent i t = bnd (notif_get i) (\<lambda>row.
     case row of None \<Rightarrow> ret ()
     | Some n \<Rightarrow> sq (put_notification (n\<lparr>notif_status := sent, sent_at := Some t, bounce_reason := None\<rparr>)) flush)"

definition mark_failed :: "uuid \<Rightarrow> exn \<Rightarrow> unit op" where
  "mark_failed i e = bnd (notif_get i) (\<lambda>row.
     case row of None \<Rightarrow> ret ()
     | Some n \<Rightarrow> sq (put_notification (n\<lparr>notif_status := failed, bounce_reason := Some e\<rparr>)) flush)"

definition list_failed :: "nat \<Rightarrow> db \<Rightarrow> notification list" where
  "list_failed limit d = take limit
     (order_desc notif_created_at (filter (\<lambda>n. notif_status n = failed) (notifications d)))"

definition list_resubmits :: "uuid \<Rightarrow> uuid \<Rightarrow> db \<Rightarrow> resubmit_request list" where
  "list_resubmits cid unit_id d = order_desc requested_at
     (filter (\<lambda>r. rr_cycle_id r = cid \<and> rr_org_unit_id r = unit_id) (resubmit_requests d))"

section \<open>NotificationService\<close>

definition build_queued :: "notification_template \<Rightarrow> uuid \<Rightarrow> (string \<times> uuid) option \<Rightarrow> uuid \<Rightarrow> stamp
    \<Rightarrow> notification" where
  "build_queued t recipient related i now = \<lparr>notif_id = i, recipient_id = recipient, notif_type = t,
     notif_status = queued, related_resource = related, bounce_reason = None,
     notif_created_at = now, sent_at = None\<rparr>"

text \<open>The row object as it is after the calls above: it is the row in the session.\<close>

definition current_notification :: "notification \<Rightarrow> notification op" where
  "current_notification n = bnd (notif_get (notif_id n)) (\<lambda>row.
     ret (case row of None \<Rightarrow> n | Some m \<Rightarrow> m))"

definition notify_send :: "env \<Rightarrow> notification_template \<Rightarrow> uuid \<Rightarrow> pystr \<Rightarrow> context_dict
    \<Rightarrow> (string \<times> uuid) option \<Rightarrow> notification op" where
  "notify_send E t recipient email ctx related =
     bnd now_utc (\<lambda>created.
     bnd new_uuid (\<lambda>i.
       let n = build_queued t recipient related i created in
       sq (notif_insert n)
      (bnd (attempt (email_send E t email ctx)) (\<lambda>outcome.
         case outcome of
           Inl e \<Rightarrow>
             if is_infra_error e then
               sq (mark_failed i e)
              (bnd (audit_record E NOTIFY_FAILED ''notification'' (Some i) (Some recipient) None JNull) (\<lambda>_.
                 current_notification n))
             else raise e
         | Inr _ \<Rightarrow>
             bnd now_utc (\<lambda>now.
             sq (mark_sent i now)
            (bnd (audit_record E NOTIFY_SENT ''notification'' (Some i) (Some recipient) None JNull) (\<lambda>_.
               current_notification n)))))))"

definition send_batch :: "env \<Rightarrow> notification_template \<Rightarrow> (uuid \<times> pystr) list \<Rightarrow> context_dict
    \<Rightarrow> (string \<times> uuid) option \<Rightarrow> notification list op" where
  "send_batch E t recipients ctx related =
     mapA (\<lambda>(uid, email). notify_send E t uid email ctx related) recipients"

definition resend :: "env \<Rightarrow> uuid \<Rightarrow> pystr \<Rightarrow> notification op" where
  "resend E i email = bnd (notif_get i) (\<lambda>row.
     case row of
       None \<Rightarrow> raise (app_err AppError ''NOTIFY_003'')
     | Some n \<Rightarrow>
         bnd (attempt (email_send E (notif_type n) email [])) (\<lambda>outcome.
           case outcome of
             Inl e \<Rightarrow>
               if is_infra_error e then
                 sq (mark_failed i e)
                (bnd (audit_record E NOTIFY_RESENT ''notification'' (Some i) (Some (recipient_id n)) None JNull) (\<lambda>_.
                   current_notification n))
               else raise e
           | Inr _ \<Rightarrow>
               bnd now_utc (\<lambda>now.
               sq (mark_sent i now)
              (bnd (audit_record E NOTIFY_RESENT ''notification'' (Some i) (Some (recipient_id n)) None JNull) (\<lambda>_.
                 current_notification n)))))"

text \<open>The route: resend and commit.\<close>

definition notification_roles :: "role list" where
  "notification_roles = [FinanceAdmin, SystemAdmin]"

definition resend_notification :: "env \<Rightarrow> uuid \<Rightarrow> pystr \<Rightarrow> user \<Rightarrow> notification op" where
  "resend_notification E i email u = get_session (bnd (require_role notification_roles u) (\<lambda>_.
     bnd (resend E i email) (\<lambda>n. sq commit (ret n))))"

definition list_failed_notifications :: "user \<Rightarrow> notification list op" where
  "list_failed_notifications u = get_session (bnd (require_role notification_roles u) (\<lambda>_. query (list_failed 100)))"

section \<open>ResubmitRequestService\<close>

text \<open>
  \<open>create\<close>: commit the request's row first, then notify, then record and commit. The context
  is the dictionary literal updated with the caller's extra entries.
\<close>

definition resubmit_create :: "env \<Rightarrow> uuid \<Rightarrow> uuid \<Rightarrow> uuid \<Rightarrow> pystr \<Rightarrow> uuid \<Rightarrow> pystr \<Rightarrow> int option
    \<Rightarrow> context_dict \<Rightarrow> resubmit_request op" where
  "resubmit_create E cid unit_id requester reason recipient email target extra =
     bnd new_uuid (\<lambda>i.
     bnd now_utc (\<lambda>now.
       let rr = \<lparr>rr_id = i, rr_cycle_id = cid, rr_org_unit_id = unit_id, requester_id = requester,
             target_version = target, rr_reason = reason, requested_at = now\<rparr> in
       sq (catch (sq (update (\<lambda>d. d\<lparr>resubmit_requests := resubmit_requests d @ [rr]\<rparr>)) (sq flush commit))
            (\<lambda>e. if e = Integrity_error then sq rollback (raise (app_err AppError ''NOTIFY_002'')) else raise e))
      (bnd (notify_send E RESUBMIT_REQUESTED recipient email
             ([(''reason'', JText reason), (''requested_by'', JUuid requester),
               (''target_version'', case target of None \<Rightarrow> JNull | Some v \<Rightarrow> JInt v)] @ extra)
             (Some (''resubmit_request'', i))) (\<lambda>_.
       bnd (audit_record E RESUBMIT_REQUEST ''resubmit_request'' (Some i) (Some requester) None
              (JObj [(''cycle_id'', JUuid cid), (''org_unit_id'', JUuid unit_id),
                     (''target_version'', case target of None \<Rightarrow> JNull | Some v \<Rightarrow> JInt v)])) (\<lambda>_.
       sq commit (ret rr))))))"

text \<open>The route, which passes no extra context.\<close>

definition resubmit_roles :: "role list" where
  "resubmit_roles = [FinanceAdmin, UplineReviewer, CompanyReviewer]"

text \<open>The requester is a field of the body; the user of the request is only checked for a role.\<close>

definition create_resubmit_request :: "env \<Rightarrow> uuid \<Rightarrow> uuid \<Rightarrow> uuid \<Rightarrow> pystr \<Rightarrow> uuid \<Rightarrow> pystr
    \<Rightarrow> int option \<Rightarrow> user \<Rightarrow> resubmit_request op" where
  "create_resubmit_request E cid unit_id requester reason recipient email target u =
     get_session (bnd (require_role resubmit_roles u) (\<lambda>_.
       resubmit_create E cid unit_id requester reason recipient email target []))"

definition list_resubmit_requests :: "uuid \<Rightarrow> uuid \<Rightarrow> user \<Rightarrow> resubmit_request list op" where
  "list_resubmit_requests cid unit_id u = get_session (bnd (require_role resubmit_roles u) (\<lambda>_.
     query (list_resubmits cid unit_id)))"

section \<open>What the operations do\<close>

definition notif_fresh :: "session \<Rightarrow> bool" where
  "notif_fresh s \<longleftrightarrow> (\<forall>n \<in> set (notifications (cur s)). notif_id n < uid_next s)"

definition with_notification :: "notification \<Rightarrow> session \<Rightarrow> session" where
  "with_notification n s = s\<lparr>uid_next := Suc (uid_next s),
     cur := (cur s)\<lparr>notifications := notifications (cur s) @ [n]\<rparr>\<rparr>"

lemma db_ok_notification:
  assumes "notif_fresh s" "notif_id n = uid_next s"
  shows "db_ok ((cur s)\<lparr>notifications := notifications (cur s) @ [n]\<rparr>) = db_ok (cur s)"
  using assms by (auto simp: db_ok_def notif_fresh_def)

lemma new_notif_id: "notif_fresh s \<Longrightarrow> uid_next s \<notin> notif_id ` set (notifications (cur s))"
  by (auto simp: notif_fresh_def)

lemma with_notification_simps [simp]:
  "com (with_notification n s) = com s" "mails (with_notification n s) = mails s"
  "files (with_notification n s) = files s" "clock (with_notification n s) = clock s"
  "seq_next (with_notification n s) = seq_next s" "uid_next (with_notification n s) = Suc (uid_next s)"
  "cur (with_notification n s) = (cur s)\<lparr>notifications := notifications (cur s) @ [n]\<rparr>"
  "seq_fresh (with_notification n s) = seq_fresh s"
  by (simp_all add: with_notification_def seq_fresh_def)

lemma build_queued_simps [simp]:
  "notif_id (build_queued t uid rel i now) = i" "notif_status (build_queued t uid rel i now) = queued"
  "recipient_id (build_queued t uid rel i now) = uid" "notif_type (build_queued t uid rel i now) = t"
  by (simp_all add: build_queued_def)

lemma notify_send_run:
  assumes "seq_fresh s" "notif_fresh s" "db_ok (cur s)"
  shows "notify_send E t uid email ctx rel s =
    (let n = build_queued t uid rel (uid_next s) (clock s);
         ok = n\<lparr>notif_status := sent, sent_at := Some (clock s), bounce_reason := None\<rparr>;
         bad = n\<lparr>notif_status := failed, bounce_reason := Some (app_err InfraError ''NOTIFY_001'')\<rparr>
     in if \<not> renders t ctx then (Inl Undefined_error, with_notification n s)
        else if smtp E t email
        then (Inr ok, recorded E NOTIFY_SENT ''notification'' (Some (uid_next s)) (Some uid) JNull
                ((with_notification ok s)\<lparr>mails := mails s @ [(t, email)]\<rparr>))
        else (Inr bad, recorded E NOTIFY_FAILED ''notification'' (Some (uid_next s)) (Some uid) JNull
                (with_notification bad s)))"
proof -
  have fresh: "seq_fresh (s\<lparr>uid_next := i, cur := (cur s)\<lparr>notifications := x\<rparr>\<rparr>)"
    "seq_fresh (s\<lparr>uid_next := i, cur := (cur s)\<lparr>notifications := x\<rparr>, mails := m\<rparr>)"
    "seq_fresh (s\<lparr>uid_next := i, mails := m, cur := (cur s)\<lparr>notifications := x\<rparr>\<rparr>)" for i x m
    using assms(1) by (simp_all add: seq_fresh_def)
  have swap: "s\<lparr>uid_next := i, mails := m, cur := d\<rparr> = s\<lparr>uid_next := i, cur := d, mails := m\<rparr>" for i m d
    by simp
  note new = new_notif_id [OF assms(2)]
  show ?thesis
    using assms(3)
    by (simp add: notify_send_def notif_insert_def email_send_def mark_sent_def mark_failed_def
        current_notification_def put_notification_def notif_get_def act_simps Let_def
        db_ok_notification [OF assms(2)] get_row_new [OF new] upd_row_new [OF new]
        run_audit_record fresh with_notification_def swap)
qed

context audited_inv
begin

lemma kept_mails [preserves_intros]: "preserves P (email_send E' t a ctx)"
  unfolding email_send_def
  by (intro preserves_intros preserves_modify) (simp)

lemma kept_notify [preserves_intros]:
  "preserves P (notif_insert n)"
  "preserves P (notif_get i)"
  "preserves P (put_notification n)"
  "preserves P (mark_sent i now)"
  "preserves P (mark_failed i e)"
  "preserves P (current_notification n)"
  unfolding notif_insert_def notif_get_def put_notification_def mark_sent_def mark_failed_def
    current_notification_def
  by (intro preserves_intros; simp)+

lemma kept_notify_services [preserves_intros]:
  "preserves P (notify_send E t uid a ctx rel)"
  "preserves P (resend E i a)"
  unfolding notify_send_def resend_def
  by (intro preserves_intros; simp)+

lemma kept_send_batch [preserves_intros]: "preserves P (send_batch E t rs ctx rel)"
  unfolding send_batch_def by (intro preserves_intros)

lemma kept_resubmit [preserves_intros]:
  "preserves P (resubmit_create E cid unit_id requester reason recipient a target extra)"
  unfolding resubmit_create_def by (intro preserves_intros; simp)

end

section \<open>Properties\<close>

text \<open>
  A sent notification settles. When the context has every variable of the template
  and the session accepts its rows, \<open>send\<close> does not raise, whatever the relay does: the row
  it adds ends as sent exactly if the relay accepted the message, as failed otherwise,
  never as queued; a message went out exactly in the first case; and one audit row says
  which it was.
\<close>

theorem send_settles:
  assumes "seq_fresh s" "notif_fresh s" "db_ok (cur s)" and "renders t ctx"
  shows "\<exists>n row. fst (notify_send E t uid email ctx rel s) = Inr n \<and>
    notif_status n = (if smtp E t email then sent else failed) \<and>
    notifications (cur (snd (notify_send E t uid email ctx rel s))) = notifications (cur s) @ [n] \<and>
    mails (snd (notify_send E t uid email ctx rel s)) =
      mails s @ (if smtp E t email then [(t, email)] else []) \<and>
    audit_logs (cur (snd (notify_send E t uid email ctx rel s))) = audit_logs (cur s) @ [row] \<and>
    action row = (if smtp E t email then NOTIFY_SENT else NOTIFY_FAILED) \<and>
    resource_id row = Some (notif_id n)"
  by (simp add: notify_send_run [OF assms(1-3)] assms(4) Let_def with_notification_def)

lemma org_db_fresh: "seq_fresh (session_of org_db)" "notif_fresh (session_of org_db)"
  by (simp_all add: seq_fresh_def notif_fresh_def org_db_def)

lemma send_settles_witness:
  "\<exists>n. fst (notify_send env0 CYCLE_OPENED 50 (str ''m@x'')
      [(''cycle_fiscal_year'', JInt 2026), (''deadline'', JNull), (''cycle_url'', JNull)] None (session_of org_db)) = Inr n
    \<and> notif_status n = sent"
proof -
  have r: "renders CYCLE_OPENED [(''cycle_fiscal_year'', JInt 2026), (''deadline'', JNull), (''cycle_url'', JNull)]"
    by (simp add: renders_def vars_cycle_opened_def)
  show ?thesis
    using send_settles [OF org_db_fresh _ r, of env0 50 "str ''m@x''" None] org_db_ok by auto
qed

text \<open>
  Resending never works. For every stored notification, of whatever template and
  whatever the relay would do, the resend route of a permitted user raises jinja2's undefined error: the context
  is empty and every template uses a variable. Nothing is written and nothing is sent.
\<close>

theorem resend_always_raises:
  assumes "get_row notif_id i (notifications (com s)) = Some n" "set (role_set u) \<inter> set notification_roles \<noteq> {}"
  shows "resend_notification E i email u s = (Inl Undefined_error, s\<lparr>cur := com s\<rparr>)"
proof -
  have "\<not> renders (notif_type n) []"
    by (cases "notif_type n") (simp_all add: renders_def template_vars_defs)
  moreover have "resend_notification E i email u s = get_session (bnd (resend E i email) (\<lambda>n. sq commit (ret n))) s"
    using assms(2) by (simp add: resend_notification_def role_session)
  ultimately show ?thesis
    using assms(1) by (simp add: resend_def notif_get_def email_send_def act_simps)
qed

lemma resend_always_raises_witness:
  "fst (resend_notification env0 5 (str ''m@x'') admin0 (session_of (org_db\<lparr>notifications :=
     [(build_queued CYCLE_OPENED 50 None 5 0)\<lparr>notif_status := failed\<rparr>]\<rparr>))) = Inl Undefined_error"
  by (subst resend_always_raises) (simp_all add: get_row_def notification_roles_def)

text \<open>
  The resubmit row comes first. Whatever the template, the relay and the extra
  context make of the notification, once the database accepts the request's row it is
  committed, also when \<open>create\<close> ends in an error; if the database refuses it, the answer is
  \<open>NOTIFY_002\<close> and nothing is committed.
\<close>

theorem resubmit_row_survives:
  assumes "seq_fresh s" "notif_fresh s" "cur s = com s"
  shows "let t = snd (resubmit_create E cid unit_id requester reason recipient email target extra s);
             rr = \<lparr>rr_id = uid_next s, rr_cycle_id = cid, rr_org_unit_id = unit_id, requester_id = requester,
               target_version = target, rr_reason = reason, requested_at = clock s\<rparr> in
    if db_ok (com s) then resubmit_requests (com t) = resubmit_requests (com s) @ [rr]
    else com t = com s \<and> fst (resubmit_create E cid unit_id requester reason recipient email target extra s)
      = Inl (app_err AppError ''NOTIFY_002'')"
proof -
  let ?rr = "\<lparr>rr_id = uid_next s, rr_cycle_id = cid, rr_org_unit_id = unit_id, requester_id = requester,
      target_version = target, rr_reason = reason, requested_at = clock s\<rparr>"
  let ?d = "(com s)\<lparr>resubmit_requests := resubmit_requests (com s) @ [?rr]\<rparr>"
  let ?s = "s\<lparr>uid_next := Suc (uid_next s), cur := ?d, com := ?d\<rparr>"
  have ok: "db_ok ?d = db_ok (com s)" by (simp add: db_ok_def)
  have fresh: "seq_fresh ?s" "notif_fresh ?s"
    using assms by (auto simp: seq_fresh_def notif_fresh_def)
  show ?thesis
  proof (cases "db_ok (com s)")
    case True
    with ok have ok': "db_ok (cur ?s)" by simp
    have ok'': "db_ok (?d\<lparr>notifications := notifications (com s) @ [n]\<rparr>)" if "notif_id n = uid_next ?s" for n
      using db_ok_notification [OF fresh(2) that] ok' by simp
    have "s\<lparr>uid_next := Suc (uid_next s), cur := ?d, com := ?d\<rparr> = ?s" by simp
    with True ok show ?thesis
      by (simp add: resubmit_create_def act_simps Let_def assms(3) notify_send_run [OF fresh ok']
          run_audit_record assms(1) ok'')
  next
    case False
    with ok show ?thesis
      by (simp add: resubmit_create_def act_simps Let_def assms(3))
  qed
qed

lemma resubmit_row_survives_witness:
  "resubmit_requests (com (snd (resubmit_create env0 7 2 50 (str ''x'') 50 (str ''m@x'') None [] (session_of org_db))))
     = [\<lparr>rr_id = 1000, rr_cycle_id = 7, rr_org_unit_id = 2, requester_id = 50, target_version = None,
          rr_reason = str ''x'', requested_at = 86400000000\<rparr>]"
  using resubmit_row_survives [OF org_db_fresh, of env0 7 2 50 "str ''x''" 50 "str ''m@x''" None "[]"] org_db_ok
  by (simp add: Let_def org_db_def)

text \<open>
  Asking for a resubmission always answers with an error. For a permitted user, the
  route commits the request's row, in the name of whatever user the body gives, then raises the undefined error of the notification template, whose org
  unit name, fiscal year and link the route does not pass: no mail goes out, the
  notification row is lost and the audit log never gets the request's record, whatever the
  relay would have done.
\<close>

theorem resubmit_route_raises:
  assumes "store_inv E s" "\<forall>n \<in> set (notifications (com s)). notif_id n < uid_next s"
    and role: "set (role_set u) \<inter> set resubmit_roles \<noteq> {}"
  shows "let r = create_resubmit_request E cid unit_id requester reason recipient email target u s in
    fst r = Inl Undefined_error
    \<and> (\<exists>rr. resubmit_requests (com (snd r)) = resubmit_requests (com s) @ [rr] \<and> requester_id rr = requester)
    \<and> mails (snd r) = mails s \<and> notifications (com (snd r)) = notifications (com s)
    \<and> audit_logs (com (snd r)) = audit_logs (com s)"
proof -
  let ?rr = "\<lparr>rr_id = uid_next s, rr_cycle_id = cid, rr_org_unit_id = unit_id, requester_id = requester,
      target_version = target, rr_reason = reason, requested_at = clock s\<rparr>"
  let ?d = "(com s)\<lparr>resubmit_requests := resubmit_requests (com s) @ [?rr]\<rparr>"
  let ?s = "s\<lparr>uid_next := Suc (uid_next s), cur := ?d, com := ?d\<rparr>"
  have ok: "db_ok ?d" using assms(1) by (simp add: store_inv_def db_ok_def)
  have base: "seq_fresh (s\<lparr>cur := com s\<rparr>)" using seq_fresh_rebase(2) [OF assms(1)] .
  then have fresh: "seq_fresh ?s" "notif_fresh ?s"
    using assms(2) by (auto simp: seq_fresh_def notif_fresh_def)
  have ok': "db_ok (cur ?s)" using ok by simp
  have r: "\<not> renders RESUBMIT_REQUESTED [(''reason'', x), (''requested_by'', y), (''target_version'', z)]" for x y z
    by (simp add: renders_def vars_resubmit_requested_def)
  have route: "create_resubmit_request E cid unit_id requester reason recipient email target u s
      = get_session (resubmit_create E cid unit_id requester reason recipient email target []) s"
    using role by (simp add: create_resubmit_request_def role_session)
  show ?thesis
    using ok unfolding route
    by (simp add: resubmit_create_def act_simps Let_def r
        notify_send_run [OF fresh ok'])
qed

definition reviewer0 :: user where
  "reviewer0 = manager0\<lparr>user_roles := [''UplineReviewer'']\<rparr>"

lemma resubmit_route_raises_witness:
  "fst (create_resubmit_request env0 7 2 50 (str ''x'') 50 (str ''m@x'') None reviewer0 (session_of org_db)) = Inl Undefined_error"
proof -
  have "store_inv env0 (session_of org_db)"
    using org_db_ok by (simp add: store_inv_def chain_inv_def log_ok_def org_db_def)
  moreover have "set (role_set reviewer0) \<inter> set resubmit_roles \<noteq> {}"
    by (simp add: reviewer0_def role_set_def List.map_filter_def role_of_value_def all_roles_def resubmit_roles_def)
  ultimately show ?thesis
    using resubmit_route_raises [of env0 "session_of org_db" reviewer0 7 2 50 "str ''x''" 50 "str ''m@x''" None]
    by (simp add: org_db_def Let_def)
qed

end
