(* ===== verification/Budget_Uploads.thy ===== *)
theory Budget_Uploads
  imports Versions Notifications
begin

text \<open>
  \<^verbatim>\<open>domain/budget_uploads/\<close>: the validator of a filled-in budget workbook, the upload (checks,
  file, header row and lines in one transaction, audit row, confirmation) and the reads,
  with the aggregation of the latest versions that the consolidated report is made of.
\<close>

section \<open>BudgetUploadValidator\<close>

record budget_row =
  br_row :: nat
  br_account_code :: pystr
  br_amount :: cents

text \<open>The cell B2 of the sheet \<open>header\<close>, if there is such a sheet.\<close>

definition read_dept_code :: "workbook \<Rightarrow> cell" where
  "read_dept_code wb = (case map_of (sheets wb) (str ''header'') of
      None \<Rightarrow> Cell_None
    | Some grid \<Rightarrow> if 1 < length grid \<and> 1 < length (grid ! 1) then grid ! 1 ! 1 else Cell_None)"

definition cell_of :: "raw_row \<Rightarrow> string \<Rightarrow> cell" where
  "cell_of raw k = (case map_of raw (str k) of None \<Rightarrow> Cell_None | Some v \<Rightarrow> v)"

text \<open>One row; the code of an amount's error is chosen by searching its text.\<close>

definition check_budget_row :: "pystr set \<Rightarrow> nat \<Rightarrow> raw_row \<Rightarrow> row_error list + budget_row" where
  "check_budget_row codes n raw =
     (case clean_cell (cell_of raw ''account_code'') of
        None \<Rightarrow> Inl [row_err n ''account_code'' ''UPLOAD_004'' Reason_cell_empty]
      | Some c \<Rightarrow>
          if c \<notin> codes then Inl [row_err n ''account_code'' ''UPLOAD_004'' Reason_not_in_category]
          else let amount_raw = cell_of raw ''budget_amount'' in
            if empty_cell amount_raw then Inl [row_err n ''budget_amount'' ''UPLOAD_004'' Reason_cell_empty]
            else (case parse_amount amount_raw True of
                Inl r \<Rightarrow> Inl [row_err n ''budget_amount''
                  (if contains (str ''non-negative'') (reason_text r) then ''UPLOAD_006'' else ''UPLOAD_005'')
                  (Reason_amount r)]
              | Inr a \<Rightarrow> Inr \<lparr>br_row = n, br_account_code = c, br_amount = a\<rparr>))"

definition validate_budget_rows :: "pystr set \<Rightarrow> raw_row list \<Rightarrow> budget_row validation_result" where
  "validate_budget_rows codes raw_rows =
     (case collect_rows (check_budget_row codes) 2 raw_rows [] [] of
        (es, cs) \<Rightarrow> if es \<noteq> [] then \<lparr>rows = [], errors = es\<rparr> else \<lparr>rows = cs, errors = []\<rparr>)"

definition validate_budget :: "env \<Rightarrow> bytes \<Rightarrow> pystr \<Rightarrow> pystr set \<Rightarrow> exn + budget_row validation_result" where
  "validate_budget E content expected_dept_code codes =
     (if int (length content) > max_upload_bytes (cfg E) then Inl (app_err AppError ''UPLOAD_001'')
      else case open_workbook E content of
        Inl e \<Rightarrow> Inl e
      | Inr wb \<Rightarrow>
          if clean_cell (read_dept_code wb) \<noteq> clean_cell (Cell_Str expected_dept_code)
          then Inl (app_err AppError ''UPLOAD_003'')
          else case read_rows wb (Some (str ''accounts'')) 1 of
            Inl e \<Rightarrow> Inl e
          | Inr raw_rows \<Rightarrow>
              if int (length raw_rows) > max_upload_rows (cfg E) then Inl (app_err AppError ''UPLOAD_002'')
              else Inr (validate_budget_rows codes raw_rows))"

interpretation budget: row_validator "check_budget_row op_codes" 2 "validate_budget_rows op_codes"
  for op_codes :: "pystr set"
  by (rule collect_rows_validator)
    (auto simp: check_budget_row_def validate_budget_rows_def Let_def split: option.splits sum.splits if_splits)

section \<open>The repository\<close>

definition budget_list_versions :: "uuid \<Rightarrow> uuid \<Rightarrow> db \<Rightarrow> budget_upload list" where
  "budget_list_versions cid unit_id d = order_desc bu_version
     (filter (\<lambda>u. bu_cycle_id u = cid \<and> bu_org_unit_id u = unit_id) (budget_uploads d))"

definition budget_get_latest :: "uuid \<Rightarrow> uuid \<Rightarrow> db \<Rightarrow> budget_upload option" where
  "budget_get_latest cid unit_id d = latest_version bu_version
     (\<lambda>u. (bu_cycle_id u, bu_org_unit_id u) = (cid, unit_id)) (budget_uploads d)"

text \<open>The latest upload of each unit, by unit.\<close>

definition latest_by_unit :: "uuid \<Rightarrow> db \<Rightarrow> (uuid, budget_upload) dict" where
  "latest_by_unit cid d = first_by bu_org_unit_id
     (order_desc bu_version (filter (\<lambda>u. bu_cycle_id u = cid) (budget_uploads d))) []"

definition upload_to_unit_map :: "budget_upload list \<Rightarrow> uuid \<Rightarrow> uuid option" where
  "upload_to_unit_map us = map_of (rev (map (\<lambda>u. (bu_id u, bu_org_unit_id u)) us))"

definition budget_latest_by_cycle :: "uuid \<Rightarrow> db \<Rightarrow> (uuid \<times> uuid, int) dict" where
  "budget_latest_by_cycle cid d =
     (let latest = map snd (latest_by_unit cid d);
          lines = filter (\<lambda>l. bl_upload_id l \<in> bu_id ` set latest) (budget_lines d);
          upload_to_unit = upload_to_unit_map latest
      in sum_by (\<lambda>l. (the (upload_to_unit (bl_upload_id l)), bl_account_code_id l)) bl_amount lines [])"

section \<open>BudgetUploadService\<close>

definition budget_get :: "uuid \<Rightarrow> budget_upload op" where
  "budget_get i = bnd (query (\<lambda>d. get_row bu_id i (budget_uploads d))) (\<lambda>row.
     case row of None \<Rightarrow> raise (app_err NotFoundError ''UPLOAD_008'') | Some u \<Rightarrow> ret u)"

text \<open>The loop over the rows; a code without an identifier rolls the transaction back.\<close>

fun add_budget_lines :: "uuid \<Rightarrow> (pystr \<Rightarrow> uuid option) \<Rightarrow> budget_row list \<Rightarrow> unit op" where
  "add_budget_lines up ids [] = ret ()"
| "add_budget_lines up ids (r # rs) = (case ids (br_account_code r) of
      None \<Rightarrow> sq rollback (raise (batch_validation_error ''UPLOAD_007''
        [row_err (br_row r) ''account_code'' ''UPLOAD_004'' (Reason_unknown (br_account_code r))]))
    | Some a \<Rightarrow> sq (update (\<lambda>d. d\<lparr>budget_lines := budget_lines d
          @ [\<lparr>bl_upload_id = up, bl_account_code_id = a, bl_amount = br_amount r\<rparr>]\<rparr>))
        (add_budget_lines up ids rs))"

definition persist_budget :: "env \<Rightarrow> uuid \<Rightarrow> uuid \<Rightarrow> user \<Rightarrow> bytes \<Rightarrow> pystr \<Rightarrow> budget_row list
    \<Rightarrow> (pystr \<Rightarrow> uuid option) \<Rightarrow> budget_upload op" where
  "persist_budget E cid unit_id u content storage_key rs ids =
     bnd (query (\<lambda>d. next_version bu_version (\<lambda>x. (bu_cycle_id x, bu_org_unit_id x) = (cid, unit_id))
       (budget_uploads d))) (\<lambda>version.
     bnd now_utc (\<lambda>now.
     bnd (encrypt_field E (utf8_encode storage_key)) (\<lambda>path.
     bnd new_uuid (\<lambda>i.
       let up = \<lparr>bu_id = i, bu_cycle_id = cid, bu_org_unit_id = unit_id, bu_uploader_id = user_id u,
             bu_version = version, bu_file_path_enc = path, file_size_bytes = int (length content),
             row_count = int (length rs), bu_status = valid_status, bu_uploaded_at = now\<rparr> in
       sq (update (\<lambda>d. d\<lparr>budget_uploads := budget_uploads d @ [up]\<rparr>))
      (sq flush
      (sq (add_budget_lines i ids rs)
      (sq commit
          (ret up))))))))"

text \<open>The confirmation, sent only when the service was built with a notifier.\<close>

definition upload_context :: "budget_upload \<Rightarrow> pystr \<Rightarrow> org_unit \<Rightarrow> budget_cycle \<Rightarrow> context_dict" where
  "upload_context up filename w c = [(''version'', JInt (bu_version up)), (''filename'', JText filename),
     (''org_unit_name'', JText (ou_name w)), (''cycle_fiscal_year'', JInt (fiscal_year c))]"

definition send_confirmation :: "bool \<Rightarrow> env \<Rightarrow> user \<Rightarrow> budget_upload \<Rightarrow> budget_cycle \<Rightarrow> org_unit
    \<Rightarrow> pystr \<Rightarrow> unit op" where
  "send_confirmation wired E u up c w filename =
     (if \<not> wired then ret ()
      else case extract_email u of
        None \<Rightarrow> ret ()
      | Some email \<Rightarrow>
          catch (bnd (notify_send E UPLOAD_CONFIRMED (user_id u) email (upload_context up filename w c)
              (Some (''budget_upload'', bu_id up))) (\<lambda>_. ret ()))
            (\<lambda>e. if is_app_error e then ret () else raise e))"

definition budget_upload_file :: "bool \<Rightarrow> env \<Rightarrow> uuid \<Rightarrow> uuid \<Rightarrow> pystr \<Rightarrow> bytes \<Rightarrow> user \<Rightarrow> budget_upload op" where
  "budget_upload_file wired E cid unit_id filename content u =
     sq (cycle_assert_open cid)
    (sq (assert_scope u unit_id)
    (bnd (query (\<lambda>d. get_row ou_id unit_id (org_units d))) (\<lambda>org.
     case org of None \<Rightarrow> raise (app_err NotFoundError ''UPLOAD_008'') | Some w \<Rightarrow>
     bnd (query (\<lambda>d. get_row cycle_id cid (budget_cycles d))) (\<lambda>cyc.
     case cyc of None \<Rightarrow> raise (app_err NotFoundError ''UPLOAD_008'') | Some c \<Rightarrow>
     bnd (query operational_codes) (\<lambda>codes.
     bnd (lift (validate_budget E content (ou_code w) codes)) (\<lambda>result.
     sq (check (valid result) (batch_validation_error ''UPLOAD_007'' (errors result)))
    (bnd (storage_save E ''budget_uploads'' filename content) (\<lambda>storage_key.
     bnd (query (\<lambda>d. account_ids d (br_account_code ` set (rows result)))) (\<lambda>ids.
     bnd (persist_budget E cid unit_id u content storage_key (rows result) ids) (\<lambda>up.
     bnd (audit_record E BUDGET_UPLOAD ''budget_upload'' (Some (bu_id up)) (Some (user_id u)) None
            (JObj [(''cycle_id'', JUuid cid), (''org_unit_id'', JUuid unit_id), (''org_unit_code'', JText (ou_code w)),
                   (''version'', JInt (bu_version up)), (''row_count'', JInt (int (length (rows result)))),
                   (''file_size_bytes'', JInt (int (length content))), (''filename'', JText filename)])) (\<lambda>_.
     sq commit
    (sq (send_confirmation wired E u up c w filename)
        (ret up)))))))))))))"

section \<open>The routes\<close>

definition upload_budget :: "env \<Rightarrow> uuid \<Rightarrow> uuid \<Rightarrow> pystr option \<Rightarrow> bytes \<Rightarrow> user \<Rightarrow> budget_upload op" where
  "upload_budget E cid unit_id filename content u =
     get_session (bnd (require_role [FilingUnitManager, FinanceAdmin, SystemAdmin] u) (\<lambda>u.
       budget_upload_file False E cid unit_id
         (name_or ''upload.xlsx'' filename) content u))"

definition list_upload_versions :: "uuid \<Rightarrow> uuid \<Rightarrow> user \<Rightarrow> budget_upload list op" where
  "list_upload_versions cid unit_id u =
     get_session (bnd (require_role [FilingUnitManager, FinanceAdmin, SystemAdmin, UplineReviewer, CompanyReviewer] u) (\<lambda>u.
       sq (assert_scope u unit_id) (query (budget_list_versions cid unit_id))))"

definition get_upload :: "uuid \<Rightarrow> user \<Rightarrow> budget_upload op" where
  "get_upload i u =
     get_session (bnd (require_role [FilingUnitManager, FinanceAdmin, SystemAdmin, UplineReviewer, CompanyReviewer,
         ITSecurityAuditor] u) (\<lambda>u.
       bnd (budget_get i) (\<lambda>row. sq (assert_scope u (bu_org_unit_id row)) (ret row))))"

section \<open>What the upload does\<close>

lemma valid_budget_rows:
  assumes "valid (validate_budget_rows codes raw)" "r \<in> set (rows (validate_budget_rows codes raw))"
  shows "br_account_code r \<in> codes \<and> 0 \<le> br_amount r"
proof -
  from assms(2) obtain i where "i < length (rows (validate_budget_rows codes raw))"
    "r = rows (validate_budget_rows codes raw) ! i" by (metis in_set_conv_nth)
  with budget.one_per_row [OF assms(1)] have "check_budget_row codes (2 + i) (raw ! i) = Inr r" by simp
  then show ?thesis
    by (auto simp: check_budget_row_def Let_def split: option.splits sum.splits if_splits dest: parse_amount_nonneg)
qed

text \<open>The checks before the first write.\<close>

definition budget_accepted :: "env \<Rightarrow> uuid \<Rightarrow> uuid \<Rightarrow> bytes \<Rightarrow> user \<Rightarrow> db
    \<Rightarrow> exn + org_unit \<times> budget_cycle \<times> budget_row list" where
  "budget_accepted E cid unit_id content u d =
     (case get_row cycle_id cid (budget_cycles d) of
        None \<Rightarrow> Inl (app_err NotFoundError ''CYCLE_001'')
      | Some c \<Rightarrow>
          if cycle_status c \<noteq> open then Inl (app_err AppError ''CYCLE_004'')
          else if \<not> in_scope (scoped_org_units u d) unit_id then Inl (app_err ForbiddenError ''RBAC_002'')
          else case get_row ou_id unit_id (org_units d) of
            None \<Rightarrow> Inl (app_err NotFoundError ''UPLOAD_008'')
          | Some w \<Rightarrow> (case validate_budget E content (ou_code w) (operational_codes d) of
              Inl e \<Rightarrow> Inl e
            | Inr result \<Rightarrow> if valid result then Inr (w, c, rows result)
                else Inl (batch_validation_error ''UPLOAD_007'' (errors result))))"

definition envelope :: "env \<Rightarrow> uuid \<Rightarrow> bytes \<Rightarrow> bytes" where
  "envelope E i p = [length (crypto_key_id (cfg E)) div 256, length (crypto_key_id (cfg E)) mod 256]
     @ crypto_key_id (cfg E) @ nonce E i @ aes_encrypt E (crypto_key (cfg E)) (nonce E i) p"

lemma encrypt_field_envelope:
  "encrypt_field E p s = (Inr (envelope E (uid_next s) p), s\<lparr>uid_next := Suc (uid_next s)\<rparr>)"
  by (simp add: encrypt_field_run envelope_def)

definition budget_lines_of :: "uuid \<Rightarrow> (pystr \<Rightarrow> uuid option) \<Rightarrow> budget_row list \<Rightarrow> budget_line list" where
  "budget_lines_of up ids rs = map (\<lambda>r. \<lparr>bl_upload_id = up, bl_account_code_id = the (ids (br_account_code r)),
     bl_amount = br_amount r\<rparr>) rs"

lemma add_budget_lines_run: "\<forall>r \<in> set rs. ids (br_account_code r) \<noteq> None \<Longrightarrow>
    add_budget_lines up ids rs s =
      (Inr (), s\<lparr>cur := (cur s)\<lparr>budget_lines := budget_lines (cur s) @ budget_lines_of up ids rs\<rparr>\<rparr>)"
proof (induction rs arbitrary: s)
  case (Cons r rs)
  then obtain a where "ids (br_account_code r) = Some a" by auto
  with Cons show ?case by (simp add: act_simps budget_lines_of_def)
qed (simp add: budget_lines_of_def)

definition new_budget_upload :: "env \<Rightarrow> uuid \<Rightarrow> uuid \<Rightarrow> pystr \<Rightarrow> bytes \<Rightarrow> user \<Rightarrow> budget_row list \<Rightarrow> session
    \<Rightarrow> budget_upload" where
  "new_budget_upload E cid unit_id filename content u rs s =
     \<lparr>bu_id = uid_next s + 2, bu_cycle_id = cid, bu_org_unit_id = unit_id, bu_uploader_id = user_id u,
      bu_version = next_version bu_version (\<lambda>x. (bu_cycle_id x, bu_org_unit_id x) = (cid, unit_id))
        (budget_uploads (cur s)),
      bu_file_path_enc = envelope E (uid_next s + 1)
        (utf8_encode (build_key ''budget_uploads'' filename (clock s) (uid_next s))),
      file_size_bytes = int (length content), row_count = int (length rs), bu_status = valid_status,
      bu_uploaded_at = clock s\<rparr>"

definition with_budget :: "budget_upload \<Rightarrow> budget_line list \<Rightarrow> db \<Rightarrow> db" where
  "with_budget up ls d = d\<lparr>budget_uploads := budget_uploads d @ [up], budget_lines := budget_lines d @ ls\<rparr>"

definition budget_stored :: "pystr \<Rightarrow> bytes \<Rightarrow> session \<Rightarrow> session" where
  "budget_stored filename content s = s\<lparr>uid_next := uid_next s + 3,
     files := AList.update (build_key ''budget_uploads'' filename (clock s) (uid_next s)) content (files s)\<rparr>"

lemma budget_stored_simps [simp]:
  "cur (budget_stored filename content s) = cur s" "com (budget_stored filename content s) = com s"
  "clock (budget_stored filename content s) = clock s" "mails (budget_stored filename content s) = mails s"
  "uid_next (budget_stored filename content s) = uid_next s + 3"
  by (simp_all add: budget_stored_def)

lemma accepted_rows_known:
  assumes "budget_accepted E cid unit_id content u d = Inr (w, c, rs)"
  shows "\<forall>r \<in> set rs. account_ids d (br_account_code ` set rs) (br_account_code r) \<noteq> None"
proof
  fix r assume r: "r \<in> set rs"
  from assms obtain raw where
      ok: "valid (validate_budget_rows (operational_codes d) raw)" and
      rs: "rs = rows (validate_budget_rows (operational_codes d) raw)"
    by (auto simp: budget_accepted_def validate_budget_def split: option.splits sum.splits if_splits)
  have "br_account_code r \<in> codes_by_category operational d"
    using valid_budget_rows [OF ok] r unfolding rs by (force simp: operational_codes_def)
  with r show "account_ids d (br_account_code ` set rs) (br_account_code r) \<noteq> None" by (intro account_ids_known) auto
qed

lemma persist_budget_run:
  assumes "\<forall>r \<in> set rs. ids (br_account_code r) \<noteq> None"
  shows "persist_budget E cid unit_id u content k rs ids s =
    (let up = \<lparr>bu_id = uid_next s + 1, bu_cycle_id = cid, bu_org_unit_id = unit_id, bu_uploader_id = user_id u,
             bu_version = next_version bu_version (\<lambda>x. (bu_cycle_id x, bu_org_unit_id x) = (cid, unit_id))
               (budget_uploads (cur s)),
             bu_file_path_enc = envelope E (uid_next s) (utf8_encode k), file_size_bytes = int (length content),
             row_count = int (length rs), bu_status = valid_status, bu_uploaded_at = clock s\<rparr>;
         d = with_budget up (budget_lines_of (uid_next s + 1) ids rs) (cur s); t = s\<lparr>uid_next := uid_next s + 2\<rparr>
     in if db_ok ((cur s)\<lparr>budget_uploads := budget_uploads (cur s) @ [up]\<rparr>) \<and> db_ok d then (Inr up, t\<lparr>cur := d, com := d\<rparr>)
        else (Inl Integrity_error, t\<lparr>cur := com s\<rparr>))"
  by (simp add: persist_budget_def act_simps encrypt_field_envelope Let_def
      add_budget_lines_run [OF assms] with_budget_def)

lemma budget_upload_run:
  assumes "seq_fresh s"
  shows "budget_upload_file wired E cid unit_id filename content u s =
    (case budget_accepted E cid unit_id content u (cur s) of Inl e \<Rightarrow> (Inl e, s) | Inr (w, c, rs) \<Rightarrow>
       if \<not> storage_ok E then (Inl (app_err InfraError ''SYS_002''), s\<lparr>uid_next := Suc (uid_next s)\<rparr>)
       else let up = new_budget_upload E cid unit_id filename content u rs s;
           d = with_budget up (budget_lines_of (bu_id up) (account_ids (cur s) (br_account_code ` set rs)) rs) (cur s);
           t = budget_stored filename content s
       in if db_ok ((cur s)\<lparr>budget_uploads := budget_uploads (cur s) @ [up]\<rparr>) \<and> db_ok d
          then (case send_confirmation wired E u up c w filename
                  (audited E BUDGET_UPLOAD ''budget_upload'' (Some (bu_id up)) (Some (user_id u))
                    (JObj [(''cycle_id'', JUuid cid), (''org_unit_id'', JUuid unit_id),
                      (''org_unit_code'', JText (ou_code w)), (''version'', JInt (bu_version up)),
                      (''row_count'', JInt (int (length rs))),
                      (''file_size_bytes'', JInt (int (length content))), (''filename'', JText filename)])
                    (t\<lparr>cur := d\<rparr>)) of
                  (Inl e, v) \<Rightarrow> (Inl e, v) | (Inr _, v) \<Rightarrow> (Inr up, v))
          else (Inl Integrity_error, t\<lparr>cur := com s\<rparr>))"
proof (cases "budget_accepted E cid unit_id content u (cur s)")
  case (Inl e)
  then show ?thesis
    by (auto simp: budget_upload_file_def run_sq cycle_assert_open_run assert_scope_run act_simps budget_accepted_def
        split: option.splits sum.splits if_splits)
next
  case (Inr r)
  obtain w c rs where r: "r = (w, c, rs)" by (cases r) auto
  note acc = Inr [unfolded r]
  from acc have cyc: "get_row cycle_id cid (budget_cycles (cur s)) = Some c" "cycle_status c = open"
    and scope: "in_scope (scoped_org_units u (cur s)) unit_id"
    and unit: "get_row ou_id unit_id (org_units (cur s)) = Some w"
    by (auto simp: budget_accepted_def split: option.splits sum.splits if_splits)
  from acc obtain result where res: "validate_budget E content (ou_code w) (operational_codes (cur s)) = Inr result"
      "valid result" "rs = rows result"
    using cyc scope unit by (auto simp: budget_accepted_def split: sum.splits if_splits)
  note known = accepted_rows_known [OF acc]
  have cat: "''budget_uploads'' \<in> set ALLOWED_CATEGORIES" by (simp add: ALLOWED_CATEGORIES_def)
  let ?s = "budget_stored filename content s" and ?up = "new_budget_upload E cid unit_id filename content u rs s"
  have stored: "storage_save E ''budget_uploads'' filename content s =
      (if storage_ok E then (Inr (build_key ''budget_uploads'' filename (clock s) (uid_next s)), ?s\<lparr>uid_next := Suc (uid_next s)\<rparr>)
       else (Inl (app_err InfraError ''SYS_002''), s\<lparr>uid_next := Suc (uid_next s)\<rparr>))"
    by (simp add: storage_save_run cat Let_def budget_stored_def)
  have persist: "persist_budget E cid unit_id u content k rs (account_ids (cur s) (br_account_code ` set rs)) (?s\<lparr>uid_next := Suc (uid_next s)\<rparr>) =
      (let d = with_budget ?up (budget_lines_of (bu_id ?up) (account_ids (cur s) (br_account_code ` set rs)) rs) (cur s) in
        if db_ok ((cur s)\<lparr>budget_uploads := budget_uploads (cur s) @ [?up]\<rparr>) \<and> db_ok d
        then (Inr ?up, ?s\<lparr>cur := d, com := d\<rparr>) else (Inl Integrity_error, ?s\<lparr>cur := com s\<rparr>))"
    if "k = build_key ''budget_uploads'' filename (clock s) (uid_next s)" for k
    unfolding that persist_budget_run [OF known]
    by (simp add: budget_stored_def new_budget_upload_def Let_def)
  have fresh: "seq_fresh (?s\<lparr>cur := with_budget x y (cur s)\<rparr>)" for x y
    using assms by (simp add: budget_stored_def with_budget_def seq_fresh_def)
  show ?thesis
    using res(2)
    by (simp add: acc budget_upload_file_def run_sq cycle_assert_open_run cyc assert_scope_run scope run_bnd
        run_session unit res(1) res(3) [symmetric] stored persist Let_def
        record_commit_case fresh) (auto split: sum.splits prod.splits)
qed

context audited_inv
begin

lemma kept_add_budget_lines [preserves_intros]: "preserves P (add_budget_lines up ids rs)"
proof (induction rs)
  case (Cons r rs)
  show ?case by (simp, intro preserves_intros Cons.IH; simp)
qed (simp only: add_budget_lines.simps preserves_basic)

lemma kept_budget [preserves_intros]:
  "preserves P (assert_scope u unit_id)"
  "preserves P (persist_budget E cid unit_id u content k rs ids)"
  "preserves P (send_confirmation wired E u up c w filename)"
  "preserves P (budget_upload_file wired E cid unit_id filename content u)"
  unfolding assert_scope_def persist_budget_def send_confirmation_def budget_upload_file_def Let_def
  by (intro preserves_intros; simp)+

end

section \<open>The latest versions\<close>

interpretation budget_versions: version_store "\<lambda>u. (bu_cycle_id u, bu_org_unit_id u)" bu_version
  "\<lambda>k. next_version bu_version (\<lambda>u. (bu_cycle_id u, bu_org_unit_id u) = k)"
  "\<lambda>k d. budget_get_latest (fst k) (snd k) (empty_db\<lparr>budget_uploads := d\<rparr>)"
  using version_store_queries [of "\<lambda>u. (bu_cycle_id u, bu_org_unit_id u)" bu_version]
  by (simp add: budget_get_latest_def)

lemma budget_get_latest_table:
  "budget_get_latest cid unit_id d = budget_get_latest (fst (cid, unit_id)) (snd (cid, unit_id))
     (empty_db\<lparr>budget_uploads := budget_uploads d\<rparr>)"
  by (simp add: budget_get_latest_def)

lemma find_first: "find P xs = first_row (filter P xs)"
  by (induction xs) simp_all

lemma filter_order_desc: "filter P (order_desc e xs) = order_desc e (filter P xs)"
  by (simp add: order_desc_def filter_sort)

lemma latest_by_unit_latest: "map_of (latest_by_unit cid d) unit_id = budget_get_latest cid unit_id d"
  by (simp add: latest_by_unit_def map_of_first_by find_first filter_order_desc budget_get_latest_def
      latest_version_def conj_commute)

lemma budget_get_latest_Some: "budget_get_latest cid unit_id d = Some up \<Longrightarrow>
    up \<in> set (budget_uploads d) \<and> bu_cycle_id up = cid \<and> bu_org_unit_id up = unit_id"
  using budget_versions.latest_Some [of "(cid, unit_id)" "budget_uploads d" up]
  by (simp add: budget_get_latest_def)

lemma map_of_functional: "(k, v) \<in> set ps \<Longrightarrow> (\<And>v'. (k, v') \<in> set ps \<Longrightarrow> v' = v) \<Longrightarrow> map_of ps k = Some v"
  by (metis map_of_SomeD map_of_eq_None_iff not_Some_eq fst_conv image_eqI)

lemma latest_uploads: "up \<in> snd ` set (latest_by_unit cid d) \<longleftrightarrow> budget_get_latest cid (bu_org_unit_id up) d = Some up"
proof
  assume "up \<in> snd ` set (latest_by_unit cid d)"
  then obtain unit_id where "(unit_id, up) \<in> set (latest_by_unit cid d)" by auto
  moreover have "distinct (map fst (latest_by_unit cid d))" by (simp add: latest_by_unit_def)
  ultimately have "budget_get_latest cid unit_id d = Some up" by (simp add: latest_by_unit_latest [symmetric])
  then show "budget_get_latest cid (bu_org_unit_id up) d = Some up" using budget_get_latest_Some by blast
next
  assume "budget_get_latest cid (bu_org_unit_id up) d = Some up"
  then have "(bu_org_unit_id up, up) \<in> set (latest_by_unit cid d)"
    by (simp add: latest_by_unit_latest [symmetric] map_of_SomeD)
  then show "up \<in> snd ` set (latest_by_unit cid d)" by force
qed

lemma upload_to_unit:
  assumes "\<And>x y. x \<in> set us \<Longrightarrow> y \<in> set us \<Longrightarrow> bu_id x = bu_id y \<Longrightarrow> x = y" "up \<in> set us"
  shows "upload_to_unit_map us (bu_id up) = Some (bu_org_unit_id up)"
  unfolding upload_to_unit_map_def
proof (rule map_of_functional)
  show "(bu_id up, bu_org_unit_id up) \<in> set (rev (map (\<lambda>u. (bu_id u, bu_org_unit_id u)) us))"
    using assms(2) by force
  fix v assume "(bu_id up, v) \<in> set (rev (map (\<lambda>u. (bu_id u, bu_org_unit_id u)) us))"
  then obtain x where "x \<in> set us" "bu_id x = bu_id up" "v = bu_org_unit_id x" by auto
  with assms show "v = bu_org_unit_id up" by metis
qed

text \<open>The lines that count for a unit and an account.\<close>

lemma latest_line_key:
  fixes cid d
  defines "L \<equiv> map snd (latest_by_unit cid d)"
  assumes "db_ok d"
  shows "bl_upload_id l \<in> bu_id ` set L \<and> (the (upload_to_unit_map L (bl_upload_id l)), bl_account_code_id l) = (unit_id, acc)
    \<longleftrightarrow> (\<exists>up. budget_get_latest cid unit_id d = Some up \<and> (bl_upload_id l, bl_account_code_id l) = (bu_id up, acc))"
proof -
  have ids: "distinct (map bu_id (budget_uploads d))" using assms(2) by (simp add: db_ok_def uploads_ok_def)
  have latest: "up \<in> set L \<longleftrightarrow> budget_get_latest cid (bu_org_unit_id up) d = Some up" for up
    by (simp add: latest_uploads L_def)
  have same: "x = y" if "x \<in> set L" "y \<in> set L" "bu_id x = bu_id y" for x y
    using that ids budget_get_latest_Some latest by (metis distinct_map_eq)
  have unit: "upload_to_unit_map L (bu_id up) = Some (bu_org_unit_id up)" if "up \<in> set L" for up
    by (rule upload_to_unit [OF same that])
  show ?thesis
  proof
    assume l: "bl_upload_id l \<in> bu_id ` set L \<and>
        (the (upload_to_unit_map L (bl_upload_id l)), bl_account_code_id l) = (unit_id, acc)"
    then obtain up where up: "up \<in> set L" "bl_upload_id l = bu_id up" by auto
    with l unit [OF up(1)] have "bu_org_unit_id up = unit_id" "bl_account_code_id l = acc" by simp_all
    with up latest [of up] show "\<exists>up. budget_get_latest cid unit_id d = Some up
        \<and> (bl_upload_id l, bl_account_code_id l) = (bu_id up, acc)" by simp
  next
    assume "\<exists>up. budget_get_latest cid unit_id d = Some up \<and> (bl_upload_id l, bl_account_code_id l) = (bu_id up, acc)"
    then obtain up where up: "budget_get_latest cid unit_id d = Some up" "bl_upload_id l = bu_id up"
        "bl_account_code_id l = acc" by auto
    from budget_get_latest_Some [OF up(1)] up(1) have "up \<in> set L" "bu_org_unit_id up = unit_id"
      using latest [of up] by simp_all
    with unit [OF this(1)] up show "bl_upload_id l \<in> bu_id ` set L \<and>
        (the (upload_to_unit_map L (bl_upload_id l)), bl_account_code_id l) = (unit_id, acc)" by simp
  qed
qed

text \<open>What a successful upload has stored, and that a failed one has stored nothing.\<close>

lemma budget_upload_Inl:
  assumes "seq_fresh s" "budget_upload_file False E cid unit_id filename content u s = (Inl e, t)"
  shows "com t = com s"
  using assms(2) unfolding budget_upload_run [OF assms(1)]
  by (auto simp: send_confirmation_def Let_def split: sum.splits if_splits)

lemma budget_upload_Inr:
  assumes "seq_fresh s" "budget_upload_file False E cid unit_id filename content u s = (Inr up, t)"
  obtains w c rs row where "budget_accepted E cid unit_id content u (cur s) = Inr (w, c, rs)"
    and "up = new_budget_upload E cid unit_id filename content u rs s"
    and "com t = (with_budget up (budget_lines_of (bu_id up) (account_ids (cur s) (br_account_code ` set rs)) rs) (cur s))
      \<lparr>audit_logs := audit_logs (cur s) @ [row]\<rparr>"
    and "action row = BUDGET_UPLOAD" "resource_id row = Some (bu_id up)" "al_user_id row = Some (user_id u)"
    and "map_of (files t) (build_key ''budget_uploads'' filename (clock s) (uid_next s)) = Some content"
proof -
  from assms(2) obtain w c rs where acc: "budget_accepted E cid unit_id content u (cur s) = Inr (w, c, rs)"
    unfolding budget_upload_run [OF assms(1)] by (auto split: sum.splits)
  then show thesis
    using assms(2) unfolding budget_upload_run [OF assms(1)]
    by (auto simp: send_confirmation_def Let_def cur_audited with_budget_def budget_stored_def update_conv'
        split: if_splits intro!: that [OF acc])
qed

lemma budget_accepted_bounds:
  assumes "budget_accepted E cid unit_id content u d = Inr (w, c, rs)"
  shows "get_row cycle_id cid (budget_cycles d) = Some c" "cycle_status c = open"
    "in_scope (scoped_org_units u d) unit_id" "get_row ou_id unit_id (org_units d) = Some w"
    "int (length content) \<le> max_upload_bytes (cfg E)" "int (length rs) \<le> max_upload_rows (cfg E)"
    "\<forall>r \<in> set rs. br_account_code r \<in> operational_codes d \<and> 0 \<le> br_amount r"
proof -
  from assms obtain raw where v: "valid (validate_budget_rows (operational_codes d) raw)"
      and rs: "rs = rows (validate_budget_rows (operational_codes d) raw)"
      and len: "int (length raw) \<le> max_upload_rows (cfg E)"
    by (auto simp: budget_accepted_def validate_budget_def split: option.splits sum.splits if_splits)
  from budget.one_per_row(1) [OF v] len show "int (length rs) \<le> max_upload_rows (cfg E)" by (simp add: rs)
  from valid_budget_rows [OF v] show "\<forall>r \<in> set rs. br_account_code r \<in> operational_codes d \<and> 0 \<le> br_amount r"
    unfolding rs by blast
qed (use assms in \<open>auto simp: budget_accepted_def validate_budget_def split: option.splits sum.splits if_splits\<close>)

lemma budget_lookup:
  assumes "db_ok d"
  shows "map_of (budget_latest_by_cycle cid d) (unit_id, acc) =
    (case budget_get_latest cid unit_id d of
       None \<Rightarrow> None
     | Some up \<Rightarrow> map_option bl_amount
         (find (\<lambda>l. (bl_upload_id l, bl_account_code_id l) = (bu_id up, acc)) (budget_lines d)))"
proof -
  let ?L = "map snd (latest_by_unit cid d)"
  let ?lines = "filter (\<lambda>l. bl_upload_id l \<in> bu_id ` set ?L) (budget_lines d)"
  let ?key = "\<lambda>l. (the (upload_to_unit_map ?L (bl_upload_id l)), bl_account_code_id l)"
  have counted: "filter (\<lambda>l. ?key l = (unit_id, acc)) ?lines = filter (\<lambda>l. \<exists>up. budget_get_latest cid unit_id d = Some up
      \<and> (bl_upload_id l, bl_account_code_id l) = (bu_id up, acc)) (budget_lines d)"
    unfolding filter_filter latest_line_key [OF assms, symmetric] by (rule filter_cong) auto
  have "distinct (map (\<lambda>l. (bl_upload_id l, bl_account_code_id l)) (budget_lines d))"
    using assms by (simp add: db_ok_def lines_ok_def)
  note one = filter_key_distinct [OF this]
  have "map_of (budget_latest_by_cycle cid d) (unit_id, acc) =
      (let ls = filter (\<lambda>l. ?key l = (unit_id, acc)) ?lines in
        if ls \<noteq> [] then Some (sum_list (map bl_amount ls)) else None)"
    unfolding budget_latest_by_cycle_def Let_def map_of_sum_by mem_filter_image [of _ ?key] total_def by simp
  also have "\<dots> = (case budget_get_latest cid unit_id d of None \<Rightarrow> None | Some up \<Rightarrow> map_option bl_amount
         (find (\<lambda>l. (bl_upload_id l, bl_account_code_id l) = (bu_id up, acc)) (budget_lines d)))"
    unfolding counted by (cases "budget_get_latest cid unit_id d")
      (simp_all only: option.inject ex_simps simp_thms one option.case Let_def, auto split: option.splits)
  finally show ?thesis .
qed

lemma upload_latest:
  assumes "seq_fresh s" "budget_upload_file False E cid unit_id filename content u s = (Inr up, t)"
  shows "budget_get_latest cid unit_id (com t) = Some up"
    and "(c', u') \<noteq> (cid, unit_id) \<Longrightarrow> budget_get_latest c' u' (com t) = budget_get_latest c' u' (cur s)"
    and "numbered (\<lambda>x. (bu_cycle_id x, bu_org_unit_id x)) bu_version (budget_uploads (cur s)) \<Longrightarrow>
      numbered (\<lambda>x. (bu_cycle_id x, bu_org_unit_id x)) bu_version (budget_uploads (com t))"
    and "bu_cycle_id up = cid" "bu_org_unit_id up = unit_id"
proof -
  from budget_upload_Inr [OF assms] obtain rs row
    where up: "up = new_budget_upload E cid unit_id filename content u rs s"
      and com: "com t = (with_budget up (budget_lines_of (bu_id up) (account_ids (cur s) (br_account_code ` set rs)) rs) (cur s))
            \<lparr>audit_logs := audit_logs (cur s) @ [row]\<rparr>" .
  have ver: "bu_version up = next_version bu_version
      (\<lambda>x. (bu_cycle_id x, bu_org_unit_id x) = (bu_cycle_id up, bu_org_unit_id up)) (budget_uploads (cur s))"
    and pair: "bu_cycle_id up = cid" "bu_org_unit_id up = unit_id"
    by (simp_all add: up new_budget_upload_def)
  have tbl: "budget_uploads (com t) = budget_uploads (cur s) @ [up]" by (simp add: com with_budget_def)
  show "bu_cycle_id up = cid" "bu_org_unit_id up = unit_id" by (fact pair)+
  show "budget_get_latest cid unit_id (com t) = Some up"
    using budget_versions.latest_append [OF ver]
    unfolding pair budget_get_latest_table [of _ _ "com t"] tbl by simp
  show "budget_get_latest c' u' (com t) = budget_get_latest c' u' (cur s)" if "(c', u') \<noteq> (cid, unit_id)"
    using budget_versions.latest_append_other [of "(c', u')" up "budget_uploads (cur s)"] that pair
    unfolding budget_get_latest_table [of _ _ "com t"] budget_get_latest_table [of _ _ "cur s"] tbl by simp
  show "numbered (\<lambda>x. (bu_cycle_id x, bu_org_unit_id x)) bu_version (budget_uploads (com t))"
    if "numbered (\<lambda>x. (bu_cycle_id x, bu_org_unit_id x)) bu_version (budget_uploads (cur s))"
    unfolding tbl by (rule budget_versions.numbered_append [OF that ver])
qed

text \<open>A row of the accounts sheet as the validator wants it.\<close>

definition budget_row_ok :: "pystr set \<Rightarrow> raw_row \<Rightarrow> bool" where
  "budget_row_ok codes raw \<longleftrightarrow> (\<exists>c \<in> codes. clean_cell (cell_of raw ''account_code'') = Some c)
     \<and> \<not> empty_cell (cell_of raw ''budget_amount'')
     \<and> (\<exists>a. parse_amount (cell_of raw ''budget_amount'') True = Inr a)"

lemma check_budget_row_ok: "(\<exists>c. check_budget_row codes n raw = Inr c) \<longleftrightarrow> budget_row_ok codes raw"
  by (auto simp: check_budget_row_def budget_row_ok_def Let_def split: option.splits sum.splits)

lemma check_budget_row_one: "check_budget_row codes n raw = Inl es \<Longrightarrow> length es = 1"
  by (auto simp: check_budget_row_def Let_def split: option.splits sum.splits if_splits)

text \<open>
  The code of an amount's error is found by looking for \<open>non-negative\<close> in its text, which
  quotes the cell: text that contains these words is reported as a negative amount.
\<close>

lemma non_negative_text_misreported:
  assumes "clean_cell (cell_of raw ''account_code'') = Some c" "c \<in> codes"
    and "cell_of raw ''budget_amount'' = Cell_Str (str ''non-negative'')"
  shows "check_budget_row codes n raw = Inl [row_err n ''budget_amount'' ''UPLOAD_006''
    (Reason_amount (Amount_not_numeric (str ''non-negative'')))]"
proof -
  have "parse_amount (Cell_Str (str ''non-negative'')) True = Inl (Amount_not_numeric (str ''non-negative''))"
    by (simp add: parse_amount_def amount_value_def decimal_of_text_def read_number_def read_sign_def
        digit_val_def digit_zeros_def strip_def is_space_def lower_def lower_char_def all_digits_def Let_def)
  moreover have "contains (str ''non-negative'') (reason_text (Amount_not_numeric (str ''non-negative'')))"
    by (simp add: reason_text_def repr_text_def repr_char_def)
  moreover have "\<not> empty_cell (Cell_Str (str ''non-negative''))"
    by (simp add: empty_cell_def strip_def is_space_def)
  ultimately show ?thesis using assms by (simp add: check_budget_row_def del: str_simps)
qed

section \<open>Sample\<close>

definition budget_book :: workbook where
  "budget_book = \<lparr>sheets = [
     (str ''header'', [[Cell_Str (str ''unit''), Cell_Str (str ''Sales'')], [Cell_Str (str ''code''), Cell_Str (str ''4023'')]]),
     (str ''accounts'', [[Cell_Str (str ''account_code''), Cell_Str (str ''budget_amount'')],
        [Cell_Str (str ''5100''), Cell_Int 300]])], active_sheet = Some (str ''header'')\<rparr>"

definition env_book :: env where
  "env_book = env0\<lparr>load_workbook := (\<lambda>b. Some budget_book)\<rparr>"

lemma env_book_simps [simp]:
  "cfg env_book = default_settings" "storage_ok env_book = True" "load_workbook env_book b = Some budget_book"
  by (simp_all add: env_book_def)

lemma env_book_inv: "store_inv env_book (session_of accounts_db)"
  using accounts_db_inv by (simp add: store_inv_def chain_inv_def log_ok_def accounts_db_def org_db_def)

lemma accounts_db_uploads: "budget_uploads accounts_db = []" "budget_lines accounts_db = []"
  "audit_logs accounts_db = []"
  by (simp_all add: accounts_db_def org_db_def)

lemma budget_book_rows: "validate_budget env_book [80, 75] (str ''4023'') (operational_codes accounts_db) =
    Inr \<lparr>rows = [\<lparr>br_row = 2, br_account_code = str ''5100'', br_amount = 30000\<rparr>], errors = []\<rparr>"
  by (simp add: validate_budget_def open_workbook_def budget_book_def read_dept_code_def clean_cell_def strip_def
      is_space_def read_rows_def resolve_sheet_def header_names_def cell_text_def empty_cell_def dict_of_def
      validate_budget_rows_def check_budget_row_def cell_of_def operational_codes_def codes_by_category_def
      accounts_db_def account0_def parse_amount_def amount_value_def quantize_cents_def round_half_even_def Let_def)

lemma budget_accepted_sample: "budget_accepted env_book 7 2 [80, 75] admin0 accounts_db =
    Inr (unit1, cycle0\<lparr>cycle_status := open\<rparr>, [\<lparr>br_row = 2, br_account_code = str ''5100'', br_amount = 30000\<rparr>])"
proof -
  have "get_row cycle_id 7 (budget_cycles accounts_db) = Some (cycle0\<lparr>cycle_status := open\<rparr>)"
    "get_row ou_id 2 (org_units accounts_db) = Some unit1" "ou_code unit1 = str ''4023''"
    "in_scope (scoped_org_units admin0 accounts_db) 2"
    by (simp_all add: accounts_db_def cycle0_def org_db_def get_row_def unit0_def unit1_def scoped_org_units_def
        global_roles_def)
  then show ?thesis
    by (simp add: budget_accepted_def budget_book_rows valid_def del: str_simps)
qed

lemma budget_upload_sample:
  obtains up t where "budget_upload_file False env_book 7 2 (str ''b.xlsx'') [80, 75] admin0 (session_of accounts_db) = (Inr up, t)"
proof -
  let ?s = "session_of accounts_db"
  have ok: "accounts_ok (account_codes accounts_db)" "db_ok accounts_db"
    using env_book_inv by (simp_all add: store_inv_def db_ok_def)
  have "db_ok (accounts_db\<lparr>budget_uploads := [up]\<rparr>)" if "file_size_bytes up = 2" "row_count up = 1" for up
    using that ok(2) by (simp add: db_ok_def constraint_defs)
  moreover have "db_ok (accounts_db\<lparr>budget_uploads := [up], budget_lines := [l]\<rparr>)"
    if "file_size_bytes up = 2" "row_count up = 1" "bl_amount l = 30000" for up l
    using that ok(2) by (simp add: db_ok_def constraint_defs)
  ultimately show ?thesis
    using that
    by (simp add: budget_upload_run [OF seq_fresh_based [OF env_book_inv]] budget_accepted_sample Let_def
        new_budget_upload_def with_budget_def budget_lines_of_def send_confirmation_def
        accounts_db_uploads del: str_simps)
qed

text \<open>A unit with two versions.\<close>

definition upload0 :: budget_upload where
  "upload0 = \<lparr>bu_id = 80, bu_cycle_id = 7, bu_org_unit_id = 2, bu_uploader_id = 51, bu_version = 1,
     bu_file_path_enc = [], file_size_bytes = 2, row_count = 1, bu_status = valid_status, bu_uploaded_at = 0\<rparr>"

definition versions_db :: db where
  "versions_db = accounts_db\<lparr>
     budget_uploads := [upload0, upload0\<lparr>bu_id := 81, bu_version := 2\<rparr>],
     budget_lines := [\<lparr>bl_upload_id = 80, bl_account_code_id = 50, bl_amount = 500\<rparr>,
       \<lparr>bl_upload_id = 81, bl_account_code_id = 50, bl_amount = 900\<rparr>]\<rparr>"

lemma versions_db_ok: "db_ok versions_db"
  using accounts_db_inv by (simp add: store_inv_def db_ok_def versions_db_def upload0_def constraint_defs)

section \<open>Properties\<close>

text \<open>
  The amounts of the report. The dictionary that \<^verbatim>\<open>get_latest_by_cycle\<close> builds in three
  passes (the latest upload of each unit, the lines of those uploads, a running sum) is a
  plain lookup: under a unit and an account it holds the amount of the line that the unit's
  latest upload has for that account, and nothing if there is no upload or no such line.
\<close>

theorem budget_latest_by_cycle_lookup:
  assumes "db_ok d"
  shows "map_of (budget_latest_by_cycle cid d) (unit_id, acc) =
    (case budget_get_latest cid unit_id d of
       None \<Rightarrow> None
     | Some up \<Rightarrow> map_option bl_amount
         (find (\<lambda>l. (bl_upload_id l, bl_account_code_id l) = (bu_id up, acc)) (budget_lines d)))"
  using assms by (rule budget_lookup)

lemma budget_latest_by_cycle_lookup_witness: "map_of (budget_latest_by_cycle 7 versions_db) (2, 50) = Some 900"
  by (subst budget_latest_by_cycle_lookup [OF versions_db_ok])
    (simp add: versions_db_def upload0_def budget_get_latest_def order_desc_def latest_version_def)

text \<open>
  Claim C27: what a budget workbook must satisfy. Validation returns a result only for a file
  within the size limit that openpyxl can open, whose header sheet names the unit's code,
  and whose accounts sheet is within the row limit. The result is then valid iff every row
  has a known operational account and an amount that is not blank and parses; each faulty row,
  numbered as in the sheet, is reported exactly once, and no other row.
\<close>

theorem budget_file_checked:
  assumes "validate_budget E content dept codes = Inr result"
  shows "int (length content) \<le> max_upload_bytes (cfg E)
    \<and> (\<exists>wb raw. load_workbook E content = Some wb
        \<and> clean_cell (read_dept_code wb) = clean_cell (Cell_Str dept)
        \<and> read_rows wb (Some (str ''accounts'')) 1 = Inr raw
        \<and> int (length raw) \<le> max_upload_rows (cfg E)
        \<and> (valid result \<longleftrightarrow> list_all (budget_row_ok codes) raw)
        \<and> err_row ` set (errors result) = {i + 2 | i. i < length raw \<and> \<not> budget_row_ok codes (raw ! i)}
        \<and> length (errors result) = length (filter (\<lambda>r. \<not> budget_row_ok codes r) raw)
        \<and> length (rows result) = (if valid result then length raw else 0))"
proof -
  from assms obtain wb raw where r: "int (length content) \<le> max_upload_bytes (cfg E)" "load_workbook E content = Some wb"
      "clean_cell (read_dept_code wb) = clean_cell (Cell_Str dept)" "read_rows wb (Some (str ''accounts'')) 1 = Inr raw"
      "int (length raw) \<le> max_upload_rows (cfg E)" and res: "result = validate_budget_rows codes raw"
    by (auto simp: validate_budget_def open_workbook_def simp del: str_simps split: if_splits option.splits sum.splits)
  have bad: "(\<exists>es. check_budget_row codes n x = Inl es) \<longleftrightarrow> \<not> budget_row_ok codes x" for n x
    unfolding check_budget_row_ok [of codes n x, symmetric] by (cases "check_budget_row codes n x") simp_all
  have "length (errors result) = length (filter (\<lambda>r. \<not> budget_row_ok codes r) raw)"
  proof -
    have one: "length (case check_budget_row codes n x of Inl es \<Rightarrow> es | Inr _ \<Rightarrow> []) =
        (if budget_row_ok codes x then 0 else 1)" for n x
      using check_budget_row_one [of codes n x] bad [of n x] by (auto split: sum.splits)
    have "length (errors result) = (\<Sum>(i, x) \<leftarrow> zip [0..<length raw] raw. if budget_row_ok codes x then 0 else 1)"
      unfolding res budget.run_errors length_concat map_map by (rule arg_cong [of _ _ sum_list]) (auto simp: one)
    also have "\<dots> = (\<Sum>x \<leftarrow> raw. if budget_row_ok codes x then 0 else 1)"
      by (rule arg_cong [of _ _ sum_list], rule nth_equalityI) auto
    also have "\<dots> = length (filter (\<lambda>r. \<not> budget_row_ok codes r) raw)" by (induction raw) auto
    finally show ?thesis .
  qed
  moreover have "length (rows result) = (if valid result then length raw else 0)"
    using budget.one_per_row(1) [of codes raw] budget.all_or_nothing [of codes raw] by (auto simp: res)
  moreover have "valid result \<longleftrightarrow> list_all (budget_row_ok codes) raw"
    by (simp only: res budget.valid_iff check_budget_row_ok list_all_length)
  moreover have "err_row ` set (errors result) = {i + 2 | i. i < length raw \<and> \<not> budget_row_ok codes (raw ! i)}"
    by (simp only: res budget.reported_rows bad add.commute [of 2])
  ultimately show ?thesis using r by blast
qed

lemma budget_file_checked_witness:
  "valid \<lparr>rows = [\<lparr>br_row = 2, br_account_code = str ''5100'', br_amount = 30000\<rparr>], errors = []\<rparr> \<and>
   (\<exists>raw. length raw = 1 \<and> list_all (budget_row_ok (operational_codes accounts_db)) raw)"
proof -
  have v: "valid \<lparr>rows = [\<lparr>br_row = 2, br_account_code = str ''5100'', br_amount = 30000\<rparr>], errors = []\<rparr>"
    by (simp add: valid_def)
  with budget_file_checked [OF budget_book_rows] show ?thesis by fastforce
qed

text \<open>
  Claim C22: a budget upload is all or nothing and versioned. If it fails, the committed
  database is as it was. If it succeeds, the cycle was open, the unit in the user's scope and
  the file within both limits; exactly one upload was added, with one line per row of the
  file, one audit row and the file itself under its key; the new upload is the latest of
  its cycle and unit, the latest of every other pair is unchanged, and if the versions of
  every pair were 1, 2, 3, ... before, they are so after.
\<close>

theorem budget_upload_effect:
  assumes "store_inv E s" "cur s = com s"
  shows "case budget_upload_file False E cid unit_id filename content u s of
      (Inl e, t) \<Rightarrow> com t = com s
    | (Inr up, t) \<Rightarrow> \<exists>c ls row.
        get_row cycle_id cid (budget_cycles (com s)) = Some c \<and> cycle_status c = open
      \<and> in_scope (scoped_org_units u (com s)) unit_id
      \<and> int (length content) \<le> max_upload_bytes (cfg E) \<and> row_count up \<le> max_upload_rows (cfg E)
      \<and> com t = (com s)\<lparr>budget_uploads := budget_uploads (com s) @ [up],
            budget_lines := budget_lines (com s) @ ls, audit_logs := audit_logs (com s) @ [row]\<rparr>
      \<and> action row = BUDGET_UPLOAD \<and> resource_id row = Some (bu_id up) \<and> al_user_id row = Some (user_id u)
      \<and> int (length ls) = row_count up \<and> (\<forall>l \<in> set ls. bl_upload_id l = bu_id up \<and> 0 \<le> bl_amount l)
      \<and> content \<in> snd ` set (files t)
      \<and> budget_get_latest cid unit_id (com t) = Some up
      \<and> (\<forall>c' u'. (c', u') \<noteq> (cid, unit_id) \<longrightarrow> budget_get_latest c' u' (com t) = budget_get_latest c' u' (com s))
      \<and> (numbered (\<lambda>x. (bu_cycle_id x, bu_org_unit_id x)) bu_version (budget_uploads (com s)) \<longrightarrow>
          numbered (\<lambda>x. (bu_cycle_id x, bu_org_unit_id x)) bu_version (budget_uploads (com t)))"
proof -
  have fresh: "seq_fresh s" using assms(1) by (rule seq_fresh_based)
  obtain r t where run: "budget_upload_file False E cid unit_id filename content u s = (r, t)" by fastforce
  show ?thesis
  proof (cases r)
    case (Inl e)
    with run budget_upload_Inl [OF fresh] show ?thesis by simp
  next
    case (Inr up)
    from budget_upload_Inr [OF fresh run [unfolded Inr]] obtain w c rs row
      where acc: "budget_accepted E cid unit_id content u (cur s) = Inr (w, c, rs)"
        and up: "up = new_budget_upload E cid unit_id filename content u rs s"
        and com: "com t = (with_budget up (budget_lines_of (bu_id up) (account_ids (cur s) (br_account_code ` set rs)) rs) (cur s))
            \<lparr>audit_logs := audit_logs (cur s) @ [row]\<rparr>"
        and row: "action row = BUDGET_UPLOAD" "resource_id row = Some (bu_id up)" "al_user_id row = Some (user_id u)"
        and saved: "map_of (files t) (build_key ''budget_uploads'' filename (clock s) (uid_next s)) = Some content" .
    have pair: "bu_cycle_id up = cid" "bu_org_unit_id up = unit_id" "row_count up = int (length rs)"
      by (simp_all add: up new_budget_upload_def)
    note facts = budget_accepted_bounds [OF acc, unfolded assms(2)]
    note latest = upload_latest [OF fresh run [unfolded Inr], unfolded assms(2)]
    have lines: "\<forall>l \<in> set (budget_lines_of (bu_id up) (account_ids (cur s) (br_account_code ` set rs)) rs). bl_upload_id l = bu_id up \<and> 0 \<le> bl_amount l"
      "length (budget_lines_of (bu_id up) (account_ids (cur s) (br_account_code ` set rs)) rs) = length rs"
      using facts(7) by (auto simp: budget_lines_of_def)
    have kept: "content \<in> snd ` set (files t)" using map_of_SomeD [OF saved] by force
    show ?thesis
      unfolding run Inr prod.case sum.case
      by (rule exI [of _ c], rule exI [of _ "budget_lines_of (bu_id up) (account_ids (com s) (br_account_code ` set rs)) rs"],
          rule exI [of _ row], intro conjI)
        (use facts(1-6) kept row lines pair latest com assms(2) in \<open>simp_all add: with_budget_def\<close>)
  qed
qed

text \<open>The tables after an upload, as the report will read them.\<close>

lemma uploaded_facts:
  assumes inv: "store_inv E s" "cur s = com s" "uploads_fresh s"
    and run: "budget_upload_file False E cid unit_id filename content u s = (Inr up, t)"
    and accepted: "budget_accepted E cid unit_id content u (com s) = Inr (w, c, rs)"
  shows "up = new_budget_upload E cid unit_id filename content u rs s"
    and "budget_lines (com t) = budget_lines (com s) @ budget_lines_of (bu_id up) (account_ids (com s) (br_account_code ` set rs)) rs"
    and "db_ok (com t)" "db_ok (com s)"
    and "budget_get_latest cid unit_id (com t) = Some up"
    and "v \<noteq> unit_id \<Longrightarrow> budget_get_latest cid v (com t) = budget_get_latest cid v (com s)"
proof -
  have fresh: "seq_fresh s" using inv(1) by (rule seq_fresh_based)
  from budget_upload_Inr [OF fresh run, unfolded inv(2)] obtain w' c' rs' row
    where acc: "budget_accepted E cid unit_id content u (com s) = Inr (w', c', rs')"
      and up': "up = new_budget_upload E cid unit_id filename content u rs' s"
      and com': "com t = (with_budget up (budget_lines_of (bu_id up) (account_ids (com s) (br_account_code ` set rs')) rs') (com s))
        \<lparr>audit_logs := audit_logs (com s) @ [row]\<rparr>" .
  from acc accepted have "rs' = rs" by simp
  note up = up' [unfolded this] and com = com' [unfolded this]
  have "store_inv E (snd (budget_upload_file False E cid unit_id filename content u s))"
    by (rule store_inv_run [OF stored.kept_budget(4) inv(1)])
  then have "store_inv E t" using run by simp
  then have ok: "db_ok (com t)" "db_ok (com s)" using inv(1) by (simp_all add: store_inv_def)
  have latest: "budget_get_latest cid unit_id (com t) = Some up"
    "\<And>v. v \<noteq> unit_id \<Longrightarrow> budget_get_latest cid v (com t) = budget_get_latest cid v (com s)"
    using upload_latest(1,2) [OF fresh run] inv(2) by simp_all
  show "db_ok (com t)" "db_ok (com s)" by (rule ok)+
  show "up = new_budget_upload E cid unit_id filename content u rs s" by (rule up)
  show "budget_lines (com t) = budget_lines (com s) @ budget_lines_of (bu_id up) (account_ids (com s) (br_account_code ` set rs)) rs"
    by (simp add: com with_budget_def)
  show "budget_get_latest cid unit_id (com t) = Some up" by (rule latest(1))
  show "v \<noteq> unit_id \<Longrightarrow> budget_get_latest cid v (com t) = budget_get_latest cid v (com s)" by (rule latest(2))
qed

lemma uploaded_lines_distinct: "db_ok d \<Longrightarrow> distinct (map (\<lambda>l. (bl_upload_id l, bl_account_code_id l)) (budget_lines d))"
  by (simp add: db_ok_def lines_ok_def)

lemma uploaded_in_file:
  assumes inv: "store_inv E s" "cur s = com s" "uploads_fresh s"
    and run: "budget_upload_file False E cid unit_id filename content u s = (Inr up, t)"
    and accepted: "budget_accepted E cid unit_id content u (com s) = Inr (w, c, rs)"
    and r: "r \<in> set rs"
  shows "\<exists>a \<in> set (account_codes (com s)). ac_code a = br_account_code r \<and> category a = operational
     \<and> map_of (budget_latest_by_cycle cid (com t)) (unit_id, ac_id a) = Some (br_amount r)"
proof -
  note facts = uploaded_facts [OF inv run accepted]
  note lines = facts(2) and latest = facts(5) and look = budget_lookup [OF facts(3)]
    and dist = uploaded_lines_distinct [OF facts(3)]
  let ?ids = "account_ids (com s) (br_account_code ` set rs)"
  note known = accepted_rows_known [OF accepted]
    budget_accepted_bounds(7) [OF accepted, unfolded operational_codes_def]
  have accs: "accounts_ok (account_codes (com s))" using facts(4) by (simp add: db_ok_def)
  from known(1) r obtain i where i: "?ids (br_account_code r) = Some i" by auto
  from account_ids_account [OF accs i, of operational] known(2) r obtain a where
      a: "a \<in> set (account_codes (com s))" "ac_code a = br_account_code r" "ac_id a = i" "category a = operational" by blast
  let ?l = "\<lparr>bl_upload_id = bu_id up, bl_account_code_id = i, bl_amount = br_amount r\<rparr>"
  have "?l \<in> set (budget_lines (com t))" using r i by (force simp: lines budget_lines_of_def)
  from get_row_distinct [OF dist this] have "map_of (budget_latest_by_cycle cid (com t)) (unit_id, i) = Some (br_amount r)"
    by (simp add: look latest get_row_def)
  with a show ?thesis by blast
qed

lemma uploaded_not_in_file:
  assumes inv: "store_inv E s" "cur s = com s" "uploads_fresh s"
    and run: "budget_upload_file False E cid unit_id filename content u s = (Inr up, t)"
    and accepted: "budget_accepted E cid unit_id content u (com s) = Inr (w, c, rs)"
    and a: "a \<in> set (account_codes (com s))" "ac_code a \<notin> br_account_code ` set rs"
  shows "map_of (budget_latest_by_cycle cid (com t)) (unit_id, ac_id a) = None"
proof -
  note facts = uploaded_facts [OF inv run accepted]
  note up = facts(1) and lines = facts(2) and latest = facts(5) and look = budget_lookup [OF facts(3)]
  let ?ids = "account_ids (com s) (br_account_code ` set rs)" and ?key = "\<lambda>l. (bl_upload_id l, bl_account_code_id l)"
  note known = accepted_rows_known [OF accepted]
    budget_accepted_bounds(7) [OF accepted, unfolded operational_codes_def]
  have accs: "accounts_ok (account_codes (com s))" using facts(4) by (simp add: db_ok_def)
  have "?key l \<noteq> (bu_id up, ac_id a)" if "l \<in> set (budget_lines (com t))" for l
  proof (cases "l \<in> set (budget_lines (com s))")
    case True
    with inv(2,3) show ?thesis by (auto simp: uploads_fresh_def up new_budget_upload_def)
  next
    case False
    with that obtain r where "r \<in> set rs" "bl_account_code_id l = the (?ids (br_account_code r))"
      by (auto simp: lines budget_lines_of_def)
    with account_ids_other [OF accs _ _ a(1), of _ "br_account_code r" operational] known a(2) show ?thesis by fastforce
  qed
  then show ?thesis by (simp add: look latest find_None_iff)
qed

lemma uploaded_elsewhere:
  assumes inv: "store_inv E s" "cur s = com s" "uploads_fresh s"
    and run: "budget_upload_file False E cid unit_id filename content u s = (Inr up, t)"
    and accepted: "budget_accepted E cid unit_id content u (com s) = Inr (w, c, rs)"
    and "v \<noteq> unit_id"
  shows "map_of (budget_latest_by_cycle cid (com t)) (v, acc) = map_of (budget_latest_by_cycle cid (com s)) (v, acc)"
proof -
  note facts = uploaded_facts [OF inv run accepted]
  note lines = facts(2) and ok = facts(3,4) and latest = facts(5) facts(6) [OF \<open>v \<noteq> unit_id\<close>]
    and look = budget_lookup [OF facts(3)] budget_lookup [OF facts(4)]
  let ?ids = "account_ids (com s) (br_account_code ` set rs)" and ?key = "\<lambda>l. (bl_upload_id l, bl_account_code_id l)"
  show ?thesis
  proof (cases "budget_get_latest cid v (com s)")
    case (Some x)
    have x: "budget_get_latest cid v (com t) = Some x" using Some latest(2) by simp
    note xs = budget_get_latest_Some [OF x] and ups = budget_get_latest_Some [OF latest(1)]
    have "x \<noteq> up" using conjunct2 [OF conjunct2 [OF xs]] conjunct2 [OF conjunct2 [OF ups]] \<open>v \<noteq> unit_id\<close> by (intro notI) simp
    note conjunct1 [OF xs] conjunct1 [OF ups] this
    moreover have "distinct (map bu_id (budget_uploads (com t)))" using ok(1) by (simp add: db_ok_def uploads_ok_def)
    ultimately have "bu_id x \<noteq> bu_id up" by (metis distinct_map_eq)
    then have "find (\<lambda>l. ?key l = (bu_id x, acc)) (budget_lines_of (bu_id up) ?ids rs) = None"
      by (auto simp: find_None_iff budget_lines_of_def)
    with get_row_append [of ?key "(bu_id x, acc)" "budget_lines (com s)" "budget_lines_of (bu_id up) ?ids rs"] Some
    show ?thesis by (simp add: look latest(2) lines get_row_def split: option.splits)
  qed (simp add: look latest(2))
qed

text \<open>
  Claim C23: from the file to the report. After a successful upload, the aggregated amounts of
  the cycle show, for the unit, the amount of every row of the file under the identifier of
  the operational account with its code, and nothing under any other account, whatever
  earlier versions said; the amounts of every other unit are as before.
\<close>

theorem uploaded_amounts_reported:
  assumes inv: "store_inv E s" "cur s = com s" "uploads_fresh s"
    and run: "budget_upload_file False E cid unit_id filename content u s = (Inr up, t)"
    and accepted: "budget_accepted E cid unit_id content u (com s) = Inr (w, c, rs)"
  shows "(\<forall>r \<in> set rs. \<exists>a \<in> set (account_codes (com s)). ac_code a = br_account_code r \<and> category a = operational
        \<and> map_of (budget_latest_by_cycle cid (com t)) (unit_id, ac_id a) = Some (br_amount r))
    \<and> (\<forall>a \<in> set (account_codes (com s)). ac_code a \<notin> br_account_code ` set rs \<longrightarrow>
        map_of (budget_latest_by_cycle cid (com t)) (unit_id, ac_id a) = None)
    \<and> (\<forall>v acc. v \<noteq> unit_id \<longrightarrow> map_of (budget_latest_by_cycle cid (com t)) (v, acc)
        = map_of (budget_latest_by_cycle cid (com s)) (v, acc))"
  using uploaded_in_file [OF assms] uploaded_not_in_file [OF assms] uploaded_elsewhere [OF assms] by blast

lemma budget_upload_effect_witness:
  "\<exists>up t. budget_upload_file False env_book 7 2 (str ''b.xlsx'') [80, 75] admin0 (session_of accounts_db) = (Inr up, t)
     \<and> budget_get_latest 7 2 (com t) = Some up"
proof -
  obtain up t where r: "budget_upload_file False env_book 7 2 (str ''b.xlsx'') [80, 75] admin0
      (session_of accounts_db) = (Inr up, t)" by (rule budget_upload_sample)
  have "budget_get_latest 7 2 (com t) = Some up"
    using budget_upload_effect [OF env_book_inv, where cid = 7 and unit_id = 2 and filename = "str ''b.xlsx''"
        and content = "[80, 75]" and u = admin0, unfolded r] by auto
  with r show ?thesis by (intro exI conjI)
qed

lemma uploaded_amounts_reported_witness:
  "\<exists>up t. budget_upload_file False env_book 7 2 (str ''b.xlsx'') [80, 75] admin0 (session_of accounts_db) = (Inr up, t)
     \<and> map_of (budget_latest_by_cycle 7 (com t)) (2, 50) = Some 30000"
proof -
  obtain up t where r: "budget_upload_file False env_book 7 2 (str ''b.xlsx'') [80, 75] admin0
      (session_of accounts_db) = (Inr up, t)" by (rule budget_upload_sample)
  have fresh: "uploads_fresh (session_of accounts_db)"
    by (simp add: uploads_fresh_def accounts_db_def org_db_def)
  have codes: "account_codes accounts_db = [account0]" "ac_id account0 = 50"
    by (simp_all add: accounts_db_def account0_def)
  have "map_of (budget_latest_by_cycle 7 (com t)) (2, 50) = Some 30000"
    using uploaded_amounts_reported [OF env_book_inv _ fresh r, unfolded session_of_simps, OF refl budget_accepted_sample]
    by (simp add: codes)
  with r show ?thesis by (intro exI conjI)
qed

text \<open>
  The read routes keep to the caller's scope. An upload that \<^verbatim>\<open>GET /uploads/{id}\<close> returns
  is the stored one and belongs to a unit in the caller's scope, and so do all rows of
  \<^verbatim>\<open>GET /cycles/{id}/uploads/{unit}\<close>, which come with the versions decreasing; an upload that does
  not exist is answered 404 \<open>UPLOAD_008\<close> and one outside the scope 403 \<open>RBAC_002\<close>, to every user
  whose role the route admits.
\<close>

theorem upload_reads_scoped:
  assumes "set (role_set u) \<inter> {FilingUnitManager, FinanceAdmin, SystemAdmin, UplineReviewer, CompanyReviewer} \<noteq> {}"
  shows "fst (get_upload i u s) = (case get_row bu_id i (budget_uploads (com s)) of
        None \<Rightarrow> Inl (app_err NotFoundError ''UPLOAD_008'')
      | Some up \<Rightarrow> if in_scope (scoped_org_units u (com s)) (bu_org_unit_id up) then Inr up
                   else Inl (app_err ForbiddenError ''RBAC_002''))
    \<and> (case fst (list_upload_versions cid unit_id u s) of
        Inl e \<Rightarrow> \<not> in_scope (scoped_org_units u (com s)) unit_id \<and> e = app_err ForbiddenError ''RBAC_002''
      | Inr ups \<Rightarrow> in_scope (scoped_org_units u (com s)) unit_id
          \<and> set ups = {up \<in> set (budget_uploads (com s)). bu_cycle_id up = cid \<and> bu_org_unit_id up = unit_id}
          \<and> sorted (map (\<lambda>up. - bu_version up) ups))"
proof -
  have role: "require_role [FilingUnitManager, FinanceAdmin, SystemAdmin, UplineReviewer, CompanyReviewer,
      ITSecurityAuditor] u = ret u"
    "require_role [FilingUnitManager, FinanceAdmin, SystemAdmin, UplineReviewer, CompanyReviewer] u = ret u"
    using assms by (auto simp: require_role_def)
  have "fst (get_upload i u s) = (case get_row bu_id i (budget_uploads (com s)) of
        None \<Rightarrow> Inl (app_err NotFoundError ''UPLOAD_008'')
      | Some up \<Rightarrow> if in_scope (scoped_org_units u (com s)) (bu_org_unit_id up) then Inr up
                   else Inl (app_err ForbiddenError ''RBAC_002''))"
    by (simp add: get_upload_def role fst_get_session budget_get_def act_simps assert_scope_run app_error_init_def
        split: option.splits)
  moreover have "case fst (list_upload_versions cid unit_id u s) of
        Inl e \<Rightarrow> \<not> in_scope (scoped_org_units u (com s)) unit_id \<and> e = app_err ForbiddenError ''RBAC_002''
      | Inr ups \<Rightarrow> in_scope (scoped_org_units u (com s)) unit_id
          \<and> set ups = {up \<in> set (budget_uploads (com s)). bu_cycle_id up = cid \<and> bu_org_unit_id up = unit_id}
          \<and> sorted (map (\<lambda>up. - bu_version up) ups)"
    by (simp add: list_upload_versions_def role fst_get_session act_simps assert_scope_run app_error_init_def
        budget_list_versions_def) (simp add: order_desc_def)
  ultimately show ?thesis by blast
qed

lemma upload_reads_scoped_witness:
  "fst (get_upload 5 admin0 (session_of accounts_db)) = Inl (app_err NotFoundError ''UPLOAD_008'')"
  using upload_reads_scoped [of admin0 5 "session_of accounts_db"]
  by (simp add: accounts_db_def org_db_def get_row_def)

end
