(* ===== verification/Imports.thy ===== *)
theory Imports
  imports Versions Notifications
begin

text \<open>
  What the personnel import (\<^verbatim>\<open>domain/personnel\<close>) and the shared-cost import
  (\<^verbatim>\<open>domain/shared_costs\<close>) have in common: header allow-list, the shape of a cleaned row and of
  the stored lines, the version of a cycle, and the amounts of its latest version.
\<close>

section \<open>Headers\<close>

definition HEADER_MAP :: "(pystr \<times> string) list" where
  "HEADER_MAP = [(str ''dept_id'', ''dept_id''), ([37096, 38272, 105, 100], ''dept_id''),
     (str ''org_unit_code'', ''dept_id''), (str ''account_code'', ''account_code''),
     ([26371, 31185, 20195, 30908], ''account_code''), (str ''amount'', ''amount''),
     ([37329, 38989], ''amount'')]"

text \<open>\<open>clean_cell(key) or ""\<close> on a header.\<close>

definition clean_header :: "pystr \<Rightarrow> pystr" where
  "clean_header k = (case clean_cell (Cell_Str k) of None \<Rightarrow> [] | Some c \<Rightarrow> c)"

section \<open>Rows and lines\<close>

record import_row =
  ir_org_unit_id :: uuid
  ir_account_code :: pystr
  ir_amount :: cents

definition cell_at :: "(string \<times> cell) list \<Rightarrow> string \<Rightarrow> cell" where
  "cell_at raw k = (case map_of raw k of None \<Rightarrow> Cell_None | Some v \<Rightarrow> v)"

text \<open>
  The check of a row that both validators make; they differ in the error codes, the set of
  account codes and the text of one error.
\<close>

definition check_import_row :: "string \<Rightarrow> string \<Rightarrow> string \<Rightarrow> (amount_reason \<Rightarrow> reason)
    \<Rightarrow> (pystr \<Rightarrow> uuid option) \<Rightarrow> pystr set \<Rightarrow> nat \<Rightarrow> (string \<times> cell) list \<Rightarrow> row_error list + import_row" where
  "check_import_row e_unit e_code e_amount why ocodes codes n raw =
     (let dept = clean_cell (cell_at raw ''dept_id'') in
      case (case dept of None \<Rightarrow> None | Some d \<Rightarrow> ocodes d) of
        None \<Rightarrow> Inl [row_err n ''dept_id'' e_unit
          (case dept of None \<Rightarrow> Reason_unknown_none | Some d \<Rightarrow> Reason_unknown d)]
      | Some i \<Rightarrow>
          (case clean_cell (cell_at raw ''account_code'') of
             None \<Rightarrow> Inl [row_err n ''account_code'' e_code Reason_not_in_category]
           | Some c \<Rightarrow>
               if c \<notin> codes then Inl [row_err n ''account_code'' e_code Reason_not_in_category]
               else (case parse_amount (cell_at raw ''amount'') False of
                   Inl r \<Rightarrow> Inl [row_err n ''amount'' e_amount (why r)]
                 | Inr a \<Rightarrow> Inr \<lparr>ir_org_unit_id = i, ir_account_code = c, ir_amount = a\<rparr>)))"

definition import_row_ok :: "(pystr \<Rightarrow> uuid option) \<Rightarrow> pystr set \<Rightarrow> (string \<times> cell) list \<Rightarrow> bool" where
  "import_row_ok ocodes codes raw \<longleftrightarrow>
     (\<exists>d. clean_cell (cell_at raw ''dept_id'') = Some d \<and> ocodes d \<noteq> None)
   \<and> (\<exists>c \<in> codes. clean_cell (cell_at raw ''account_code'') = Some c)
   \<and> (\<exists>a. parse_amount (cell_at raw ''amount'') False = Inr a)"

lemma check_import_row_ok:
  "(\<exists>c. check_import_row e1 e2 e3 why ocodes codes n raw = Inr c) \<longleftrightarrow> import_row_ok ocodes codes raw"
  by (auto simp: check_import_row_def import_row_ok_def Let_def split: option.splits sum.splits)

lemma check_import_row_Inr: "check_import_row e1 e2 e3 why ocodes codes n raw = Inr r \<Longrightarrow>
    ir_account_code r \<in> codes \<and> ir_org_unit_id r \<in> ran ocodes \<and> 0 \<le> ir_amount r"
  by (auto simp: check_import_row_def Let_def ran_def split: option.splits sum.splits if_splits dest: parse_amount_nonneg)

lemma check_import_row_Inl: "check_import_row e1 e2 e3 why ocodes codes n raw = Inl es \<Longrightarrow>
    es \<noteq> [] \<and> (\<forall>e \<in> set es. err_row e = n)"
  by (auto simp: check_import_row_def Let_def split: option.splits sum.splits if_splits)

section \<open>Latest version of a cycle\<close>

definition import_latest :: "uuid \<Rightarrow> import_upload list \<Rightarrow> import_upload option" where
  "import_latest cid ups = latest_version iu_version (\<lambda>x. iu_cycle_id x = cid) ups"

interpretation import_versions: version_store iu_cycle_id iu_version
  "\<lambda>k. next_version iu_version (\<lambda>x. iu_cycle_id x = k)" import_latest
  using version_store_queries [of iu_cycle_id iu_version] by (simp add: import_latest_def [abs_def])

text \<open>The sums over the lines of the latest version, by unit and account.\<close>

definition import_amounts :: "uuid \<Rightarrow> import_upload list \<Rightarrow> import_line list \<Rightarrow> (uuid \<times> uuid, int) dict" where
  "import_amounts cid ups ls = (case import_latest cid ups of
      None \<Rightarrow> []
    | Some up \<Rightarrow> sum_by (\<lambda>l. (il_org_unit_id l, il_account_code_id l)) il_amount
        (filter (\<lambda>l. il_upload_id l = iu_id up) ls) [])"

lemma import_amounts_lookup:
  assumes "import_lines_ok ls"
  shows "map_of (import_amounts cid ups ls) (unit_id, acc) = (case import_latest cid ups of
      None \<Rightarrow> None
    | Some up \<Rightarrow> map_option il_amount
        (find (\<lambda>l. (il_upload_id l, il_org_unit_id l, il_account_code_id l) = (iu_id up, unit_id, acc)) ls))"
proof (cases "import_latest cid ups")
  case (Some up)
  let ?key = "\<lambda>l. (il_org_unit_id l, il_account_code_id l)"
  let ?lines = "filter (\<lambda>l. il_upload_id l = iu_id up) ls"
  have "distinct (map (\<lambda>l. (il_upload_id l, il_org_unit_id l, il_account_code_id l)) ls)"
    using assms by (simp add: import_lines_ok_def)
  note one = filter_key_distinct [OF this]
  have f: "filter (\<lambda>l. ?key l = (unit_id, acc)) ?lines =
      filter (\<lambda>l. (il_upload_id l, il_org_unit_id l, il_account_code_id l) = (iu_id up, unit_id, acc)) ls"
    unfolding filter_filter by (rule filter_cong) auto
  have "map_of (import_amounts cid ups ls) (unit_id, acc) =
      (let xs = filter (\<lambda>l. ?key l = (unit_id, acc)) ?lines in
        if xs \<noteq> [] then Some (sum_list (map il_amount xs)) else None)"
    unfolding import_amounts_def Some option.case Let_def map_of_sum_by mem_filter_image [of _ ?key] total_def by simp
  also have "\<dots> = map_option il_amount
        (find (\<lambda>l. (il_upload_id l, il_org_unit_id l, il_account_code_id l) = (iu_id up, unit_id, acc)) ls)"
    unfolding f one by (auto split: option.splits)
  finally show ?thesis by (simp add: Some)
qed (simp add: import_amounts_def)

section \<open>The stored lines\<close>

definition import_lines_of :: "uuid \<Rightarrow> (pystr \<Rightarrow> uuid option) \<Rightarrow> import_row list \<Rightarrow> import_line list" where
  "import_lines_of up ids rs = map (\<lambda>r. \<lparr>il_upload_id = up, il_org_unit_id = ir_org_unit_id r,
     il_account_code_id = the (ids (ir_account_code r)), il_amount = ir_amount r\<rparr>) rs"

lemma find_map_option: "find P (map f xs) = map_option f (find (\<lambda>x. P (f x)) xs)"
  by (induction xs) simp_all

lemma find_append: "find P (xs @ ys) = (case find P xs of None \<Rightarrow> find P ys | Some x \<Rightarrow> Some x)"
  by (induction xs) simp_all

lemma find_none: "(\<And>x. x \<in> set xs \<Longrightarrow> \<not> P x) \<Longrightarrow> find P xs = None"
  by (auto simp: find_None_iff)

text \<open>After a new version the amounts of its cycle are those of its rows, and no other cycle's change.\<close>

lemma import_amounts_new:
  assumes "import_lines_ok (ls @ import_lines_of (iu_id up) ids rs)"
    and "iu_version up = next_version iu_version (\<lambda>x. iu_cycle_id x = iu_cycle_id up) ups"
    and "\<forall>l \<in> set ls. il_upload_id l \<noteq> iu_id up" and "\<forall>r \<in> set rs. ids (ir_account_code r) \<noteq> None"
  shows "map_of (import_amounts (iu_cycle_id up) (ups @ [up]) (ls @ import_lines_of (iu_id up) ids rs)) (v, acc) =
    map_option ir_amount (find (\<lambda>r. ir_org_unit_id r = v \<and> ids (ir_account_code r) = Some acc) rs)"
proof -
  have latest: "import_latest (iu_cycle_id up) (ups @ [up]) = Some up"
    using import_versions.latest_append [of up ups] assms(2) by simp
  have "find (\<lambda>l. (il_upload_id l, il_org_unit_id l, il_account_code_id l) = (iu_id up, v, acc)) ls = None"
    by (rule find_none) (use assms(3) in auto)
  moreover have "find (\<lambda>r. ir_org_unit_id r = v \<and> the (ids (ir_account_code r)) = acc) rs
      = find (\<lambda>r. ir_org_unit_id r = v \<and> ids (ir_account_code r) = Some acc) rs"
    by (rule find_cong) (use assms(4) in auto)
  ultimately show ?thesis
    unfolding import_amounts_lookup [OF assms(1)] latest option.case find_append
    by (simp add: import_lines_of_def find_map_option option.map_comp comp_def)
qed

lemma import_amounts_other:
  assumes "import_lines_ok (ls @ import_lines_of (iu_id up) ids rs)" "import_lines_ok ls"
    and "distinct (map iu_id (ups @ [up]))" "c \<noteq> iu_cycle_id up"
  shows "map_of (import_amounts c (ups @ [up]) (ls @ import_lines_of (iu_id up) ids rs)) (v, acc) =
    map_of (import_amounts c ups ls) (v, acc)"
proof -
  have latest: "import_latest c (ups @ [up]) = import_latest c ups"
    using assms(4) by (rule import_versions.latest_append_other)
  show ?thesis
  proof (cases "import_latest c ups")
    case (Some x)
    then have "x \<in> set ups" using import_versions.latest_Some by blast
    moreover have "iu_id up \<notin> iu_id ` set ups" using assms(3) by simp
    ultimately have "iu_id x \<noteq> iu_id up" by (metis imageI)
    then have "find (\<lambda>l. (il_upload_id l, il_org_unit_id l, il_account_code_id l) = (iu_id x, v, acc))
        (import_lines_of (iu_id up) ids rs) = None"
      by (intro find_none) (auto simp: import_lines_of_def)
    with Some show ?thesis
      by (simp add: import_amounts_lookup [OF assms(1)] import_amounts_lookup [OF assms(2)] latest find_append
          split: option.splits)
  qed (simp add: import_amounts_lookup [OF assms(1)] import_amounts_lookup [OF assms(2)] latest)
qed

text \<open>A stored file, with as many further identifiers drawn.\<close>

definition file_stored :: "string \<Rightarrow> pystr \<Rightarrow> bytes \<Rightarrow> nat \<Rightarrow> session \<Rightarrow> session" where
  "file_stored cat filename content n s = s\<lparr>uid_next := uid_next s + n,
     files := AList.update (build_key cat filename (clock s) (uid_next s)) content (files s)\<rparr>"

lemma file_stored_simps [simp]:
  "cur (file_stored cat filename content n s) = cur s" "com (file_stored cat filename content n s) = com s"
  "clock (file_stored cat filename content n s) = clock s" "mails (file_stored cat filename content n s) = mails s"
  "uid_next (file_stored cat filename content n s) = uid_next s + n"
  "(file_stored cat filename content n s)\<lparr>uid_next := uid_next s + m\<rparr> = file_stored cat filename content m s"
  "seq_fresh (file_stored cat filename content n s) = seq_fresh s"
  by (simp_all add: file_stored_def)

lemma storage_save_stored:
  assumes "cat \<in> set ALLOWED_CATEGORIES"
  shows "storage_save E cat filename content s =
    (if storage_ok E then (Inr (build_key cat filename (clock s) (uid_next s)), file_stored cat filename content 1 s)
     else (Inl (app_err InfraError ''SYS_002''), s\<lparr>uid_next := Suc (uid_next s)\<rparr>))"
  using assms by (simp add: storage_save_run file_stored_def Let_def)

section \<open>Notifications do not commit\<close>

lemma com_basic [preserves_intros]:
  "preserves (\<lambda>s. com s = d) (update f)" "preserves (\<lambda>s. com s = d) rollback"
  "preserves (\<lambda>s. com s = d) flush" "preserves (\<lambda>s. com s = d) new_uuid"
  "preserves (\<lambda>s. com s = d) next_sequence_no"
  by (simp_all add: preserves_def act_simps)

lemma com_audit_record [preserves_intros]:
  "preserves (\<lambda>s. com s = d) (audit_record E act rt rid uid ip det)"
  unfolding audit_record_def Let_def by (intro preserves_intros)

lemma com_notify [preserves_intros]:
  "preserves (\<lambda>s. com s = d) (email_send E t a ctx)"
  "preserves (\<lambda>s. com s = d) (notify_send E t uid a ctx rel)"
  "preserves (\<lambda>s. com s = d) (send_batch E t rs ctx rel)"
proof -
  show mail: "preserves (\<lambda>s. com s = d) (email_send E t a ctx)"
    unfolding email_send_def by (intro preserves_intros preserves_modify) simp
  show send: "preserves (\<lambda>s. com s = d) (notify_send E t uid a ctx rel)" for uid a
    unfolding notify_send_def Let_def notif_insert_def notif_get_def put_notification_def mark_sent_def
      mark_failed_def current_notification_def email_send_def
    by (intro preserves_intros preserves_modify; simp)
  show "preserves (\<lambda>s. com s = d) (send_batch E t rs ctx rel)"
    unfolding send_batch_def by (intro preserves_intros send)
qed

end
