(* ===== verification/Personnel.thy ===== *)
theory Personnel
  imports Imports
begin

text \<open>
  \<^verbatim>\<open>domain/personnel/\<close>: the import of personnel budgets. Each import of a cycle is a new version
  with all its lines; the report reads the latest version only.
\<close>

section \<open>PersonnelImportValidator\<close>

definition personnel_header :: "pystr \<Rightarrow> string option" where
  "personnel_header k = (case map_of HEADER_MAP (clean_header k) of
      Some c \<Rightarrow> Some c | None \<Rightarrow> map_of HEADER_MAP (lower (clean_header k)))"

text \<open>The columns are mapped by the keys of the first row.\<close>

definition normalize_personnel :: "raw_row list \<Rightarrow> (string \<times> cell) list list \<times> pystr list" where
  "normalize_personnel raw_rows = (case raw_rows of
      [] \<Rightarrow> ([], [])
    | first # _ \<Rightarrow>
        let unknown = filter (\<lambda>k. personnel_header k = None) (map fst first);
            col_map = (\<lambda>k. if k \<in> fst ` set first then personnel_header k else None)
        in (map (\<lambda>row. dict_of (List.map_filter (\<lambda>(k, v). map_option (\<lambda>m. (m, v)) (col_map k)) row)) raw_rows, unknown))"

definition check_personnel_row :: "(pystr \<Rightarrow> uuid option) \<Rightarrow> pystr set \<Rightarrow> nat \<Rightarrow> (string \<times> cell) list
    \<Rightarrow> row_error list + import_row" where
  "check_personnel_row = check_import_row ''PERS_001'' ''PERS_002'' ''PERS_003'' Reason_amount"

definition validate_personnel_rows :: "(pystr \<Rightarrow> uuid option) \<Rightarrow> pystr set \<Rightarrow> (string \<times> cell) list list
    \<Rightarrow> import_row validation_result" where
  "validate_personnel_rows ocodes codes rs =
     (case collect_rows (check_personnel_row ocodes codes) 1 rs [] [] of
        (es, cs) \<Rightarrow> if es \<noteq> [] then \<lparr>rows = [], errors = es\<rparr> else \<lparr>rows = cs, errors = []\<rparr>)"

definition missing_columns :: "(string \<times> cell) list list \<Rightarrow> string list" where
  "missing_columns normalized = (let present = (case normalized of [] \<Rightarrow> {} | r # _ \<Rightarrow> fst ` set r) in
     filter (\<lambda>c. c \<notin> present) [''account_code'', ''amount'', ''dept_id''])"

definition validate_personnel :: "(pystr \<Rightarrow> uuid option) \<Rightarrow> pystr set \<Rightarrow> raw_row list
    \<Rightarrow> import_row validation_result" where
  "validate_personnel ocodes codes raw =
     (if raw = [] then \<lparr>rows = [], errors = []\<rparr>
      else case normalize_personnel raw of (normalized, unknown) \<Rightarrow>
        if unknown \<noteq> [] then \<lparr>rows = [], errors = [file_err ''PERS_004'' (Reason_unknown_headers unknown)]\<rparr>
        else if missing_columns normalized \<noteq> []
        then \<lparr>rows = [], errors = [file_err ''PERS_004'' (Reason_missing_columns (map str (missing_columns normalized)))]\<rparr>
        else validate_personnel_rows ocodes codes normalized)"

interpretation personnel_rows: row_validator "check_personnel_row ocodes codes" 1 "validate_personnel_rows ocodes codes"
  for ocodes :: "pystr \<Rightarrow> uuid option" and codes :: "pystr set"
  by (rule collect_rows_validator) (use check_import_row_Inl in \<open>auto simp: check_personnel_row_def validate_personnel_rows_def\<close>)

section \<open>Helpers\<close>

text \<open>\<open>build_affected_summary\<close>: the total of each unit, in the order of first occurrence.\<close>

definition build_affected_summary :: "import_row list \<Rightarrow> json" where
  "build_affected_summary rs = JArr (map (\<lambda>(i, total). JObj [(''org_unit_id'', JUuid i),
     (''total_amount'', JText (cents_text total))]) (sum_by ir_org_unit_id ir_amount rs []))"

definition get_finance_admin_recipients :: "db \<Rightarrow> (uuid \<times> pystr) list" where
  "get_finance_admin_recipients d = List.map_filter (\<lambda>u. map_option (\<lambda>a. (user_id u, a)) (extract_email u))
     (filter (\<lambda>u. role_value FinanceAdmin \<in> set (user_roles u)) (filter is_active (users d)))"

section \<open>PersonnelImportService\<close>

definition personnel_list_versions :: "uuid \<Rightarrow> db \<Rightarrow> import_upload list" where
  "personnel_list_versions cid d = order_asc iu_version (filter (\<lambda>u. iu_cycle_id u = cid) (personnel_uploads d))"

definition personnel_get :: "uuid \<Rightarrow> import_upload op" where
  "personnel_get i = bnd (query (\<lambda>d. get_row iu_id i (personnel_uploads d))) (\<lambda>row.
     case row of None \<Rightarrow> raise (app_err NotFoundError ''PERS_004'') | Some u \<Rightarrow> ret u)"

definition personnel_latest_by_cycle :: "uuid \<Rightarrow> db \<Rightarrow> (uuid \<times> uuid, int) dict" where
  "personnel_latest_by_cycle cid d = import_amounts cid (personnel_uploads d) (personnel_lines d)"

fun add_personnel_lines :: "uuid \<Rightarrow> (pystr \<Rightarrow> uuid option) \<Rightarrow> import_row list \<Rightarrow> unit op" where
  "add_personnel_lines up ids [] = ret ()"
| "add_personnel_lines up ids (r # rs) = (case ids (ir_account_code r) of
      None \<Rightarrow> sq rollback (raise (batch_validation_error ''PERS_004''
        [row_err 0 ''account_code'' ''PERS_002'' (Reason_unknown (ir_account_code r))]))
    | Some a \<Rightarrow> sq (update (\<lambda>d. d\<lparr>personnel_lines := personnel_lines d
          @ [\<lparr>il_upload_id = up, il_org_unit_id = ir_org_unit_id r, il_account_code_id = a, il_amount = ir_amount r\<rparr>]\<rparr>))
        (add_personnel_lines up ids rs))"

definition persist_personnel :: "uuid \<Rightarrow> user \<Rightarrow> pystr \<Rightarrow> import_row list \<Rightarrow> (pystr \<Rightarrow> uuid option) \<Rightarrow> json
    \<Rightarrow> import_upload op" where
  "persist_personnel cid u filename rs ids affected =
     bnd (query (\<lambda>d. next_version iu_version (\<lambda>x. iu_cycle_id x = cid) (personnel_uploads d))) (\<lambda>version.
     bnd now_utc (\<lambda>now.
     bnd new_uuid (\<lambda>i.
       let up = \<lparr>iu_id = i, iu_cycle_id = cid, iu_uploader_id = user_id u, iu_uploaded_at = now,
             iu_filename = filename, iu_version = version,
             iu_summary = JObj [(''unit_count'', JInt (int (card (ir_org_unit_id ` set rs)))), (''unit_codes'', affected)]\<rparr> in
       sq (update (\<lambda>d. d\<lparr>personnel_uploads := personnel_uploads d @ [up]\<rparr>))
      (sq flush
      (sq (add_personnel_lines i ids rs)
      (sq commit
          (ret up)))))))"

definition send_batch_notification :: "bool \<Rightarrow> env \<Rightarrow> import_upload \<Rightarrow> pystr \<Rightarrow> unit op" where
  "send_batch_notification wired E up filename =
     (if \<not> wired then ret ()
      else bnd (query get_finance_admin_recipients) (\<lambda>recipients.
        if recipients = [] then ret ()
        else catch (bnd (send_batch E PERSONNEL_IMPORTED recipients
               [(''version'', JInt (iu_version up)), (''filename'', JText filename)]
               (Some (''personnel_budget_upload'', iu_id up))) (\<lambda>_. ret ()))
             (\<lambda>_. ret ())))"

definition personnel_import :: "bool \<Rightarrow> env \<Rightarrow> uuid \<Rightarrow> pystr \<Rightarrow> bytes \<Rightarrow> user \<Rightarrow> import_upload op" where
  "personnel_import wired E cid filename content u =
     sq (cycle_assert_open cid)
    (sq (check (\<not> int (length content) > max_upload_bytes (cfg E))
           (batch_validation_error ''PERS_004'' [file_err ''PERS_004'' Reason_file_too_large]))
    (bnd (lift (parse_table E filename content)) (\<lambda>raw_rows.
     sq (check (\<not> int (length raw_rows) > max_upload_rows (cfg E))
           (batch_validation_error ''PERS_004'' [file_err ''PERS_004'' Reason_too_many_rows]))
    (bnd (query (\<lambda>d. org_unit_code_to_id_map (org_units d))) (\<lambda>ocodes.
     bnd (query (codes_by_category personnel)) (\<lambda>codes.
     let result = validate_personnel ocodes codes raw_rows in
     sq (check (valid result) (batch_validation_error ''PERS_004'' (errors result)))
    (bnd (query (\<lambda>d. account_ids d (ir_account_code ` set (rows result)))) (\<lambda>ids.
     bnd (storage_save E ''personnel'' filename content) (\<lambda>_.
     bnd (persist_personnel cid u filename (rows result) ids (build_affected_summary (rows result))) (\<lambda>up.
     bnd (audit_record E PERSONNEL_IMPORT ''personnel_budget_upload'' (Some (iu_id up)) (Some (user_id u)) None
            (JObj [(''cycle_id'', JUuid cid), (''version'', JInt (iu_version up)),
                   (''row_count'', JInt (int (length (rows result)))),
                   (''file_size_bytes'', JInt (int (length content))), (''filename'', JText filename)])) (\<lambda>_.
     sq commit
    (sq (send_batch_notification wired E up filename)
        (ret up)))))))))))))"

section \<open>The routes\<close>

definition import_personnel :: "env \<Rightarrow> uuid \<Rightarrow> pystr option \<Rightarrow> bytes \<Rightarrow> user \<Rightarrow> import_upload op" where
  "import_personnel E cid filename content u = get_session (bnd (require_role [HRAdmin, SystemAdmin] u) (\<lambda>u.
     personnel_import False E cid (name_or ''import.csv'' filename) content u))"

definition list_personnel_versions :: "uuid \<Rightarrow> user \<Rightarrow> import_upload list op" where
  "list_personnel_versions cid u = get_session (bnd (require_role [HRAdmin, FinanceAdmin, SystemAdmin, CompanyReviewer,
     ITSecurityAuditor] u) (\<lambda>_. query (personnel_list_versions cid)))"

definition get_personnel_import :: "uuid \<Rightarrow> user \<Rightarrow> import_upload op" where
  "get_personnel_import i u = get_session (bnd (require_role [HRAdmin, FinanceAdmin, SystemAdmin, CompanyReviewer,
     ITSecurityAuditor] u) (\<lambda>_. personnel_get i))"

section \<open>What the import does\<close>

lemma valid_personnel_rows:
  assumes "valid (validate_personnel ocodes codes raw)" "r \<in> set (rows (validate_personnel ocodes codes raw))"
  shows "ir_account_code r \<in> codes \<and> ir_org_unit_id r \<in> ran ocodes \<and> 0 \<le> ir_amount r"
proof -
  from assms obtain normalized where v: "valid (validate_personnel_rows ocodes codes normalized)"
      "r \<in> set (rows (validate_personnel_rows ocodes codes normalized))"
    by (auto simp: validate_personnel_def valid_def split: if_splits prod.splits)
  from v(2) obtain i where "i < length (rows (validate_personnel_rows ocodes codes normalized))"
    "r = rows (validate_personnel_rows ocodes codes normalized) ! i" by (metis in_set_conv_nth)
  with personnel_rows.one_per_row [OF v(1)] have "check_personnel_row ocodes codes (1 + i) (normalized ! i) = Inr r" by simp
  then show ?thesis unfolding check_personnel_row_def by (rule check_import_row_Inr)
qed

definition personnel_accepted :: "env \<Rightarrow> uuid \<Rightarrow> pystr \<Rightarrow> bytes \<Rightarrow> db \<Rightarrow> exn + import_row list" where
  "personnel_accepted E cid filename content d =
     (case get_row cycle_id cid (budget_cycles d) of
        None \<Rightarrow> Inl (app_err NotFoundError ''CYCLE_001'')
      | Some c \<Rightarrow>
          if cycle_status c \<noteq> open then Inl (app_err AppError ''CYCLE_004'')
          else if int (length content) > max_upload_bytes (cfg E)
          then Inl (batch_validation_error ''PERS_004'' [file_err ''PERS_004'' Reason_file_too_large])
          else case parse_table E filename content of
            Inl e \<Rightarrow> Inl e
          | Inr raw \<Rightarrow>
              if int (length raw) > max_upload_rows (cfg E)
              then Inl (batch_validation_error ''PERS_004'' [file_err ''PERS_004'' Reason_too_many_rows])
              else let result = validate_personnel (org_unit_code_to_id_map (org_units d)) (codes_by_category personnel d) raw in
                if valid result then Inr (rows result) else Inl (batch_validation_error ''PERS_004'' (errors result)))"

lemma personnel_accepted_known:
  assumes "personnel_accepted E cid filename content d = Inr rs"
  shows "\<forall>r \<in> set rs. account_ids d (ir_account_code ` set rs) (ir_account_code r) \<noteq> None
    \<and> ir_account_code r \<in> codes_by_category personnel d"
proof
  fix r assume r: "r \<in> set rs"
  from assms obtain raw where
      ok: "valid (validate_personnel (org_unit_code_to_id_map (org_units d)) (codes_by_category personnel d) raw)" and
      rs: "rs = rows (validate_personnel (org_unit_code_to_id_map (org_units d)) (codes_by_category personnel d) raw)"
    by (auto simp: personnel_accepted_def Let_def split: option.splits sum.splits if_splits)
  from valid_personnel_rows [OF ok] r have "ir_account_code r \<in> codes_by_category personnel d" unfolding rs by blast
  with r show "account_ids d (ir_account_code ` set rs) (ir_account_code r) \<noteq> None
      \<and> ir_account_code r \<in> codes_by_category personnel d"
    using account_ids_known by blast
qed

lemma add_personnel_lines_run: "\<forall>r \<in> set rs. ids (ir_account_code r) \<noteq> None \<Longrightarrow>
    add_personnel_lines up ids rs s =
      (Inr (), s\<lparr>cur := (cur s)\<lparr>personnel_lines := personnel_lines (cur s) @ import_lines_of up ids rs\<rparr>\<rparr>)"
proof (induction rs arbitrary: s)
  case (Cons r rs)
  then obtain a where "ids (ir_account_code r) = Some a" by auto
  with Cons show ?case by (simp add: act_simps import_lines_of_def)
qed (simp add: import_lines_of_def)

definition new_personnel_upload :: "uuid \<Rightarrow> pystr \<Rightarrow> user \<Rightarrow> import_row list \<Rightarrow> session \<Rightarrow> import_upload" where
  "new_personnel_upload cid filename u rs s = \<lparr>iu_id = uid_next s, iu_cycle_id = cid, iu_uploader_id = user_id u,
     iu_uploaded_at = clock s, iu_filename = filename,
     iu_version = next_version iu_version (\<lambda>x. iu_cycle_id x = cid) (personnel_uploads (cur s)),
     iu_summary = JObj [(''unit_count'', JInt (int (card (ir_org_unit_id ` set rs)))),
       (''unit_codes'', build_affected_summary rs)]\<rparr>"

definition with_personnel :: "import_upload \<Rightarrow> import_line list \<Rightarrow> db \<Rightarrow> db" where
  "with_personnel up ls d = d\<lparr>personnel_uploads := personnel_uploads d @ [up], personnel_lines := personnel_lines d @ ls\<rparr>"

lemma persist_personnel_run:
  assumes "\<forall>r \<in> set rs. ids (ir_account_code r) \<noteq> None"
  shows "persist_personnel cid u filename rs ids (build_affected_summary rs) s =
    (let up = new_personnel_upload cid filename u rs s;
         d = with_personnel up (import_lines_of (iu_id up) ids rs) (cur s); t = s\<lparr>uid_next := Suc (uid_next s)\<rparr>
     in if db_ok ((cur s)\<lparr>personnel_uploads := personnel_uploads (cur s) @ [up]\<rparr>) \<and> db_ok d
        then (Inr up, t\<lparr>cur := d, com := d\<rparr>) else (Inl Integrity_error, t\<lparr>cur := com s\<rparr>))"
  by (simp add: persist_personnel_def act_simps Let_def add_personnel_lines_run [OF assms] with_personnel_def
      new_personnel_upload_def)

lemma personnel_import_run:
  assumes "seq_fresh s"
  shows "personnel_import wired E cid filename content u s =
    (case personnel_accepted E cid filename content (cur s) of Inl e \<Rightarrow> (Inl e, s) | Inr rs \<Rightarrow>
       if \<not> storage_ok E then (Inl (app_err InfraError ''SYS_002''), s\<lparr>uid_next := Suc (uid_next s)\<rparr>)
       else let up = new_personnel_upload cid filename u rs (file_stored ''personnel'' filename content 1 s);
           d = with_personnel up (import_lines_of (iu_id up) (account_ids (cur s) (ir_account_code ` set rs)) rs) (cur s);
           t = file_stored ''personnel'' filename content 2 s
       in if db_ok ((cur s)\<lparr>personnel_uploads := personnel_uploads (cur s) @ [up]\<rparr>) \<and> db_ok d
          then (case send_batch_notification wired E up filename
                  (audited E PERSONNEL_IMPORT ''personnel_budget_upload'' (Some (iu_id up)) (Some (user_id u))
                    (JObj [(''cycle_id'', JUuid cid), (''version'', JInt (iu_version up)),
                      (''row_count'', JInt (int (length rs))),
                      (''file_size_bytes'', JInt (int (length content))), (''filename'', JText filename)])
                    (t\<lparr>cur := d\<rparr>)) of
                  (Inl e, v) \<Rightarrow> (Inl e, v) | (Inr _, v) \<Rightarrow> (Inr up, v))
          else (Inl Integrity_error, t\<lparr>cur := com s\<rparr>))"
proof (cases "personnel_accepted E cid filename content (cur s)")
  case (Inl e)
  then show ?thesis
    by (auto simp: personnel_import_def run_sq cycle_assert_open_run act_simps personnel_accepted_def Let_def
        split: option.splits sum.splits if_splits)
next
  case (Inr rs)
  then obtain c raw where cyc: "get_row cycle_id cid (budget_cycles (cur s)) = Some c" "cycle_status c = open"
    and size: "\<not> int (length content) > max_upload_bytes (cfg E)" and raw: "parse_table E filename content = Inr raw"
    and len: "\<not> int (length raw) > max_upload_rows (cfg E)"
    and ok: "valid (validate_personnel (org_unit_code_to_id_map (org_units (cur s))) (codes_by_category personnel (cur s)) raw)"
    and rs: "rs = rows (validate_personnel (org_unit_code_to_id_map (org_units (cur s))) (codes_by_category personnel (cur s)) raw)"
    by (auto simp: personnel_accepted_def Let_def split: option.splits sum.splits if_splits)
  have known: "\<forall>r \<in> set rs. account_ids (cur s) (ir_account_code ` set rs) (ir_account_code r) \<noteq> None"
    using personnel_accepted_known [OF Inr] by blast
  have cat: "''personnel'' \<in> set ALLOWED_CATEGORIES" by (simp add: ALLOWED_CATEGORIES_def)
  have two: "(file_stored ''personnel'' filename content (Suc 0) s)\<lparr>uid_next := Suc (Suc (uid_next s))\<rparr>
      = file_stored ''personnel'' filename content 2 s"
    by (simp add: file_stored_def)
  have fresh: "seq_fresh ((file_stored ''personnel'' filename content 2 s)\<lparr>cur := with_personnel x y (cur s)\<rparr>)" for x y
    using assms by (simp add: file_stored_def with_personnel_def seq_fresh_def)
  show ?thesis
    using ok size len
    by (simp add: Inr personnel_import_def run_sq cycle_assert_open_run cyc run_bnd run_session raw rs [symmetric]
        storage_save_stored [OF cat] persist_personnel_run [OF known] two Let_def record_commit_case fresh)
      (auto split: sum.splits prod.splits)
qed

lemma send_batch_notification_harmless:
  "\<exists>v. send_batch_notification wired E up filename s = (Inr (), v) \<and> com v = com s"
proof -
  have "preserves (\<lambda>t. com t = com s) (send_batch_notification wired E up filename)"
    unfolding send_batch_notification_def by (intro preserves_intros)
  then have "com (snd (send_batch_notification wired E up filename s)) = com s" by (rule preserves_run) simp
  moreover have "fst (send_batch_notification wired E up filename s) = Inr ()"
    by (auto simp: send_batch_notification_def act_simps split: prod.splits sum.splits)
  ultimately show ?thesis by (metis prod.collapse)
qed

context audited_inv
begin

lemma kept_add_personnel_lines [preserves_intros]: "preserves P (add_personnel_lines up ids rs)"
proof (induction rs)
  case (Cons r rs)
  show ?case by (simp, intro preserves_intros Cons.IH; simp)
qed (simp only: add_personnel_lines.simps preserves_basic)

lemma kept_personnel [preserves_intros]:
  "preserves P (persist_personnel cid u filename rs ids affected)"
  "preserves P (send_batch_notification wired E up filename)"
  "preserves P (personnel_import wired E cid filename content u)"
  unfolding persist_personnel_def send_batch_notification_def personnel_import_def Let_def
  by (intro preserves_intros; simp)+

end

lemma personnel_import_Inl:
  assumes "seq_fresh s" "personnel_import wired E cid filename content u s = (Inl e, t)"
  shows "com t = com s"
proof (rule ccontr)
  assume "com t \<noteq> com s"
  with assms(2) show False
    unfolding personnel_import_run [OF assms(1)]
    using send_batch_notification_harmless
    by (auto simp: Let_def split: sum.splits if_splits prod.splits) (metis Inl_Inr_False prod.inject)
qed

lemma personnel_import_Inr:
  assumes "seq_fresh s" "personnel_import wired E cid filename content u s = (Inr up, t)"
  obtains rs row where "personnel_accepted E cid filename content (cur s) = Inr rs"
    and "up = new_personnel_upload cid filename u rs (file_stored ''personnel'' filename content 1 s)"
    and "com t = (with_personnel up (import_lines_of (iu_id up) (account_ids (cur s) (ir_account_code ` set rs)) rs) (cur s))
      \<lparr>audit_logs := audit_logs (cur s) @ [row]\<rparr>"
    and "action row = PERSONNEL_IMPORT" "resource_id row = Some (iu_id up)" "al_user_id row = Some (user_id u)"
proof -
  from assms(2) obtain rs where acc: "personnel_accepted E cid filename content (cur s) = Inr rs"
    unfolding personnel_import_run [OF assms(1)] by (auto split: sum.splits)
  let ?up = "new_personnel_upload cid filename u rs (file_stored ''personnel'' filename content 1 s)"
  let ?d = "with_personnel ?up (import_lines_of (iu_id ?up) (account_ids (cur s) (ir_account_code ` set rs)) rs) (cur s)"
  let ?v = "audited E PERSONNEL_IMPORT ''personnel_budget_upload'' (Some (iu_id ?up)) (Some (user_id u))
      (JObj [(''cycle_id'', JUuid cid), (''version'', JInt (iu_version ?up)), (''row_count'', JInt (int (length rs))),
         (''file_size_bytes'', JInt (int (length content))), (''filename'', JText filename)])
      ((file_stored ''personnel'' filename content 2 s)\<lparr>cur := ?d\<rparr>)"
  obtain v where v: "send_batch_notification wired E ?up filename ?v = (Inr (), v)" "com v = com ?v"
    using send_batch_notification_harmless by blast
  have up: "up = ?up" "com t = com ?v"
    using assms(2) v unfolding personnel_import_run [OF assms(1)] by (auto simp: acc Let_def split: if_splits)
  obtain row where "com ?v = ?d\<lparr>audit_logs := audit_logs ?d @ [row]\<rparr>" and row: "action row = PERSONNEL_IMPORT"
      "resource_id row = Some (iu_id ?up)" "al_user_id row = Some (user_id u)"
    using audited_com by blast
  then have "com t = ?d\<lparr>audit_logs := audit_logs (cur s) @ [row]\<rparr>"
    unfolding up(2) by (simp only:) (simp add: with_personnel_def)
  then show thesis by (rule that [OF acc up(1), unfolded up(1), OF _ row])
qed

section \<open>Sample\<close>

definition personnel_db :: db where
  "personnel_db = accounts_db\<lparr>account_codes := [account0\<lparr>category := personnel\<rparr>]\<rparr>"

lemma personnel_db_inv: "store_inv env0 (session_of personnel_db)"
  using accounts_db_inv
  by (simp add: store_inv_def chain_inv_def log_ok_def db_ok_def personnel_db_def accounts_db_def constraint_defs account0_def)

lemma personnel_accepted_sample: "personnel_accepted env0 7 (str ''a.csv'') actuals_csv personnel_db =
    Inr [\<lparr>ir_org_unit_id = 2, ir_account_code = str ''5100'', ir_amount = 1250\<rparr>]"
proof -
  have parsed: "parse_table env0 (str ''a.csv'') actuals_csv = Inr [actuals_row0]"
    by (simp add: parse_table_def csv_name csv_rows_def actuals_csv_dicts actuals_row0_def del: str_simps)
  have "normalize_personnel [actuals_row0] = ([[(''dept_id'', Cell_Str (str ''4023'')),
      (''account_code'', Cell_Str (str ''5100'')), (''amount'', Cell_Str (str ''12.5''))]], [])"
    by (simp add: normalize_personnel_def personnel_header_def HEADER_MAP_def clean_header_def clean_cell_def
        strip_def is_space_def lower_def lower_char_def List.map_filter_def dict_of_def actuals_row0_def)
  then have "validate_personnel (org_unit_code_to_id_map (org_units personnel_db)) (codes_by_category personnel personnel_db)
      [actuals_row0] = \<lparr>rows = [\<lparr>ir_org_unit_id = 2, ir_account_code = str ''5100'', ir_amount = 1250\<rparr>], errors = []\<rparr>"
    by (simp add: validate_personnel_def missing_columns_def validate_personnel_rows_def check_personnel_row_def
        check_import_row_def cell_at_def org_unit_code_to_id_map_def codes_by_category_def personnel_db_def accounts_db_def
        org_db_def unit0_def unit1_def account0_def clean_cell_def strip_def is_space_def parse_amount_def
        amount_value_def decimal_of_text_def read_number_def read_sign_def read_exponent_def digit_val_def
        digit_zeros_def lower_def lower_char_def quantize_cents_def round_half_even_def all_digits_def Let_def)
  moreover have "get_row cycle_id 7 (budget_cycles personnel_db) = Some (cycle0\<lparr>cycle_status := open\<rparr>)"
    by (simp add: personnel_db_def accounts_db_def get_row_def cycle0_def)
  moreover have "length actuals_csv \<le> 10485760" by (simp add: actuals_csv_def)
  ultimately show ?thesis
    by (simp add: personnel_accepted_def parsed Let_def valid_def del: str_simps)
qed

section \<open>Properties\<close>

text \<open>
  Claim C24: a personnel import is all or nothing, and what the report then shows. If it
  fails, the committed database is as it was; notifications, sent or failing in any way, do
  not change the outcome. If it succeeds, one version was added with one line per row and one
  audit row. For the cycle, the amount under a unit and an account is now that of the
  file's row for them, and nothing where the file has no row, whatever earlier versions
  said; other cycles' amounts are as before; and if the versions of every cycle were 1, 2, 3,
  ... before, they are so after.
\<close>

theorem personnel_import_effect:
  assumes "store_inv E s" "cur s = com s" "uploads_fresh s"
  shows "case personnel_import wired E cid filename content u s of
      (Inl e, t) \<Rightarrow> com t = com s
    | (Inr up, t) \<Rightarrow> \<exists>rs ls row.
        personnel_accepted E cid filename content (com s) = Inr rs
      \<and> com t = (com s)\<lparr>personnel_uploads := personnel_uploads (com s) @ [up],
            personnel_lines := personnel_lines (com s) @ ls, audit_logs := audit_logs (com s) @ [row]\<rparr>
      \<and> action row = PERSONNEL_IMPORT \<and> resource_id row = Some (iu_id up) \<and> al_user_id row = Some (user_id u)
      \<and> length ls = length rs
      \<and> (\<forall>v acc. map_of (personnel_latest_by_cycle cid (com t)) (v, acc) = map_option ir_amount
            (find (\<lambda>r. ir_org_unit_id r = v \<and>
               account_ids (com s) (ir_account_code ` set rs) (ir_account_code r) = Some acc) rs))
      \<and> (\<forall>c v acc. c \<noteq> cid \<longrightarrow> map_of (personnel_latest_by_cycle c (com t)) (v, acc)
            = map_of (personnel_latest_by_cycle c (com s)) (v, acc))
      \<and> (numbered iu_cycle_id iu_version (personnel_uploads (com s)) \<longrightarrow>
          numbered iu_cycle_id iu_version (personnel_uploads (com t)))"
proof -
  have fresh: "seq_fresh s" using assms(1) by (rule seq_fresh_based)
  obtain r t where run: "personnel_import wired E cid filename content u s = (r, t)" by fastforce
  show ?thesis
  proof (cases r)
    case (Inl e)
    with run personnel_import_Inl [OF fresh] show ?thesis by simp
  next
    case (Inr up)
    from personnel_import_Inr [OF fresh run [unfolded Inr], unfolded assms(2)] obtain rs row
      where acc: "personnel_accepted E cid filename content (com s) = Inr rs"
        and up: "up = new_personnel_upload cid filename u rs (file_stored ''personnel'' filename content 1 s)"
        and com: "com t = (with_personnel up (import_lines_of (iu_id up) (account_ids (com s) (ir_account_code ` set rs)) rs)
            (com s))\<lparr>audit_logs := audit_logs (com s) @ [row]\<rparr>"
        and row: "action row = PERSONNEL_IMPORT" "resource_id row = Some (iu_id up)" "al_user_id row = Some (user_id u)" .
    let ?ls = "import_lines_of (iu_id up) (account_ids (com s) (ir_account_code ` set rs)) rs"
    have new: "iu_cycle_id up = cid" "iu_id up = uid_next s + 1"
      "iu_version up = next_version iu_version (\<lambda>x. iu_cycle_id x = iu_cycle_id up) (personnel_uploads (com s))"
      by (simp_all add: up new_personnel_upload_def assms(2))
    have tbl: "personnel_uploads (com t) = personnel_uploads (com s) @ [up]"
      "personnel_lines (com t) = personnel_lines (com s) @ ?ls" by (simp_all add: com with_personnel_def)
    have "store_inv E (snd (personnel_import wired E cid filename content u s))"
      by (rule store_inv_run [OF stored.kept_personnel(3) assms(1)])
    then have ok: "db_ok (com t)" "db_ok (com s)" using assms(1) run by (simp_all add: store_inv_def)
    then have lines: "import_lines_ok (personnel_lines (com s) @ ?ls)" "import_lines_ok (personnel_lines (com s))"
      "distinct (map iu_id (personnel_uploads (com s) @ [up]))"
      by (simp_all add: db_ok_def import_uploads_ok_def tbl [symmetric])
    have "\<forall>l \<in> set (personnel_lines (com s)). il_upload_id l < uid_next s"
      using assms(2,3) by (simp add: uploads_fresh_def)
    then have old: "\<forall>l \<in> set (personnel_lines (com s)). il_upload_id l \<noteq> iu_id up"
      unfolding new(2) by (metis less_add_one less_asym)
    have known: "\<forall>r \<in> set rs. account_ids (com s) (ir_account_code ` set rs) (ir_account_code r) \<noteq> None"
      using personnel_accepted_known [OF acc] by blast
    note amounts = import_amounts_new [OF lines(1) new(3) old known, unfolded new(1)]
      import_amounts_other [OF lines, unfolded new(1)]
    show ?thesis
      unfolding run Inr prod.case sum.case personnel_latest_by_cycle_def tbl
      by (rule exI [of _ rs], rule exI [of _ ?ls], rule exI [of _ row], intro conjI)
        (use acc com row amounts import_versions.numbered_append [OF _ new(3)]
          in \<open>simp_all add: with_personnel_def import_lines_of_def\<close>)
  qed
qed

lemma personnel_import_effect_witness:
  "\<exists>up t. personnel_import True env0 7 (str ''a.csv'') actuals_csv admin0 (session_of personnel_db) = (Inr up, t)
     \<and> map_of (personnel_latest_by_cycle 7 (com t)) (2, 50) = Some 1250"
proof -
  let ?s = "session_of personnel_db"
  have tables: "personnel_uploads personnel_db = []" "personnel_lines personnel_db = []"
    "account_ids personnel_db (ir_account_code ` {\<lparr>ir_org_unit_id = 2, ir_account_code = str ''5100'', ir_amount = 1250\<rparr>})
       (str ''5100'') = Some 50" and fresh: "uploads_fresh ?s"
    by (simp_all add: personnel_db_def accounts_db_def org_db_def account_ids_def code_id_map_def account0_def uploads_fresh_def)
  have "db_ok personnel_db" using personnel_db_inv by (simp add: store_inv_def)
  then have ok: "db_ok (personnel_db\<lparr>personnel_uploads := [x]\<rparr>)"
    "0 < il_amount l \<Longrightarrow> db_ok (personnel_db\<lparr>personnel_uploads := [x], personnel_lines := [l]\<rparr>)" for x l
    by (simp_all add: db_ok_def constraint_defs)
  obtain up t where r: "personnel_import True env0 7 (str ''a.csv'') actuals_csv admin0 ?s = (Inr up, t)"
  proof -
    have "fst (personnel_import True env0 7 (str ''a.csv'') actuals_csv admin0 ?s) \<noteq> Inl e" for e
    proof
      assume "fst (personnel_import True env0 7 (str ''a.csv'') actuals_csv admin0 ?s) = Inl e"
      then show False
        using send_batch_notification_harmless
        by (auto simp: personnel_import_run [OF seq_fresh_based [OF personnel_db_inv]] personnel_accepted_sample
            with_personnel_def import_lines_of_def tables ok Let_def simp del: str_simps split: prod.splits sum.splits)
          (metis Inl_Inr_False prod.inject)
    qed
    then show thesis using that by (metis eq_fst_iff old.sum.exhaust)
  qed
  have "map_of (personnel_latest_by_cycle 7 (com t)) (2, 50) = Some 1250"
    using personnel_import_effect [OF personnel_db_inv _ fresh, where wired = True and cid = 7 and filename = "str ''a.csv''"
        and content = actuals_csv and u = admin0, unfolded r] tables
    by (auto simp: personnel_accepted_sample simp del: str_simps)
  with r show ?thesis by (intro exI conjI)
qed

end
