(* ===== verification/Shared_Costs.thy ===== *)
theory Shared_Costs
  imports Imports
begin

text \<open>
  \<^verbatim>\<open>domain/shared_costs/\<close>: the import of shared costs, the comparison with the version before it,
  and the walk up the org tree for somebody to notify.
\<close>

section \<open>Headers and rows\<close>

definition shared_header :: "pystr \<Rightarrow> string option" where
  "shared_header k = (case clean_cell (Cell_Str k) of None \<Rightarrow> None | Some c \<Rightarrow> map_of HEADER_MAP (lower c))"

definition normalize_shared :: "raw_row list \<Rightarrow> exn + (string \<times> cell) list list" where
  "normalize_shared rs = (case rs of
      [] \<Rightarrow> Inr []
    | first # _ \<Rightarrow>
        let unknown = filter (\<lambda>k. clean_cell (Cell_Str k) \<noteq> None \<and> shared_header k = None) (map fst first) in
        if unknown \<noteq> [] then Inl (batch_validation_error ''SHARED_004'' [])
        else Inr (map (\<lambda>row. dict_of (List.map_filter (\<lambda>(k, v). map_option (\<lambda>m. (m, v)) (shared_header k)) row)) rs))"

text \<open>A reason that says \<open>strictly positive\<close> is reworded.\<close>

definition shared_reason :: "amount_reason \<Rightarrow> reason" where
  "shared_reason r = (if contains (str ''strictly positive'') (reason_text r) then Reason_positive else Reason_amount r)"

definition check_shared_row :: "(pystr \<Rightarrow> uuid option) \<Rightarrow> pystr set \<Rightarrow> nat \<Rightarrow> (string \<times> cell) list
    \<Rightarrow> row_error list + import_row" where
  "check_shared_row = check_import_row ''SHARED_001'' ''SHARED_002'' ''SHARED_003'' shared_reason"

definition validate_shared :: "(pystr \<Rightarrow> uuid option) \<Rightarrow> pystr set \<Rightarrow> (string \<times> cell) list list
    \<Rightarrow> import_row validation_result" where
  "validate_shared ocodes codes rs =
     (case collect_rows (check_shared_row ocodes codes) 2 rs [] [] of
        (es, cs) \<Rightarrow> if es \<noteq> [] then \<lparr>rows = [], errors = es\<rparr> else \<lparr>rows = cs, errors = []\<rparr>)"

interpretation shared_rows: row_validator "check_shared_row ocodes codes" 2 "validate_shared ocodes codes"
  for ocodes :: "pystr \<Rightarrow> uuid option" and codes :: "pystr set"
  by (rule collect_rows_validator) (use check_import_row_Inl in \<open>auto simp: check_shared_row_def validate_shared_def\<close>)

section \<open>Helpers\<close>

record line_data =
  ld_org_unit_id :: uuid
  ld_account_code_id :: uuid
  ld_amount :: cents

text \<open>Rows whose account has no identifier are left out, with a warning in the log only.\<close>

definition build_lines_data :: "import_row list \<Rightarrow> (pystr \<Rightarrow> uuid option) \<Rightarrow> line_data list" where
  "build_lines_data rs ids = List.map_filter (\<lambda>r. map_option (\<lambda>a.
     \<lparr>ld_org_unit_id = ir_org_unit_id r, ld_account_code_id = a, ld_amount = ir_amount r\<rparr>) (ids (ir_account_code r))) rs"

definition shared_line :: "uuid \<Rightarrow> line_data \<Rightarrow> import_line" where
  "shared_line up x = \<lparr>il_upload_id = up, il_org_unit_id = ld_org_unit_id x,
     il_account_code_id = ld_account_code_id x, il_amount = ld_amount x\<rparr>"

definition ephemeral_lines :: "line_data list \<Rightarrow> import_line list op" where
  "ephemeral_lines xs = bnd new_uuid (\<lambda>placeholder. ret (map (shared_line placeholder) xs))"

definition aggregate_by_unit :: "import_line list \<Rightarrow> (uuid, int) dict" where
  "aggregate_by_unit ls = sum_by il_org_unit_id il_amount ls []"

definition fetch_lines :: "uuid \<Rightarrow> db \<Rightarrow> import_line list" where
  "fetch_lines up d = filter (\<lambda>l. il_upload_id l = up) (shared_lines d)"

definition resolve_unit_codes :: "uuid list \<Rightarrow> db \<Rightarrow> pystr list" where
  "resolve_unit_codes ids d = map ou_code (filter (\<lambda>w. ou_id w \<in> set ids) (org_units d))"

text \<open>The walk up from a unit to the first one with an active user, with the units visited.\<close>

definition active_user_of :: "user list \<Rightarrow> uuid \<Rightarrow> user option" where
  "active_user_of us i = first_row (filter (\<lambda>u. user_org_unit_id u = Some i \<and> is_active u) us)"

function climb :: "org_unit list \<Rightarrow> user list \<Rightarrow> uuid list \<Rightarrow> uuid option \<Rightarrow> user option" where
  "climb ws us visited None = None"
| "climb ws us visited (Some i) =
     (if i \<in> set visited then None
      else case active_user_of us i of
        Some u \<Rightarrow> Some u
      | None \<Rightarrow> (case get_row ou_id i ws of
          None \<Rightarrow> None
        | Some w \<Rightarrow> climb ws us (i # visited) (parent_id w)))"
  by pat_completeness auto

termination
proof (relation "measure (\<lambda>(ws, us, visited, i). card (ou_id ` set ws - set visited))")
  fix ws :: "org_unit list" and us :: "user list" and visited i w
  assume "i \<notin> set visited" "get_row ou_id i ws = Some w"
  then have "i \<in> ou_id ` set ws" "i \<notin> set visited" by (auto dest: get_row_Some)
  then have "card (ou_id ` set ws - set (i # visited)) < card (ou_id ` set ws - set visited)"
    by (intro psubset_card_mono) auto
  then show "((ws, us, i # visited, parent_id w), ws, us, visited, Some i)
      \<in> measure (\<lambda>(ws, us, visited, i). card (ou_id ` set ws - set visited))" by simp
qed simp

definition resolve_manager :: "uuid \<Rightarrow> db \<Rightarrow> user option" where
  "resolve_manager i d = climb (org_units d) (users d) [] (Some i)"

section \<open>The difference between two versions\<close>

definition diff_affected_units :: "import_line list \<Rightarrow> import_line list \<Rightarrow> uuid set" where
  "diff_affected_units prev_lines new_lines =
     (let prev_totals = sum_by il_org_unit_id il_amount prev_lines [];
          new_totals = sum_by il_org_unit_id il_amount new_lines []
      in set (filter (\<lambda>i. map_of prev_totals i \<noteq> map_of new_totals i) (map fst prev_totals @ map fst new_totals)))"

section \<open>SharedCostImportService\<close>

definition shared_list_versions :: "uuid \<Rightarrow> db \<Rightarrow> import_upload list" where
  "shared_list_versions cid d = order_asc iu_version (filter (\<lambda>u. iu_cycle_id u = cid) (shared_uploads d))"

definition shared_get :: "uuid \<Rightarrow> import_upload op" where
  "shared_get i = bnd (query (\<lambda>d. get_row iu_id i (shared_uploads d))) (\<lambda>row.
     case row of None \<Rightarrow> raise (app_err NotFoundError ''SHARED_004'') | Some u \<Rightarrow> ret u)"

definition shared_get_latest :: "uuid \<Rightarrow> db \<Rightarrow> import_upload option" where
  "shared_get_latest cid d = import_latest cid (shared_uploads d)"

definition shared_latest_by_cycle :: "uuid \<Rightarrow> db \<Rightarrow> (uuid \<times> uuid, int) dict" where
  "shared_latest_by_cycle cid d = import_amounts cid (shared_uploads d) (shared_lines d)"

definition shared_summary :: "uuid list \<Rightarrow> pystr list \<Rightarrow> json" where
  "shared_summary affected unit_codes = JObj [(''unit_count'', JInt (int (length affected))),
     (''unit_codes'', JArr (map JText unit_codes)), (''diff_changed'', JInt (int (length affected)))]"

definition persist_shared :: "uuid \<Rightarrow> user \<Rightarrow> pystr \<Rightarrow> line_data list \<Rightarrow> json \<Rightarrow> import_upload op" where
  "persist_shared cid u filename lines summary =
     bnd (query (\<lambda>d. next_version iu_version (\<lambda>x. iu_cycle_id x = cid) (shared_uploads d))) (\<lambda>version.
     bnd now_utc (\<lambda>now.
     bnd new_uuid (\<lambda>i.
       let up = \<lparr>iu_id = i, iu_cycle_id = cid, iu_uploader_id = user_id u, iu_uploaded_at = now,
             iu_filename = filename, iu_version = version, iu_summary = summary\<rparr> in
       sq (update (\<lambda>d. d\<lparr>shared_uploads := shared_uploads d @ [up]\<rparr>))
      (sq flush
      (sq (update (\<lambda>d. d\<lparr>shared_lines := shared_lines d @ map (shared_line i) lines\<rparr>))
      (sq commit
          (ret up)))))))"

definition amount_or_zero :: "(uuid, int) dict \<Rightarrow> uuid \<Rightarrow> int" where
  "amount_or_zero totals i = (case map_of totals i of None \<Rightarrow> 0 | Some a \<Rightarrow> a)"

definition amount_text :: "(uuid, int) dict \<Rightarrow> uuid \<Rightarrow> pystr" where
  "amount_text totals i = (case map_of totals i of None \<Rightarrow> str ''0'' | Some a \<Rightarrow> cents_text a)"

definition shared_context :: "import_upload \<Rightarrow> uuid \<Rightarrow> (uuid, int) dict \<Rightarrow> (uuid, int) dict \<Rightarrow> uuid \<Rightarrow> context_dict" where
  "shared_context up cid prev_totals new_totals i =
     [(''version'', JInt (iu_version up)), (''cycle_id'', JUuid cid),
      (''prev_amount'', JText (amount_text prev_totals i)), (''new_amount'', JText (amount_text new_totals i)),
      (''delta'', JText (cents_text (amount_or_zero new_totals i - amount_or_zero prev_totals i)))]"

text \<open>The loop over the affected units; only application errors are caught.\<close>

fun notify_units :: "env \<Rightarrow> import_upload \<Rightarrow> uuid \<Rightarrow> (uuid, int) dict \<Rightarrow> (uuid, int) dict \<Rightarrow> uuid list \<Rightarrow> unit op" where
  "notify_units E up cid prev_totals new_totals [] = ret ()"
| "notify_units E up cid prev_totals new_totals (i # is) =
     sq (catch (bnd (query (resolve_manager i)) (\<lambda>manager.
            case manager of None \<Rightarrow> ret () | Some m \<Rightarrow>
              (case extract_email m of None \<Rightarrow> ret () | Some email \<Rightarrow>
                 bnd (notify_send E SHARED_COST_IMPORTED (user_id m) email
                   (shared_context up cid prev_totals new_totals i) (Some (''shared_cost_upload'', iu_id up))) (\<lambda>_. ret ()))))
          (\<lambda>e. if is_app_error e then ret () else raise e))
        (notify_units E up cid prev_totals new_totals is)"

definition send_diff_notifications :: "bool \<Rightarrow> env \<Rightarrow> import_upload \<Rightarrow> uuid \<Rightarrow> uuid list \<Rightarrow> import_line list
    \<Rightarrow> import_line list \<Rightarrow> unit op" where
  "send_diff_notifications wired E up cid affected prev_lines new_lines =
     (if \<not> wired then ret ()
      else notify_units E up cid (aggregate_by_unit prev_lines) (aggregate_by_unit new_lines) affected)"

text \<open>
  The import. Python does not say in which order it iterates over the set of affected
  units; here they come in ascending order.
\<close>

definition shared_import :: "bool \<Rightarrow> env \<Rightarrow> uuid \<Rightarrow> pystr \<Rightarrow> bytes \<Rightarrow> user \<Rightarrow> import_upload op" where
  "shared_import wired E cid filename content u =
     sq (cycle_assert_open cid)
    (sq (check (\<not> int (length content) > max_upload_bytes (cfg E)) (batch_validation_error ''SHARED_004'' []))
    (bnd (lift (parse_table E filename content)) (\<lambda>raw_rows.
     bnd (lift (normalize_shared raw_rows)) (\<lambda>norm.
     sq (check (\<not> int (length norm) > max_upload_rows (cfg E)) (batch_validation_error ''SHARED_004'' []))
    (bnd (query (\<lambda>d. org_unit_code_to_id_map (org_units d))) (\<lambda>ocodes.
     bnd (query (codes_by_category shared_cost)) (\<lambda>codes.
     let result = validate_shared ocodes codes norm in
     sq (check (valid result) (batch_validation_error ''SHARED_004'' (errors result)))
    (bnd (query (\<lambda>d. account_ids d (ir_account_code ` set (rows result)))) (\<lambda>ids.
     bnd (query (shared_get_latest cid)) (\<lambda>prev_upload.
     bnd (query (\<lambda>d. case prev_upload of None \<Rightarrow> [] | Some p \<Rightarrow> fetch_lines (iu_id p) d)) (\<lambda>prev_lines.
     let lines = build_lines_data (rows result) ids in
     bnd (ephemeral_lines lines) (\<lambda>new_lines.
     let affected = sorted_list_of_set (diff_affected_units prev_lines new_lines) in
     bnd (query (resolve_unit_codes affected)) (\<lambda>unit_codes.
     bnd (storage_save E ''shared_costs'' filename content) (\<lambda>_.
     bnd (persist_shared cid u filename lines (shared_summary affected unit_codes)) (\<lambda>up.
     bnd (audit_record E SHARED_COST_IMPORT ''shared_cost_upload'' (Some (iu_id up)) (Some (user_id u)) None
            (JObj [(''cycle_id'', JUuid cid), (''version'', JInt (iu_version up)),
                   (''row_count'', JInt (int (length (rows result)))),
                   (''file_size_bytes'', JInt (int (length content))), (''filename'', JText filename),
                   (''affected_unit_count'', JInt (int (length affected)))])) (\<lambda>_.
     sq (send_diff_notifications wired E up cid affected prev_lines new_lines)
        (ret up)))))))))))))))))"

section \<open>The routes\<close>

definition import_shared_costs :: "env \<Rightarrow> uuid \<Rightarrow> pystr option \<Rightarrow> bytes \<Rightarrow> user \<Rightarrow> import_upload op" where
  "import_shared_costs E cid filename content u = get_session (bnd (require_role [FinanceAdmin, SystemAdmin] u) (\<lambda>u.
     shared_import False E cid (name_or ''upload.csv'' filename) content u))"

definition list_shared_cost_imports :: "uuid \<Rightarrow> user \<Rightarrow> import_upload list op" where
  "list_shared_cost_imports cid u = get_session (bnd (require_role [FinanceAdmin, SystemAdmin, CompanyReviewer,
     UplineReviewer, ITSecurityAuditor] u) (\<lambda>_. query (shared_list_versions cid)))"

definition get_shared_cost_import :: "uuid \<Rightarrow> user \<Rightarrow> import_upload op" where
  "get_shared_cost_import i u = get_session (bnd (require_role [FinanceAdmin, SystemAdmin, CompanyReviewer,
     UplineReviewer, ITSecurityAuditor] u) (\<lambda>_. shared_get i))"

section \<open>What the import does\<close>

lemma valid_shared_rows:
  assumes "valid (validate_shared ocodes codes raw)" "r \<in> set (rows (validate_shared ocodes codes raw))"
  shows "ir_account_code r \<in> codes \<and> ir_org_unit_id r \<in> ran ocodes \<and> 0 \<le> ir_amount r"
proof -
  from assms(2) obtain i where "i < length (rows (validate_shared ocodes codes raw))"
    "r = rows (validate_shared ocodes codes raw) ! i" by (metis in_set_conv_nth)
  with shared_rows.one_per_row [OF assms(1)] have "check_shared_row ocodes codes (2 + i) (raw ! i) = Inr r" by simp
  then show ?thesis unfolding check_shared_row_def by (rule check_import_row_Inr)
qed

definition shared_accepted :: "env \<Rightarrow> uuid \<Rightarrow> pystr \<Rightarrow> bytes \<Rightarrow> db \<Rightarrow> exn + import_row list" where
  "shared_accepted E cid filename content d =
     (case get_row cycle_id cid (budget_cycles d) of
        None \<Rightarrow> Inl (app_err NotFoundError ''CYCLE_001'')
      | Some c \<Rightarrow>
          if cycle_status c \<noteq> open then Inl (app_err AppError ''CYCLE_004'')
          else if int (length content) > max_upload_bytes (cfg E) then Inl (batch_validation_error ''SHARED_004'' [])
          else case parse_table E filename content of
            Inl e \<Rightarrow> Inl e
          | Inr raw \<Rightarrow> (case normalize_shared raw of
              Inl e \<Rightarrow> Inl e
            | Inr norm \<Rightarrow>
                if int (length norm) > max_upload_rows (cfg E) then Inl (batch_validation_error ''SHARED_004'' [])
                else let result = validate_shared (org_unit_code_to_id_map (org_units d)) (codes_by_category shared_cost d) norm in
                  if valid result then Inr (rows result) else Inl (batch_validation_error ''SHARED_004'' (errors result))))"

lemma shared_accepted_known:
  assumes "shared_accepted E cid filename content d = Inr rs"
  shows "\<forall>r \<in> set rs. account_ids d (ir_account_code ` set rs) (ir_account_code r) \<noteq> None"
proof
  fix r assume r: "r \<in> set rs"
  from assms obtain norm where
      ok: "valid (validate_shared (org_unit_code_to_id_map (org_units d)) (codes_by_category shared_cost d) norm)" and
      rs: "rs = rows (validate_shared (org_unit_code_to_id_map (org_units d)) (codes_by_category shared_cost d) norm)"
    by (auto simp: shared_accepted_def Let_def split: option.splits sum.splits if_splits)
  from valid_shared_rows [OF ok] r have "ir_account_code r \<in> codes_by_category shared_cost d" unfolding rs by blast
  with r show "account_ids d (ir_account_code ` set rs) (ir_account_code r) \<noteq> None"
    using account_ids_known by blast
qed

lemma lines_data_known: "\<forall>r \<in> set rs. ids (ir_account_code r) \<noteq> None \<Longrightarrow>
    map (shared_line up) (build_lines_data rs ids) = import_lines_of up ids rs"
  by (induction rs) (auto simp: build_lines_data_def List.map_filter_def import_lines_of_def shared_line_def)

definition with_shared :: "import_upload \<Rightarrow> import_line list \<Rightarrow> db \<Rightarrow> db" where
  "with_shared up ls d = d\<lparr>shared_uploads := shared_uploads d @ [up], shared_lines := shared_lines d @ ls\<rparr>"

text \<open>The affected units of an import into the transaction's database.\<close>

definition shared_affected :: "uuid \<Rightarrow> import_row list \<Rightarrow> db \<Rightarrow> uuid \<Rightarrow> uuid list" where
  "shared_affected cid rs d placeholder = sorted_list_of_set (diff_affected_units
     (case shared_get_latest cid d of None \<Rightarrow> [] | Some p \<Rightarrow> fetch_lines (iu_id p) d)
     (import_lines_of placeholder (account_ids d (ir_account_code ` set rs)) rs))"

definition new_shared_upload :: "uuid \<Rightarrow> pystr \<Rightarrow> user \<Rightarrow> uuid list \<Rightarrow> session \<Rightarrow> import_upload" where
  "new_shared_upload cid filename u affected s = \<lparr>iu_id = uid_next s + 2, iu_cycle_id = cid, iu_uploader_id = user_id u,
     iu_uploaded_at = clock s, iu_filename = filename,
     iu_version = next_version iu_version (\<lambda>x. iu_cycle_id x = cid) (shared_uploads (cur s)),
     iu_summary = shared_summary affected (resolve_unit_codes affected (cur s))\<rparr>"

lemma persist_shared_run: "persist_shared cid u filename lines summary s =
    (let up = \<lparr>iu_id = uid_next s, iu_cycle_id = cid, iu_uploader_id = user_id u, iu_uploaded_at = clock s,
           iu_filename = filename, iu_version = next_version iu_version (\<lambda>x. iu_cycle_id x = cid) (shared_uploads (cur s)),
           iu_summary = summary\<rparr>;
         d = with_shared up (map (shared_line (uid_next s)) lines) (cur s); t = s\<lparr>uid_next := Suc (uid_next s)\<rparr>
     in if db_ok ((cur s)\<lparr>shared_uploads := shared_uploads (cur s) @ [up]\<rparr>) \<and> db_ok d
        then (Inr up, t\<lparr>cur := d, com := d\<rparr>) else (Inl Integrity_error, t\<lparr>cur := com s\<rparr>))"
  by (simp add: persist_shared_def act_simps Let_def with_shared_def)

lemma shared_import_run:
  assumes "seq_fresh s"
  shows "shared_import False E cid filename content u s =
    (case shared_accepted E cid filename content (cur s) of Inl e \<Rightarrow> (Inl e, s) | Inr rs \<Rightarrow>
       let s1 = s\<lparr>uid_next := Suc (uid_next s)\<rparr> in
       if \<not> storage_ok E then (Inl (app_err InfraError ''SYS_002''), s\<lparr>uid_next := Suc (Suc (uid_next s))\<rparr>)
       else let affected = shared_affected cid rs (cur s) (uid_next s);
           up = new_shared_upload cid filename u affected s;
           d = with_shared up (import_lines_of (iu_id up) (account_ids (cur s) (ir_account_code ` set rs)) rs) (cur s);
           t = file_stored ''shared_costs'' filename content 2 s1
       in if db_ok ((cur s)\<lparr>shared_uploads := shared_uploads (cur s) @ [up]\<rparr>) \<and> db_ok d
          then (Inr up, recorded E SHARED_COST_IMPORT ''shared_cost_upload'' (Some (iu_id up)) (Some (user_id u))
                 (JObj [(''cycle_id'', JUuid cid), (''version'', JInt (iu_version up)),
                   (''row_count'', JInt (int (length rs))),
                   (''file_size_bytes'', JInt (int (length content))), (''filename'', JText filename),
                   (''affected_unit_count'', JInt (int (length affected)))])
                 (t\<lparr>cur := d, com := d\<rparr>))
          else (Inl Integrity_error, t\<lparr>cur := com s\<rparr>))"
proof (cases "shared_accepted E cid filename content (cur s)")
  case (Inl e)
  then show ?thesis
    by (auto simp: shared_import_def run_sq cycle_assert_open_run act_simps shared_accepted_def Let_def
        split: option.splits sum.splits if_splits)
next
  case (Inr rs)
  then obtain c raw norm where cyc: "get_row cycle_id cid (budget_cycles (cur s)) = Some c" "cycle_status c = open"
    and size: "\<not> int (length content) > max_upload_bytes (cfg E)" and raw: "parse_table E filename content = Inr raw"
    and norm: "normalize_shared raw = Inr norm" and len: "\<not> int (length norm) > max_upload_rows (cfg E)"
    and ok: "valid (validate_shared (org_unit_code_to_id_map (org_units (cur s))) (codes_by_category shared_cost (cur s)) norm)"
    and rs: "rs = rows (validate_shared (org_unit_code_to_id_map (org_units (cur s))) (codes_by_category shared_cost (cur s)) norm)"
    by (auto simp: shared_accepted_def Let_def split: option.splits sum.splits if_splits)
  note known = lines_data_known [OF shared_accepted_known [OF Inr]]
  have cat: "''shared_costs'' \<in> set ALLOWED_CATEGORIES" by (simp add: ALLOWED_CATEGORIES_def)
  have fresh: "seq_fresh ((file_stored ''shared_costs'' filename content n (s\<lparr>uid_next := i\<rparr>))\<lparr>cur := with_shared x y (cur s)\<rparr>)" for n i x y
    using assms by (simp add: file_stored_def with_shared_def seq_fresh_def)
  let ?a = "shared_affected cid rs (cur s) (uid_next s)" and ?s1 = "s\<lparr>uid_next := Suc (uid_next s)\<rparr>"
  let ?up = "new_shared_upload cid filename u ?a s"
  have persist: "persist_shared cid u filename (build_lines_data rs (account_ids (cur s) (ir_account_code ` set rs)))
      (shared_summary ?a (resolve_unit_codes ?a (cur s))) (file_stored ''shared_costs'' filename content (Suc 0) ?s1) =
      (let d = with_shared ?up (import_lines_of (iu_id ?up) (account_ids (cur s) (ir_account_code ` set rs)) rs) (cur s);
           t = file_stored ''shared_costs'' filename content 2 ?s1 in
       if db_ok ((cur s)\<lparr>shared_uploads := shared_uploads (cur s) @ [?up]\<rparr>) \<and> db_ok d
       then (Inr ?up, t\<lparr>cur := d, com := d\<rparr>) else (Inl Integrity_error, t\<lparr>cur := com s\<rparr>))"
    unfolding persist_shared_run known by (simp add: new_shared_upload_def file_stored_def Let_def)
  show ?thesis
    using ok size len
    by (simp add: Inr shared_import_def run_sq cycle_assert_open_run cyc run_bnd run_session raw norm rs [symmetric]
        ephemeral_lines_def known storage_save_stored [OF cat] send_diff_notifications_def
        Let_def shared_affected_def [symmetric] del: length_sorted_list_of_set)
      (simp add: persist Let_def run_bnd run_sq run_audit_record fresh)
qed

lemma shared_import_Inl:
  assumes "seq_fresh s" "shared_import False E cid filename content u s = (Inl e, t)"
  shows "com t = com s"
  using assms(2) unfolding shared_import_run [OF assms(1)] by (auto simp: Let_def split: sum.splits if_splits)

lemma shared_import_Inr:
  assumes "seq_fresh s" "shared_import False E cid filename content u s = (Inr up, t)"
  obtains rs where "shared_accepted E cid filename content (cur s) = Inr rs"
    and "up = new_shared_upload cid filename u (shared_affected cid rs (cur s) (uid_next s)) s"
    and "com t = with_shared up (import_lines_of (iu_id up) (account_ids (cur s) (ir_account_code ` set rs)) rs) (cur s)"
proof -
  from assms(2) obtain rs where acc: "shared_accepted E cid filename content (cur s) = Inr rs"
    unfolding shared_import_run [OF assms(1)] by (auto split: sum.splits)
  then show thesis
    using assms(2) unfolding shared_import_run [OF assms(1)]
    by (intro that [OF acc]) (auto simp: Let_def split: if_splits)
qed

context audited_inv
begin

lemma kept_notify_units [preserves_intros]: "preserves P (notify_units E up cid p n is)"
proof (induction "is")
  case (Cons i "is")
  show ?case by (simp, intro preserves_intros Cons.IH)
qed (simp only: notify_units.simps preserves_basic)

lemma kept_shared [preserves_intros]:
  "preserves P (persist_shared cid u filename lines summary)"
  "preserves P (send_diff_notifications wired E up cid affected prev_lines new_lines)"
  "preserves P (shared_import wired E cid filename content u)"
  unfolding persist_shared_def send_diff_notifications_def shared_import_def ephemeral_lines_def Let_def
  by (intro preserves_intros; simp)+

end

section \<open>The walk up\<close>

fun parent_of :: "org_unit list \<Rightarrow> uuid option \<Rightarrow> uuid option" where
  "parent_of ws None = None"
| "parent_of ws (Some i) = (case get_row ou_id i ws of None \<Rightarrow> None | Some w \<Rightarrow> parent_id w)"

definition ancestor :: "org_unit list \<Rightarrow> uuid option \<Rightarrow> nat \<Rightarrow> uuid option" where
  "ancestor ws c n = (parent_of ws ^^ n) c"

lemma ancestor_0 [simp]: "ancestor ws c 0 = c"
  by (simp add: ancestor_def)

lemma ancestor_Suc: "ancestor ws c (Suc n) = ancestor ws (parent_of ws c) n"
  by (simp add: ancestor_def funpow_swap1)

lemma ancestor_None [simp]: "ancestor ws None n = None"
  by (induction n) (simp_all add: ancestor_Suc)

lemma climb_Some: "climb ws us visited c = Some u \<Longrightarrow>
    \<exists>n j. ancestor ws c n = Some j \<and> active_user_of us j = Some u
      \<and> (\<forall>m < n. \<forall>k. ancestor ws c m = Some k \<longrightarrow> active_user_of us k = None)"
proof (induction ws us visited c rule: climb.induct)
  case (2 ws us visited i)
  show ?case
  proof (cases "active_user_of us i")
    case None
    with "2.prems" obtain w where w: "i \<notin> set visited" "get_row ou_id i ws = Some w"
        "climb ws us (i # visited) (parent_id w) = Some u"
      by (auto split: if_splits option.splits)
    from "2.IH" [OF w(1) None w(2,3)] obtain n j where nj: "ancestor ws (parent_id w) n = Some j"
        "active_user_of us j = Some u" "\<forall>m < n. \<forall>k. ancestor ws (parent_id w) m = Some k \<longrightarrow> active_user_of us k = None"
      by blast
    have "active_user_of us k = None" if "m < Suc n" "ancestor ws (Some i) m = Some k" for m k
      using that nj(3) w(2) None by (cases m) (auto simp: ancestor_Suc)
    with nj(1,2) w(2) show ?thesis by (intro exI [of _ "Suc n"] exI [of _ j]) (simp add: ancestor_Suc)
  next
    case (Some v)
    with "2.prems" show ?thesis by (intro exI [of _ 0] exI [of _ i]) (auto split: if_splits)
  qed
qed simp

text \<open>The visited units have nobody, and each leads to another visited one, to the next one or nowhere.\<close>

lemma climb_None: "climb ws us visited c = None \<Longrightarrow> \<forall>v \<in> set visited. active_user_of us v = None \<and>
      (parent_of ws (Some v) = None \<or> parent_of ws (Some v) = c \<or> parent_of ws (Some v) \<in> Some ` set visited) \<Longrightarrow>
    ancestor ws c n = Some j \<Longrightarrow> active_user_of us j = None"
proof (induction ws us visited c arbitrary: n rule: climb.induct)
  case (2 ws us visited i)
  show ?case
  proof (cases "i \<in> set visited")
    case True
    have "ancestor ws (Some v) m = Some k \<Longrightarrow> v \<in> set visited \<Longrightarrow> k \<in> set visited" for v m k
    proof (induction m arbitrary: v)
      case (Suc m)
      with "2.prems"(2) True show ?case by (cases "parent_of ws (Some v)") (force simp: ancestor_Suc)+
    qed simp
    with True "2.prems" show ?thesis by blast
  next
    case False
    with "2.prems"(1) have nobody: "active_user_of us i = None" by (auto split: option.splits)
    show ?thesis
    proof (cases n)
      case 0
      with "2.prems"(3) nobody show ?thesis by simp
    next
      case (Suc m)
      with "2.prems"(3) obtain w where w: "get_row ou_id i ws = Some w" "ancestor ws (parent_id w) m = Some j"
        by (auto simp: ancestor_Suc split: option.splits)
      have "climb ws us (i # visited) (parent_id w) = None" using "2.prems"(1) False nobody w(1) by simp
      moreover have "\<forall>v \<in> set (i # visited). active_user_of us v = None \<and> (parent_of ws (Some v) = None
          \<or> parent_of ws (Some v) = parent_id w \<or> parent_of ws (Some v) \<in> Some ` set (i # visited))"
        using "2.prems"(2) nobody w(1) by auto
      ultimately show ?thesis using "2.IH" [OF False nobody w(1)] w(2) by blast
    qed
  qed
qed simp

lemma diff_totals:
  assumes "list_all (\<lambda>l. 0 < il_amount l) prev_lines" "list_all (\<lambda>l. 0 < il_amount l) new_lines"
  shows "diff_affected_units prev_lines new_lines =
    {i. total il_org_unit_id il_amount prev_lines i \<noteq> total il_org_unit_id il_amount new_lines i}"
proof -
  let ?p = "sum_by il_org_unit_id il_amount prev_lines []" and ?n = "sum_by il_org_unit_id il_amount new_lines []"
  have look: "map_of (sum_by il_org_unit_id il_amount ls []) i =
      (if total il_org_unit_id il_amount ls i = 0 then None else Some (total il_org_unit_id il_amount ls i))"
    if "list_all (\<lambda>l. 0 < il_amount l) ls" for ls i
  proof (cases "i \<in> il_org_unit_id ` set ls")
    case True
    with that have "0 < total il_org_unit_id il_amount ls i"
    proof (induction ls)
      case (Cons l ls)
      then show ?case
        by (cases "i \<in> il_org_unit_id ` set ls") (auto simp: total_absent)
    qed simp
    with True show ?thesis by (simp add: map_of_sum_by)
  qed (simp add: map_of_sum_by total_absent)
  have "i \<in> diff_affected_units prev_lines new_lines \<longleftrightarrow> map_of ?p i \<noteq> map_of ?n i" for i
  proof -
    have "map_of ?p i \<noteq> map_of ?n i \<Longrightarrow> i \<in> fst ` set ?p \<union> fst ` set ?n" by (metis UnCI map_of_eq_None_iff)
    then show ?thesis unfolding diff_affected_units_def Let_def by (auto simp del: Un_iff simp add: image_Un [symmetric])
  qed
  then have "i \<in> diff_affected_units prev_lines new_lines \<longleftrightarrow>
      total il_org_unit_id il_amount prev_lines i \<noteq> total il_org_unit_id il_amount new_lines i" for i
    unfolding look [OF assms(1)] look [OF assms(2)] by (simp split: if_splits)
  then show ?thesis by (intro set_eqI) simp
qed

lemma finite_diff: "finite (diff_affected_units prev_lines new_lines)"
  by (simp add: diff_affected_units_def Let_def)

lemma total_import_lines: "total il_org_unit_id il_amount (import_lines_of a ids rs) i
    = total il_org_unit_id il_amount (import_lines_of b ids rs) i"
  by (simp add: import_lines_of_def total_def filter_map comp_def)

text \<open>The affected units of an import are those whose totals differ between the stored versions.\<close>

lemma shared_affected_totals:
  assumes "import_lines_ok (shared_lines d @ import_lines_of up (account_ids d (ir_account_code ` set rs)) rs)"
  shows "set (shared_affected cid rs d placeholder) =
    {i. total il_org_unit_id il_amount (case shared_get_latest cid d of None \<Rightarrow> [] | Some p \<Rightarrow> fetch_lines (iu_id p) d) i
      \<noteq> total il_org_unit_id il_amount (import_lines_of up (account_ids d (ir_account_code ` set rs)) rs) i}"
proof -
  let ?ids = "account_ids d (ir_account_code ` set rs)"
  have pos: "list_all (\<lambda>l. 0 < il_amount l) (shared_lines d)" "list_all (\<lambda>l. 0 < il_amount l) (import_lines_of up ?ids rs)"
    using assms by (simp_all add: import_lines_ok_def)
  have "list_all (\<lambda>l. 0 < il_amount l) (case shared_get_latest cid d of None \<Rightarrow> [] | Some p \<Rightarrow> fetch_lines (iu_id p) d)"
    using pos(1) by (auto simp: fetch_lines_def list_all_iff split: option.splits)
  moreover have "list_all (\<lambda>l. 0 < il_amount l) (import_lines_of placeholder ?ids rs)"
    using pos(2) by (simp add: import_lines_of_def list_all_iff)
  ultimately have diff: "diff_affected_units (case shared_get_latest cid d of None \<Rightarrow> [] | Some p \<Rightarrow> fetch_lines (iu_id p) d)
      (import_lines_of placeholder ?ids rs) =
    {i. total il_org_unit_id il_amount (case shared_get_latest cid d of None \<Rightarrow> [] | Some p \<Rightarrow> fetch_lines (iu_id p) d) i
      \<noteq> total il_org_unit_id il_amount (import_lines_of up ?ids rs) i}"
    by (simp only: diff_totals total_import_lines [of placeholder ?ids rs _ up])
  show ?thesis
    unfolding shared_affected_def set_sorted_list_of_set [OF finite_diff] by (rule diff)
qed

text \<open>What an accepted import does to the committed database.\<close>

lemma shared_import_stored:
  assumes "store_inv E s" "cur s = com s" "uploads_fresh s"
    and run: "shared_import False E cid filename content u s = (Inr up, t)"
  shows "\<exists>rs ls affected.
        shared_accepted E cid filename content (com s) = Inr rs
      \<and> com t = (com s)\<lparr>shared_uploads := shared_uploads (com s) @ [up], shared_lines := shared_lines (com s) @ ls\<rparr>
      \<and> (\<forall>v acc. map_of (shared_latest_by_cycle cid (com t)) (v, acc) = map_option ir_amount
            (find (\<lambda>r. ir_org_unit_id r = v \<and>
               account_ids (com s) (ir_account_code ` set rs) (ir_account_code r) = Some acc) rs))
      \<and> (\<forall>c v acc. c \<noteq> cid \<longrightarrow> map_of (shared_latest_by_cycle c (com t)) (v, acc)
            = map_of (shared_latest_by_cycle c (com s)) (v, acc))
      \<and> iu_summary up = shared_summary affected (resolve_unit_codes affected (com s))
      \<and> set affected = {i. total il_org_unit_id il_amount
            (case shared_get_latest cid (com s) of None \<Rightarrow> [] | Some p \<Rightarrow> fetch_lines (iu_id p) (com s)) i
          \<noteq> total il_org_unit_id il_amount ls i}
      \<and> (numbered iu_cycle_id iu_version (shared_uploads (com s)) \<longrightarrow>
          numbered iu_cycle_id iu_version (shared_uploads (com t)))"
proof -
  have fresh: "seq_fresh s" using assms(1) by (rule seq_fresh_based)
  from shared_import_Inr [OF fresh run, unfolded assms(2)] obtain rs
    where acc: "shared_accepted E cid filename content (com s) = Inr rs"
      and up: "up = new_shared_upload cid filename u (shared_affected cid rs (com s) (uid_next s)) s"
      and com: "com t = with_shared up (import_lines_of (iu_id up) (account_ids (com s) (ir_account_code ` set rs)) rs) (com s)" .
  let ?ls = "import_lines_of (iu_id up) (account_ids (com s) (ir_account_code ` set rs)) rs"
  have new: "iu_cycle_id up = cid" "iu_id up = uid_next s + 2"
    "iu_version up = next_version iu_version (\<lambda>x. iu_cycle_id x = iu_cycle_id up) (shared_uploads (com s))"
    by (simp_all add: up new_shared_upload_def assms(2))
  have summary: "iu_summary up = shared_summary (shared_affected cid rs (com s) (uid_next s))
      (resolve_unit_codes (shared_affected cid rs (com s) (uid_next s)) (com s))"
    by (simp add: up new_shared_upload_def assms(2))
  have tbl: "shared_uploads (com t) = shared_uploads (com s) @ [up]"
    "shared_lines (com t) = shared_lines (com s) @ ?ls" by (simp_all add: com with_shared_def)
  have "store_inv E (snd (shared_import False E cid filename content u s))"
    by (rule store_inv_run [OF stored.kept_shared(3) assms(1)])
  then have ok: "db_ok (com t)" "db_ok (com s)" using assms(1) run by (simp_all add: store_inv_def)
  then have lines: "import_lines_ok (shared_lines (com s) @ ?ls)" "import_lines_ok (shared_lines (com s))"
    "distinct (map iu_id (shared_uploads (com s) @ [up]))"
    by (simp_all add: db_ok_def import_uploads_ok_def tbl [symmetric])
  have "\<forall>l \<in> set (shared_lines (com s)). il_upload_id l < uid_next s"
    using assms(2,3) by (simp add: uploads_fresh_def)
  then have old: "\<forall>l \<in> set (shared_lines (com s)). il_upload_id l \<noteq> iu_id up"
    unfolding new(2) by fastforce
  have known: "\<forall>r \<in> set rs. account_ids (com s) (ir_account_code ` set rs) (ir_account_code r) \<noteq> None"
    using shared_accepted_known [OF acc] by blast
  note amounts = import_amounts_new [OF lines(1) new(3) old known, unfolded new(1)]
    import_amounts_other [OF lines, unfolded new(1)]
  show ?thesis
    unfolding shared_latest_by_cycle_def tbl
    by (rule exI [of _ rs], rule exI [of _ ?ls], rule exI [of _ "shared_affected cid rs (com s) (uid_next s)"], intro conjI)
      (use acc com amounts summary import_versions.numbered_append [OF _ new(3)] shared_affected_totals [OF lines(1)]
        in \<open>simp_all add: with_shared_def\<close>)
qed

section \<open>Sample\<close>

definition shared_db :: db where
  "shared_db = accounts_db\<lparr>account_codes := [account0\<lparr>category := shared_cost\<rparr>]\<rparr>"

lemma shared_db_inv: "store_inv env0 (session_of shared_db)"
  using accounts_db_inv
  by (simp add: store_inv_def chain_inv_def log_ok_def db_ok_def shared_db_def accounts_db_def constraint_defs account0_def)

lemma shared_accepted_sample: "shared_accepted env0 7 (str ''a.csv'') actuals_csv shared_db =
    Inr [\<lparr>ir_org_unit_id = 2, ir_account_code = str ''5100'', ir_amount = 1250\<rparr>]"
proof -
  have parsed: "parse_table env0 (str ''a.csv'') actuals_csv = Inr [actuals_row0]"
    by (simp add: parse_table_def csv_name csv_rows_def actuals_csv_dicts actuals_row0_def del: str_simps)
  have norm: "normalize_shared [actuals_row0] = Inr [[(''dept_id'', Cell_Str (str ''4023'')),
      (''account_code'', Cell_Str (str ''5100'')), (''amount'', Cell_Str (str ''12.5''))]]"
    by (simp add: normalize_shared_def shared_header_def HEADER_MAP_def clean_header_def clean_cell_def
        strip_def is_space_def lower_def lower_char_def List.map_filter_def dict_of_def actuals_row0_def)
  have "validate_shared (org_unit_code_to_id_map (org_units shared_db)) (codes_by_category shared_cost shared_db)
      [[(''dept_id'', Cell_Str (str ''4023'')), (''account_code'', Cell_Str (str ''5100'')), (''amount'', Cell_Str (str ''12.5''))]]
      = \<lparr>rows = [\<lparr>ir_org_unit_id = 2, ir_account_code = str ''5100'', ir_amount = 1250\<rparr>], errors = []\<rparr>"
    by (simp add: validate_shared_def check_shared_row_def
        check_import_row_def cell_at_def org_unit_code_to_id_map_def codes_by_category_def shared_db_def accounts_db_def
        org_db_def unit0_def unit1_def account0_def clean_cell_def strip_def is_space_def parse_amount_def
        amount_value_def decimal_of_text_def read_number_def read_sign_def read_exponent_def digit_val_def
        digit_zeros_def lower_def lower_char_def quantize_cents_def round_half_even_def all_digits_def Let_def)
  moreover have "get_row cycle_id 7 (budget_cycles shared_db) = Some (cycle0\<lparr>cycle_status := open\<rparr>)"
    by (simp add: shared_db_def accounts_db_def get_row_def cycle0_def)
  moreover have "length actuals_csv \<le> 10485760" by (simp add: actuals_csv_def)
  ultimately show ?thesis
    by (simp add: shared_accepted_def parsed norm Let_def valid_def del: str_simps)
qed

section \<open>Properties\<close>

text \<open>
  Claim C26: the affected units. Over lines with positive amounts, which the schema demands,
  the units that \<^verbatim>\<open>diff_affected_units\<close> returns are exactly those whose total differs between the two
  versions, a unit without lines counting as zero: a unit that appears or disappears is
  affected, and redistributing a unit's amount over its accounts is not a change.
\<close>

theorem diff_affected_units_totals:
  assumes "list_all (\<lambda>l. 0 < il_amount l) prev_lines" "list_all (\<lambda>l. 0 < il_amount l) new_lines"
  shows "diff_affected_units prev_lines new_lines =
    {i. total il_org_unit_id il_amount prev_lines i \<noteq> total il_org_unit_id il_amount new_lines i}"
  using assms by (rule diff_totals)

lemma diff_affected_units_totals_witness:
  "diff_affected_units [\<lparr>il_upload_id = 1, il_org_unit_id = 2, il_account_code_id = 5, il_amount = 30\<rparr>]
     [\<lparr>il_upload_id = 3, il_org_unit_id = 2, il_account_code_id = 5, il_amount = 10\<rparr>,
      \<lparr>il_upload_id = 3, il_org_unit_id = 2, il_account_code_id = 6, il_amount = 20\<rparr>,
      \<lparr>il_upload_id = 3, il_org_unit_id = 4, il_account_code_id = 6, il_amount = 7\<rparr>] = {4}"
  by (subst diff_affected_units_totals) auto

text \<open>
  The walk up the org tree for somebody to notify returns on every table of units,
  circular parent links included, and finds the nearest unit, from the given one upwards,
  that has an active user, whatever the user's role; it finds nobody only if no unit on the
  way up has an active user.
\<close>

theorem resolve_manager_nearest:
  "case resolve_manager i d of
     Some u \<Rightarrow> \<exists>n j. ancestor (org_units d) (Some i) n = Some j \<and> active_user_of (users d) j = Some u
       \<and> (\<forall>m < n. \<forall>k. ancestor (org_units d) (Some i) m = Some k \<longrightarrow> active_user_of (users d) k = None)
   | None \<Rightarrow> \<forall>n j. ancestor (org_units d) (Some i) n = Some j \<longrightarrow> active_user_of (users d) j = None"
proof (cases "resolve_manager i d")
  case None
  have "active_user_of (users d) j = None" if "ancestor (org_units d) (Some i) n = Some j" for n j
    using None that using climb_None [of "org_units d" "users d" "[]" "Some i" n j] by (simp add: resolve_manager_def)
  with None show ?thesis by simp
next
  case (Some u)
  from climb_Some [OF this [unfolded resolve_manager_def]] Some show ?thesis by simp
qed

lemma resolve_manager_nearest_witness:
  "\<exists>n j. ancestor [unit0\<lparr>parent_id := Some 2\<rparr>, unit1] (Some 2) n = Some j
     \<and> active_user_of [manager0\<lparr>user_org_unit_id := Some 1\<rparr>] j = Some (manager0\<lparr>user_org_unit_id := Some 1\<rparr>)"
  using resolve_manager_nearest [where i = 2 and d = "empty_db\<lparr>org_units := [unit0\<lparr>parent_id := Some 2\<rparr>, unit1],
      users := [manager0\<lparr>user_org_unit_id := Some 1\<rparr>]\<rparr>"]
  by (auto simp: resolve_manager_def active_user_of_def unit0_def unit1_def manager0_def get_row_def split: if_splits)

text \<open>
  Claim C25: a shared-cost import, as the route runs it. If it fails, the committed database is
  as it was. If it succeeds, one version was added with the rows of the file; for the cycle
  the amount under a unit and an account is that of the file's row for them, and nothing
  where there is none; the units reported as affected are those whose total differs between
  the version before and this one; other cycles are untouched and versions stay 1, 2, 3, ....
  Nothing else is committed, so the audit row of the import is lost.
\<close>

theorem shared_import_effect:
  assumes "store_inv E s" "cur s = com s" "uploads_fresh s"
  shows "case import_shared_costs E cid name content u s of
      (Inl e, t) \<Rightarrow> com t = com s
    | (Inr up, t) \<Rightarrow> \<exists>rs ls affected.
        shared_accepted E cid (name_or ''upload.csv'' name) content (com s) = Inr rs
      \<and> com t = (com s)\<lparr>shared_uploads := shared_uploads (com s) @ [up], shared_lines := shared_lines (com s) @ ls\<rparr>
      \<and> (\<forall>v acc. map_of (shared_latest_by_cycle cid (com t)) (v, acc) = map_option ir_amount
            (find (\<lambda>r. ir_org_unit_id r = v \<and>
               account_ids (com s) (ir_account_code ` set rs) (ir_account_code r) = Some acc) rs))
      \<and> (\<forall>c v acc. c \<noteq> cid \<longrightarrow> map_of (shared_latest_by_cycle c (com t)) (v, acc)
            = map_of (shared_latest_by_cycle c (com s)) (v, acc))
      \<and> iu_summary up = shared_summary affected (resolve_unit_codes affected (com s))
      \<and> set affected = {i. total il_org_unit_id il_amount
            (case shared_get_latest cid (com s) of None \<Rightarrow> [] | Some p \<Rightarrow> fetch_lines (iu_id p) (com s)) i
          \<noteq> total il_org_unit_id il_amount ls i}
      \<and> (numbered iu_cycle_id iu_version (shared_uploads (com s)) \<longrightarrow>
          numbered iu_cycle_id iu_version (shared_uploads (com t)))"
proof -
  let ?m = "shared_import False E cid (name_or ''upload.csv'' name) content u"
  obtain r t where run: "?m s = (r, t)" by fastforce
  have "import_shared_costs E cid name content u s = (Inl (app_err ForbiddenError ''RBAC_001''), s)
      \<or> import_shared_costs E cid name content u s = get_session ?m s"
    unfolding import_shared_costs_def role_session session_base [OF assms(2)] by simp
  then consider e where "import_shared_costs E cid name content u s = (Inl e, s)"
    | "import_shared_costs E cid name content u s = get_session ?m s" by blast
  then show ?thesis
  proof cases
    case 2
    show ?thesis
    proof (cases r)
      case (Inl e)
      with shared_import_Inl [OF seq_fresh_based [OF assms(1)]] run have "com t = com s" by blast
      with Inl run show ?thesis by (auto simp: 2 get_session_simp session_base [OF assms(2)] split: exn.splits)
    next
      case (Inr up)
      then have "get_session ?m s = (Inr up, t\<lparr>cur := com t\<rparr>)"
        using run by (simp add: get_session_simp session_base [OF assms(2)])
      then show ?thesis
        unfolding 2 using shared_import_stored [OF assms run [unfolded Inr]] by simp
    qed
  qed simp
qed

lemma shared_import_effect_witness:
  "\<exists>up t. import_shared_costs env0 7 (Some (str ''a.csv'')) actuals_csv admin0 (session_of shared_db) = (Inr up, t)
     \<and> map_of (shared_latest_by_cycle 7 (com t)) (2, 50) = Some 1250"
proof -
  let ?s = "session_of shared_db"
  have tables: "shared_uploads shared_db = []" "shared_lines shared_db = []"
    "account_ids shared_db (ir_account_code ` {\<lparr>ir_org_unit_id = 2, ir_account_code = str ''5100'', ir_amount = 1250\<rparr>})
       (str ''5100'') = Some 50" and fresh: "uploads_fresh ?s"
    by (simp_all add: shared_db_def accounts_db_def org_db_def account_ids_def code_id_map_def account0_def uploads_fresh_def)
  have "db_ok shared_db" using shared_db_inv by (simp add: store_inv_def)
  then have ok: "db_ok (shared_db\<lparr>shared_uploads := [x]\<rparr>)"
    "0 < il_amount l \<Longrightarrow> db_ok (shared_db\<lparr>shared_uploads := [x], shared_lines := [l]\<rparr>)" for x l
    by (simp_all add: db_ok_def constraint_defs)
  obtain up t where run: "shared_import False env0 7 (str ''a.csv'') actuals_csv admin0 ?s = (Inr up, t)"
    by (simp add: shared_import_run [OF seq_fresh_based [OF shared_db_inv]] shared_accepted_sample
        with_shared_def import_lines_of_def tables ok Let_def new_shared_upload_def del: str_simps)
  have roles: "\<not> set (role_set admin0) \<inter> set [FinanceAdmin, SystemAdmin] = {}"
    by simp
  have named: "name_or ''upload.csv'' (Some (str ''a.csv'')) = str ''a.csv''" "?s\<lparr>cur := com ?s\<rparr> = ?s"
    by (simp_all add: name_or_def)
  from run have route: "import_shared_costs env0 7 (Some (str ''a.csv'')) actuals_csv admin0 ?s = (Inr up, t\<lparr>cur := com t\<rparr>)"
    unfolding import_shared_costs_def role_session if_not_P [OF roles] named(1)
    unfolding get_session_simp named(2) by simp
  have "map_of (shared_latest_by_cycle 7 (com t)) (2, 50) = Some 1250"
    using shared_import_effect [OF shared_db_inv _ fresh, where cid = 7 and name = "Some (str ''a.csv'')"
        and content = actuals_csv and u = admin0, unfolded route named(1)] tables
    by (auto simp: shared_accepted_sample simp del: str_simps)
  with route show ?thesis by (intro exI [of _ up] exI [of _ "t\<lparr>cur := com t\<rparr>"]) simp
qed

end
