(* ===== verification/Reports.thy ===== *)
theory Reports
  imports Budget_Uploads Personnel Shared_Costs
begin

text \<open>
  \<^verbatim>\<open>domain/consolidation/report.py\<close> and \<^verbatim>\<open>report_models.py\<close>: the consolidated report, which joins
  the newest budgets, personnel and shared costs of a cycle with its actuals over the org
  units and accounts, and the route that serves it. The percentage of a row is computed in
  Python's decimal arithmetic of 28 digits; the claim on it shows that this is exact.
\<close>

section \<open>The percentage\<close>

text \<open>
  Python's division of two decimals, on the coefficients: the quotient rounded half-even to
  28 significant digits, as a coefficient and the number of its decimals.
\<close>

definition half_even_div :: "nat \<Rightarrow> nat \<Rightarrow> nat" where
  "half_even_div a b = (let q = a div b; r = a mod b in if b < 2 * r \<or> (2 * r = b \<and> odd q) then q + 1 else q)"

definition div_prec28 :: "nat \<Rightarrow> nat \<Rightarrow> nat \<times> nat" where
  "div_prec28 n d =
     (let e0 = 28 + length (nat_text d) - length (nat_text n);
          e = (if 10 ^ 28 \<le> n * 10 ^ e0 div d then e0 - 1 else e0)
      in (half_even_div (n * 10 ^ e) d, e))"

text \<open>Rounding half away from zero, of a magnitude.\<close>

definition half_up_div :: "nat \<Rightarrow> nat \<Rightarrow> nat" where
  "half_up_div a b = (2 * a + b) div (2 * b)"

text \<open>
  \<open>_format_delta_pct\<close>. Both amounts have two decimals, so their quotient is that of their
  cents; times 100 and quantized to one decimal, the coefficient is that of a thousand
  times the quotient. The sign of a quotient, zero included, is the product of the signs.
\<close>

definition format_delta_pct :: "cents option \<Rightarrow> cents option \<Rightarrow> pystr" where
  "format_delta_pct delta actual =
     (case (delta, actual) of
        (Some d, Some a) \<Rightarrow>
          if a = 0 then str ''N/A''
          else (case div_prec28 (nat \<bar>d\<bar>) (nat \<bar>a\<bar>) of (c, e) \<Rightarrow>
            decimal_text (Finite ((d < 0) \<noteq> (a < 0)) (half_up_div (1000 * c) (10 ^ e)) (- 1)))
      | _ \<Rightarrow> str ''N/A'')"

section \<open>The models\<close>

datatype budget_status = uploaded | not_uploaded

record report_scope =
  scope_user_id :: uuid
  scope_units :: "uuid list"
  all_scopes :: bool

record report_row =
  row_unit_id :: uuid
  row_unit_name :: pystr
  row_account_code :: pystr
  row_account_name :: pystr
  row_actual :: "cents option"
  operational_budget :: "cents option"
  personnel_budget :: "cents option"
  shared_cost_amount :: "cents option"
  delta_amount :: "cents option"
  delta_pct :: pystr
  budget_status :: budget_status

record report =
  rep_cycle_id :: uuid
  rep_rows :: "report_row list"
  rep_currency :: pystr
  budget_updated :: "stamp option"
  personnel_updated :: "stamp option"
  shared_updated :: "stamp option"

section \<open>ConsolidatedReportService\<close>

definition AGGREGATE_LEVELS :: "pystr list" where
  "AGGREGATE_LEVELS = [str ''1000'', str ''0800'', str ''0500'', str ''0000'']"

definition resolve_scope :: "user \<Rightarrow> db \<Rightarrow> report_scope" where
  "resolve_scope u d = (case scoped_org_units u d of
      ALL_SCOPES \<Rightarrow> \<lparr>scope_user_id = user_id u, scope_units = [], all_scopes = True\<rparr>
    | Units us \<Rightarrow> \<lparr>scope_user_id = user_id u, scope_units = us, all_scopes = False\<rparr>)"

definition unit_in_scope :: "uuid \<Rightarrow> report_scope \<Rightarrow> bool" where
  "unit_in_scope i sc \<longleftrightarrow> all_scopes sc \<or> i \<in> set (scope_units sc)"

definition fetch_actuals :: "uuid \<Rightarrow> db \<Rightarrow> (uuid \<times> uuid, int) dict" where
  "fetch_actuals cid d = sum_by (\<lambda>a. (ae_org_unit_id a, ae_account_code_id a)) ae_amount
     (filter (\<lambda>a. ae_cycle_id a = cid) (actual_expenses d)) []"

definition fetch_org_units :: "report_scope \<Rightarrow> db \<Rightarrow> org_unit list" where
  "fetch_org_units sc d =
     (if all_scopes sc then org_units d else filter (\<lambda>w. ou_id w \<in> set (scope_units sc)) (org_units d))"

definition fetch_accounts :: "uuid set \<Rightarrow> db \<Rightarrow> account_code list" where
  "fetch_accounts ids d = filter (\<lambda>a. ac_id a \<in> ids) (account_codes d)"

text \<open>The dictionary of rows by id: a later row of the same id would win.\<close>

definition by_id :: "('r \<Rightarrow> uuid) \<Rightarrow> 'r list \<Rightarrow> uuid \<Rightarrow> 'r option" where
  "by_id key rs = map_of (rev (map (\<lambda>r. (key r, r)) rs))"

definition build_row :: "org_unit \<Rightarrow> account_code \<Rightarrow> (uuid \<times> uuid, int) dict \<Rightarrow> (uuid \<times> uuid, int) dict
    \<Rightarrow> (uuid \<times> uuid, int) dict \<Rightarrow> (uuid \<times> uuid, int) dict \<Rightarrow> report_row" where
  "build_row w a budgets personnels shareds actuals =
     (let key = (ou_id w, ac_id a);
          ob = map_of budgets key;
          ac = map_of actuals key;
          aggregate = level_code w \<in> set AGGREGATE_LEVELS;
          delta = (case (ob, ac) of (Some x, Some y) \<Rightarrow> Some (x - y) | _ \<Rightarrow> None)
      in \<lparr>row_unit_id = ou_id w, row_unit_name = ou_name w, row_account_code = ac_code a,
          row_account_name = ac_name a, row_actual = ac, operational_budget = ob,
          personnel_budget = (if aggregate then map_of personnels key else None),
          shared_cost_amount = (if aggregate then map_of shareds key else None),
          delta_amount = delta, delta_pct = format_delta_pct delta ac,
          budget_status = (if ob = None then not_uploaded else uploaded)\<rparr>)"

definition placeholder_row :: "org_unit \<Rightarrow> report_row" where
  "placeholder_row w = \<lparr>row_unit_id = ou_id w, row_unit_name = ou_name w, row_account_code = [],
     row_account_name = [], row_actual = None, operational_budget = None, personnel_budget = None,
     shared_cost_amount = None, delta_amount = None, delta_pct = str ''N/A'', budget_status = not_uploaded\<rparr>"

text \<open>\<open>ORDER BY version DESC LIMIT 1\<close> over all uploads of the cycle.\<close>

definition latest_budget_ts :: "uuid \<Rightarrow> db \<Rightarrow> stamp option" where
  "latest_budget_ts cid d =
     map_option bu_uploaded_at (first_row (order_desc bu_version (filter (\<lambda>u. bu_cycle_id u = cid) (budget_uploads d))))"

definition latest_import_ts :: "uuid \<Rightarrow> import_upload list \<Rightarrow> stamp option" where
  "latest_import_ts cid us =
     map_option iu_uploaded_at (first_row (order_desc iu_version (filter (\<lambda>u. iu_cycle_id u = cid) us)))"

definition report_build :: "uuid \<Rightarrow> report_scope \<Rightarrow> db \<Rightarrow> report" where
  "report_build cid sc d =
     (let budgets = budget_latest_by_cycle cid d;
          personnels = personnel_latest_by_cycle cid d;
          shareds = shared_latest_by_cycle cid d;
          actuals = fetch_actuals cid d;
          units = fetch_org_units sc d;
          keys = map fst budgets @ map fst personnels @ map fst shareds @ map fst actuals;
          accounts = fetch_accounts (snd ` set keys) d;
          joined = List.map_filter (\<lambda>(i, j).
            case (by_id ou_id units i, by_id ac_id accounts j) of
              (Some w, Some a) \<Rightarrow>
                if unit_in_scope (ou_id w) sc then Some (build_row w a budgets personnels shareds actuals) else None
            | _ \<Rightarrow> None) (sort (remdups keys));
          missing = filter (\<lambda>w. ou_id w \<notin> fst ` fst ` set budgets \<and> unit_in_scope (ou_id w) sc) units
      in \<lparr>rep_cycle_id = cid, rep_rows = joined @ map placeholder_row missing,
          rep_currency = (case get_row cycle_id cid (budget_cycles d) of
            Some c \<Rightarrow> reporting_currency c | None \<Rightarrow> str ''TWD''),
          budget_updated = latest_budget_ts cid d,
          personnel_updated = latest_import_ts cid (personnel_uploads d),
          shared_updated = latest_import_ts cid (shared_uploads d)\<rparr>)"

definition get_consolidated_report :: "uuid \<Rightarrow> user \<Rightarrow> report op" where
  "get_consolidated_report cid u = get_session (bnd (require_role [SystemAdmin, FinanceAdmin, UplineReviewer,
     CompanyReviewer] u) (\<lambda>u. bnd (query (resolve_scope u)) (\<lambda>sc. query (report_build cid sc))))"

section \<open>Exactness of the percentage\<close>

lemma nat_text_bounds: "n < 10 ^ length (nat_text n) \<and> (0 < n \<longrightarrow> 10 ^ (length (nat_text n) - 1) \<le> n)"
proof (induction n rule: nat_text.induct)
  case (1 n)
  show ?case
  proof (cases "n < 10")
    case True
    then show ?thesis by (subst (1 2) nat_text.simps) simp
  next
    case False
    let ?l = "length (nat_text (n div 10))"
    have len: "length (nat_text n) = Suc ?l" using False by (subst nat_text.simps) simp
    have l: "?l = Suc (?l - 1)" by (cases "nat_text (n div 10)") simp_all
    from "1.IH" [OF False] False have b: "n div 10 < 10 ^ ?l" "10 ^ (?l - 1) \<le> n div 10" by auto
    have "n < 10 ^ Suc ?l" using b(1) by (simp add: div_less_iff_less_mult algebra_simps)
    moreover have "10 * 10 ^ (?l - 1) \<le> n" using b(2) by (simp add: less_eq_div_iff_mult_less_eq algebra_simps)
    moreover have "(10::nat) ^ ?l = 10 * 10 ^ (?l - 1)" using l by (metis power_Suc)
    ultimately show ?thesis unfolding len by simp
  qed
qed

lemma half_even_div_close:
  assumes "0 < b"
  shows "2 * a \<le> 2 * half_even_div a b * b + b \<and> 2 * half_even_div a b * b \<le> 2 * a + b"
proof -
  define q where "q = a div b"
  define r where "r = a mod b"
  have a: "a = q * b + r" and r: "r < b" using assms by (simp_all add: q_def r_def)
  have "half_even_div a b = (if b < 2 * r \<or> (2 * r = b \<and> odd q) then q + 1 else q)"
    by (simp add: half_even_div_def q_def r_def Let_def)
  moreover have "2 * (q + 1) * b = 2 * (q * b) + 2 * b" by (simp add: algebra_simps)
  ultimately show ?thesis using a r by (cases "b < 2 * r \<or> (2 * r = b \<and> odd q)") auto
qed

lemma half_even_div_exact: "b dvd a \<Longrightarrow> 0 < b \<Longrightarrow> half_even_div a b * b = a"
  by (simp add: half_even_div_def Let_def dvd_eq_mod_eq_0 [symmetric])

text \<open>The quotient has at least 28 digits before the decimals are counted off.\<close>

lemma div_prec28_scaled:
  assumes "0 < n" "0 < d" "n < 10 ^ 20" "div_prec28 n d = (c, e)"
  shows "c = half_even_div (n * 10 ^ e) d" and "10 ^ 27 * d \<le> n * 10 ^ e"
proof -
  let ?ln = "length (nat_text n)" and ?ld = "length (nat_text d)"
  have "10 ^ (?ln - 1) < (10::nat) ^ 20"
    using nat_text_bounds [of n] assms(1,3) by linarith
  then have "?ln - 1 < 20" by (simp only: power_strict_increasing_iff)
  then have ln: "?ln \<le> 20" by simp
  define e0 where "e0 = 28 + ?ld - ?ln"
  have e0: "?ln - 1 + e0 = 27 + ?ld" using ln by (cases "nat_text n") (auto simp: e0_def)
  have "10 ^ (27 + ?ld) \<le> n * 10 ^ e0"
    using nat_text_bounds [of n] assms(1) unfolding e0 [symmetric] power_add by simp
  moreover have "10 ^ 27 * d \<le> 10 ^ 27 * 10 ^ ?ld"
    using nat_text_bounds [of d] by (intro mult_le_mono2) simp
  ultimately have big: "10 ^ 27 * d \<le> n * 10 ^ e0" by (simp only: power_add)
  have e: "e = (if 10 ^ 28 \<le> n * 10 ^ e0 div d then e0 - 1 else e0)" "c = half_even_div (n * 10 ^ e) d"
    using assms(4) by (auto simp: div_prec28_def Let_def e0_def)
  show "c = half_even_div (n * 10 ^ e) d" by (rule e(2))
  show "10 ^ 27 * d \<le> n * 10 ^ e"
  proof (cases "10 ^ 28 \<le> n * 10 ^ e0 div d")
    case True
    have "e0 = Suc (e0 - 1)" using ln by (simp add: e0_def)
    then have "n * 10 ^ e0 = 10 * (n * 10 ^ (e0 - 1))" by (metis mult.left_commute power_Suc)
    moreover have "10 ^ 28 * d \<le> n * 10 ^ e0"
      using True assms(2) by (simp only: less_eq_div_iff_mult_less_eq)
    moreover have "(10::nat) ^ 28 = 10 * 10 ^ 27" by simp
    ultimately have "10 * (10 ^ 27 * d) \<le> 10 * (n * 10 ^ (e0 - 1))" by (simp only: mult.assoc)
    with True show ?thesis unfolding e(1) by simp
  qed (use big e(1) in simp)
qed

text \<open>
  The error of the quotient, at most half a unit of its last place, is too small to move a
  value with denominator \<open>d\<close> across a rounding boundary; on a boundary the quotient is exact.
\<close>

lemma no_double_rounding:
  fixes n d c p :: nat
  assumes c: "2 * (n * p) \<le> 2 * c * d + d" "2 * c * d \<le> 2 * (n * p) + d"
    and exact: "d dvd n * p \<Longrightarrow> c * d = n * p" and tens: "10000 dvd p" and p: "1000 * d < p" and "0 < d"
  shows "half_up_div (1000 * c) p = half_up_div (1000 * n) d"
proof -
  define k where "k = half_up_div (1000 * n) d"
  have k: "k * (2 * d) \<le> 2000 * n + d" "2000 * n + d + 1 \<le> (k + 1) * (2 * d)"
  proof -
    have k': "k = (2000 * n + d) div (2 * d)" by (simp add: k_def half_up_div_def)
    have "2000 * n + d < 2 * d + k * (2 * d)" unfolding k' by (rule dividend_less_div_times) (use \<open>0 < d\<close> in simp)
    then show "2000 * n + d + 1 \<le> (k + 1) * (2 * d)" by simp
    show "k * (2 * d) \<le> 2000 * n + d" unfolding k' by (rule div_times_less_eq_dividend)
  qed
  have "k * (2 * p) * d \<le> (2000 * c + p) * d"
  proof (cases "k * (2 * d) = 2000 * n + d")
    case False
    with k(1) have "k * (2 * d) + 1 \<le> 2000 * n + d" by simp
    from mult_le_mono1 [OF this, of p] have "k * (2 * d) * p + p \<le> 2000 * (n * p) + d * p"
      by (simp add: algebra_simps)
    with c(1) p show ?thesis by (simp add: algebra_simps)
  next
    case True
    obtain q where q: "p = 10000 * q" using tens by blast
    from True have "d * (2 * k) = 2000 * n + d" by (simp add: algebra_simps)
    then have "d * (2 * k) * (5 * q) = n * p + d * (5 * q)" by (simp add: q algebra_simps)
    then have "n * p = d * (2 * k * (5 * q)) - d * (5 * q)" by (simp add: algebra_simps)
    then have "n * p = d * (2 * k * (5 * q) - 5 * q)" by (simp only: right_diff_distrib')
    then have "c * d = n * p" by (intro exact) simp
    with True have "(2000 * c + p) * d = k * (2 * d) * p" by (simp add: algebra_simps)
    then show ?thesis by (simp add: algebra_simps)
  qed
  moreover have "(2000 * c + p) * d < (k + 1) * (2 * p) * d"
  proof -
    from mult_le_mono1 [OF k(2), of p] have "2000 * (n * p) + d * p + p \<le> (k + 1) * (2 * d) * p"
      by (simp add: algebra_simps)
    moreover have "(2000 * c + p) * d \<le> 2000 * (n * p) + 1000 * d + d * p"
      using c(2) by (simp add: algebra_simps)
    moreover have "(k + 1) * (2 * d) * p = (k + 1) * (2 * p) * d" by (simp add: algebra_simps)
    ultimately show ?thesis using p by linarith
  qed
  ultimately have "k * (2 * p) \<le> 2000 * c + p" "2000 * c + p < (k + 1) * (2 * p)"
    using \<open>0 < d\<close> by simp_all
  then have "half_up_div (1000 * c) p = k"
    unfolding half_up_div_def by (intro div_nat_eqI) (simp_all add: algebra_simps)
  then show ?thesis by (simp only: k_def)
qed

lemma half_up_div_less: "0 < b \<Longrightarrow> half_up_div a b < a + 2"
  unfolding half_up_div_def by (cases b) (simp_all add: div_less_iff_less_mult)

lemma div_prec28_rounds:
  assumes "0 < d" "n < 10 ^ 20" "div_prec28 n d = (c, e)"
  shows "half_up_div (1000 * c) (10 ^ e) = half_up_div (1000 * n) d"
proof (cases "n = 0")
  case True
  with assms have "c = 0" by (auto simp: div_prec28_def half_even_div_def Let_def)
  with True assms(1) show ?thesis by (simp add: half_up_div_def)
next
  case False
  then have "0 < n" by simp
  note ce = div_prec28_scaled [OF this assms(1,2,3)]
  have "n * 10 ^ e < 10 ^ 20 * 10 ^ e" by (rule mult_less_mono1 [OF assms(2)]) simp
  with ce(2) have "10 ^ 27 * d < 10 ^ 20 * 10 ^ e" by (rule le_less_trans)
  then have pd: "10 ^ 7 * d < 10 ^ e" by simp
  then have "(10::nat) ^ 7 < 10 ^ e" using assms(1) by (cases d) auto
  then have "7 < e" by (simp only: power_strict_increasing_iff)
  then have "(10::nat) ^ 4 dvd 10 ^ e" by (intro le_imp_power_dvd) simp
  then have tens: "10000 dvd (10::nat) ^ e" by simp
  show ?thesis
    by (rule no_double_rounding [OF _ _ _ tens _ assms(1)])
      (use half_even_div_close [OF assms(1), of "n * 10 ^ e"] half_even_div_exact [OF _ assms(1), of "n * 10 ^ e"]
         pd ce(1) in \<open>simp_all add: algebra_simps\<close>)
qed

lemma delta_pct_rounds:
  assumes "a \<noteq> 0" "\<bar>d\<bar> < 10 ^ 20"
  shows "format_delta_pct (Some d) (Some a) =
    decimal_text (Finite ((d < 0) \<noteq> (a < 0)) (half_up_div (1000 * nat \<bar>d\<bar>) (nat \<bar>a\<bar>)) (- 1))"
proof -
  obtain c e where ce: "div_prec28 (nat \<bar>d\<bar>) (nat \<bar>a\<bar>) = (c, e)" by fastforce
  have a: "0 < nat \<bar>a\<bar>" and d: "nat \<bar>d\<bar> < 10 ^ 20" using assms by auto
  show ?thesis
    using assms(1) by (simp only: format_delta_pct_def prod.case option.case ce if_False div_prec28_rounds [OF a d ce])
qed

section \<open>What a cell of the report shows\<close>

text \<open>
  The specification: direct lookups of the line of the newest version, and of the actual.
\<close>

definition cell_budget :: "uuid \<Rightarrow> db \<Rightarrow> uuid \<Rightarrow> uuid \<Rightarrow> cents option" where
  "cell_budget cid d i j = (case budget_get_latest cid i d of
      None \<Rightarrow> None
    | Some up \<Rightarrow> map_option bl_amount
        (find (\<lambda>l. (bl_upload_id l, bl_account_code_id l) = (bu_id up, j)) (budget_lines d)))"

definition cell_import :: "uuid \<Rightarrow> import_upload list \<Rightarrow> import_line list \<Rightarrow> uuid \<Rightarrow> uuid \<Rightarrow> cents option" where
  "cell_import cid ups ls i j = (case import_latest cid ups of
      None \<Rightarrow> None
    | Some up \<Rightarrow> map_option il_amount
        (find (\<lambda>l. (il_upload_id l, il_org_unit_id l, il_account_code_id l) = (iu_id up, i, j)) ls))"

definition cell_actual :: "uuid \<Rightarrow> db \<Rightarrow> uuid \<Rightarrow> uuid \<Rightarrow> cents option" where
  "cell_actual cid d i j = map_option ae_amount
     (find (\<lambda>a. (ae_cycle_id a, ae_org_unit_id a, ae_account_code_id a) = (cid, i, j)) (actual_expenses d))"

lemma fetch_actuals_lookup:
  assumes "actuals_ok (actual_expenses d)"
  shows "map_of (fetch_actuals cid d) (i, j) = cell_actual cid d i j"
proof -
  let ?key = "\<lambda>a. (ae_org_unit_id a, ae_account_code_id a)"
  let ?rows = "filter (\<lambda>a. ae_cycle_id a = cid) (actual_expenses d)"
  note one = filter_key_distinct [OF assms [unfolded actuals_ok_def]]
  have f: "filter (\<lambda>a. ?key a = (i, j)) ?rows =
      filter (\<lambda>a. (ae_cycle_id a, ae_org_unit_id a, ae_account_code_id a) = (cid, i, j)) (actual_expenses d)"
    unfolding filter_filter by (rule filter_cong) auto
  show ?thesis
    unfolding fetch_actuals_def map_of_sum_by mem_filter_image [of _ ?key] total_def f one cell_actual_def
    by (auto split: option.splits)
qed

text \<open>The four amounts of a cell, as the report reads them.\<close>

lemma cells:
  assumes "db_ok d"
  shows "map_of (budget_latest_by_cycle cid d) (i, j) = cell_budget cid d i j"
    and "map_of (personnel_latest_by_cycle cid d) (i, j) = cell_import cid (personnel_uploads d) (personnel_lines d) i j"
    and "map_of (shared_latest_by_cycle cid d) (i, j) = cell_import cid (shared_uploads d) (shared_lines d) i j"
    and "map_of (fetch_actuals cid d) (i, j) = cell_actual cid d i j"
  using assms
  by (simp_all add: budget_lookup cell_budget_def personnel_latest_by_cycle_def shared_latest_by_cycle_def
      import_amounts_lookup cell_import_def fetch_actuals_lookup db_ok_def)

section \<open>Joining\<close>

lemma by_id_Some:
  assumes "distinct (map key rs)"
  shows "by_id key rs i = Some r \<longleftrightarrow> r \<in> set rs \<and> key r = i"
proof -
  have "distinct (map fst (rev (map (\<lambda>r. (key r, r)) rs)))" using assms by (simp add: rev_map [symmetric] comp_def)
  then have "by_id key rs i = Some r \<longleftrightarrow> (i, r) \<in> set (rev (map (\<lambda>r. (key r, r)) rs))"
    unfolding by_id_def by (rule map_of_eq_Some_iff)
  then show ?thesis by auto
qed

text \<open>Of the results of a partial function on distinct keys, those that only one key can give.\<close>

lemma map_filter_one:
  assumes "distinct ks" "\<And>k r. k \<in> set ks \<Longrightarrow> f k = Some r \<Longrightarrow> P r \<Longrightarrow> k = k0"
  shows "filter P (List.map_filter f ks) =
    (if k0 \<in> set ks then case f k0 of Some r \<Rightarrow> if P r then [r] else [] | None \<Rightarrow> [] else [])"
  using assms
proof (induction ks)
  case (Cons k ks)
  have IH: "filter P (List.map_filter f ks) =
      (if k0 \<in> set ks then case f k0 of Some r \<Rightarrow> if P r then [r] else [] | None \<Rightarrow> [] else [])"
    using Cons.prems by (intro Cons.IH) auto
  show ?case
  proof (cases "k = k0")
    case True
    with Cons.prems(1) IH have "filter P (List.map_filter f ks) = []" by simp
    with True show ?thesis by (simp add: List.map_filter_simps split: option.splits)
  next
    case False
    with Cons.prems(2) [of k] IH show ?thesis by (auto simp: List.map_filter_simps split: option.splits)
  qed
qed (simp add: List.map_filter_simps)

lemma fetch_org_units_iff: "w \<in> set (fetch_org_units sc d) \<longleftrightarrow> w \<in> set (org_units d) \<and> unit_in_scope (ou_id w) sc"
  by (auto simp: fetch_org_units_def unit_in_scope_def)

lemma distinct_fetch:
  "distinct (map ou_id (org_units d)) \<Longrightarrow> distinct (map ou_id (fetch_org_units sc d))"
  "distinct (map ac_id (account_codes d)) \<Longrightarrow> distinct (map ac_id (fetch_accounts ids d))"
  by (simp_all add: fetch_org_units_def fetch_accounts_def distinct_map_filter)

text \<open>A joined row is that of one unit and one account of the tables, in scope.\<close>

definition join_row :: "uuid \<Rightarrow> report_scope \<Rightarrow> db \<Rightarrow> uuid set \<Rightarrow> uuid \<times> uuid \<Rightarrow> report_row option" where
  "join_row cid sc d ids = (\<lambda>(i, j).
     case (by_id ou_id (fetch_org_units sc d) i, by_id ac_id (fetch_accounts ids d) j) of
       (Some w, Some a) \<Rightarrow>
         if unit_in_scope (ou_id w) sc then Some (build_row w a (budget_latest_by_cycle cid d)
           (personnel_latest_by_cycle cid d) (shared_latest_by_cycle cid d) (fetch_actuals cid d)) else None
     | _ \<Rightarrow> None)"

lemma join_row_Some:
  assumes "db_ok d"
  shows "join_row cid sc d ids (i, j) = Some r \<longleftrightarrow> (\<exists>w a. w \<in> set (org_units d) \<and> ou_id w = i
    \<and> a \<in> set (account_codes d) \<and> ac_id a = j \<and> j \<in> ids \<and> unit_in_scope i sc
    \<and> r = build_row w a (budget_latest_by_cycle cid d) (personnel_latest_by_cycle cid d)
            (shared_latest_by_cycle cid d) (fetch_actuals cid d))"
proof -
  have "distinct (map ou_id (org_units d))" "distinct (map ac_id (account_codes d))"
    using assms by (simp_all add: db_ok_def org_units_ok_def accounts_ok_def)
  note ids_iff = by_id_Some [OF distinct_fetch(1) [OF this(1)]] by_id_Some [OF distinct_fetch(2) [OF this(2)]]
  have "join_row cid sc d ids (i, j) = Some r \<longleftrightarrow> (\<exists>w a. by_id ou_id (fetch_org_units sc d) i = Some w
      \<and> by_id ac_id (fetch_accounts ids d) j = Some a \<and> unit_in_scope (ou_id w) sc
      \<and> r = build_row w a (budget_latest_by_cycle cid d) (personnel_latest_by_cycle cid d)
            (shared_latest_by_cycle cid d) (fetch_actuals cid d))"
    by (auto simp: join_row_def split: option.splits)
  then show ?thesis unfolding ids_iff fetch_org_units_iff by (auto simp: fetch_accounts_def)
qed

text \<open>The keys of the report: the pairs with an amount.\<close>

definition report_keys :: "uuid \<Rightarrow> db \<Rightarrow> (uuid \<times> uuid) list" where
  "report_keys cid d = map fst (budget_latest_by_cycle cid d) @ map fst (personnel_latest_by_cycle cid d)
     @ map fst (shared_latest_by_cycle cid d) @ map fst (fetch_actuals cid d)"

lemma in_report_keys:
  assumes "db_ok d"
  shows "(i, j) \<in> set (report_keys cid d) \<longleftrightarrow> cell_budget cid d i j \<noteq> None
    \<or> cell_import cid (personnel_uploads d) (personnel_lines d) i j \<noteq> None
    \<or> cell_import cid (shared_uploads d) (shared_lines d) i j \<noteq> None \<or> cell_actual cid d i j \<noteq> None"
  unfolding cells [OF assms, symmetric] report_keys_def set_append Un_iff set_map
  by (simp only: map_of_eq_None_iff) blast

lemma report_rows_split: "rep_rows (report_build cid sc d) =
    List.map_filter (join_row cid sc d (snd ` set (report_keys cid d))) (sort (remdups (report_keys cid d)))
    @ map placeholder_row (filter (\<lambda>w. ou_id w \<notin> fst ` fst ` set (budget_latest_by_cycle cid d)
        \<and> unit_in_scope (ou_id w) sc) (fetch_org_units sc d))"
  by (simp only: report_build_def Let_def join_row_def report_keys_def report.simps)

text \<open>What a row must say, from the lookups.\<close>

lemma build_row_cells:
  assumes "db_ok d"
  shows "build_row w a (budget_latest_by_cycle cid d) (personnel_latest_by_cycle cid d)
      (shared_latest_by_cycle cid d) (fetch_actuals cid d) =
    (let b = cell_budget cid d (ou_id w) (ac_id a);
         x = cell_actual cid d (ou_id w) (ac_id a);
         top = level_code w \<in> set AGGREGATE_LEVELS;
         delta = (case (b, x) of (Some b, Some x) \<Rightarrow> Some (b - x) | _ \<Rightarrow> None)
     in \<lparr>row_unit_id = ou_id w, row_unit_name = ou_name w, row_account_code = ac_code a,
         row_account_name = ac_name a, row_actual = x, operational_budget = b,
         personnel_budget = (if top then cell_import cid (personnel_uploads d) (personnel_lines d) (ou_id w) (ac_id a) else None),
         shared_cost_amount = (if top then cell_import cid (shared_uploads d) (shared_lines d) (ou_id w) (ac_id a) else None),
         delta_amount = delta, delta_pct = format_delta_pct delta x,
         budget_status = (if b = None then not_uploaded else uploaded)\<rparr>)"
  unfolding build_row_def cells [OF assms] Let_def ..

section \<open>Sample\<close>

definition report_db :: db where
  "report_db = versions_db\<lparr>actual_expenses := [\<lparr>ae_id = 90, ae_cycle_id = 7, ae_org_unit_id = 2,
     ae_account_code_id = 50, ae_amount = 1000, imported_at = 0, imported_by = 51\<rparr>]\<rparr>"

lemma report_db_ok: "db_ok report_db"
  using versions_db_ok by (simp add: db_ok_def report_db_def actuals_ok_def)

text \<open>The rows under one account: none, or the one of the key.\<close>

lemma report_cell_rows:
  assumes "db_ok d" "w \<in> set (org_units d)" "a \<in> set (account_codes d)" "ac_code a \<noteq> []"
  shows "filter (\<lambda>r. row_unit_id r = ou_id w \<and> row_account_code r = ac_code a) (rep_rows (report_build cid sc d)) =
    (if unit_in_scope (ou_id w) sc \<and> (ou_id w, ac_id a) \<in> set (report_keys cid d)
     then [build_row w a (budget_latest_by_cycle cid d) (personnel_latest_by_cycle cid d)
            (shared_latest_by_cycle cid d) (fetch_actuals cid d)] else [])"
proof -
  let ?P = "\<lambda>r. row_unit_id r = ou_id w \<and> row_account_code r = ac_code a"
  let ?f = "join_row cid sc d (snd ` set (report_keys cid d))"
  let ?ks = "sort (remdups (report_keys cid d))"
  have ids: "distinct (map ou_id (org_units d))" "distinct (map ac_code (account_codes d))" "distinct (map ac_id (account_codes d))"
    using assms(1) by (simp_all add: db_ok_def org_units_ok_def accounts_ok_def)
  have "filter ?P (map placeholder_row ws) = []" for ws
    using assms(4) by (simp add: filter_empty_conv placeholder_row_def)
  then have "filter ?P (rep_rows (report_build cid sc d)) = filter ?P (List.map_filter ?f ?ks)"
    by (simp add: report_rows_split)
  also have "\<dots> = (if (ou_id w, ac_id a) \<in> set ?ks
      then case ?f (ou_id w, ac_id a) of Some r \<Rightarrow> if ?P r then [r] else [] | None \<Rightarrow> [] else [])"
  proof (rule map_filter_one)
    fix k r
    assume "?f k = Some r" and P: "?P r"
    then obtain i j w' a' where k: "k = (i, j)" and r: "ou_id w' = i" "a' \<in> set (account_codes d)" "ac_id a' = j"
      "r = build_row w' a' (budget_latest_by_cycle cid d) (personnel_latest_by_cycle cid d)
          (shared_latest_by_cycle cid d) (fetch_actuals cid d)"
      by (cases k) (auto simp: join_row_Some [OF assms(1)])
    from P r(4) have "ou_id w' = ou_id w" "ac_code a' = ac_code a" by (simp_all add: build_row_def Let_def)
    with r ids(2) assms(3) have "a' = a" by (metis distinct_map_eq)
    with r k \<open>ou_id w' = ou_id w\<close> show "k = (ou_id w, ac_id a)" by simp
  qed simp
  also have "\<dots> = (if unit_in_scope (ou_id w) sc \<and> (ou_id w, ac_id a) \<in> set (report_keys cid d)
     then [build_row w a (budget_latest_by_cycle cid d) (personnel_latest_by_cycle cid d)
            (shared_latest_by_cycle cid d) (fetch_actuals cid d)] else [])"
  proof (cases "(ou_id w, ac_id a) \<in> set (report_keys cid d)")
    case True
    then have key: "ac_id a \<in> snd ` set (report_keys cid d)" by force
    show ?thesis
    proof (cases "unit_in_scope (ou_id w) sc")
      case True
      then have "?f (ou_id w, ac_id a) = Some (build_row w a (budget_latest_by_cycle cid d)
          (personnel_latest_by_cycle cid d) (shared_latest_by_cycle cid d) (fetch_actuals cid d))"
        unfolding join_row_Some [OF assms(1)] using assms(2,3) key by blast
      with True \<open>(ou_id w, ac_id a) \<in> set (report_keys cid d)\<close> show ?thesis
        by (simp add: build_row_def Let_def)
    next
      case False
      then have "?f (ou_id w, ac_id a) = None"
        using join_row_Some [OF assms(1)] by (metis not_None_eq)
      with False show ?thesis by simp
    qed
  qed simp
  finally show ?thesis .
qed

section \<open>Properties\<close>

text \<open>
  Claim C19: the percentage of a report row is exact. Python divides in 28 digits, multiplies and
  then quantizes, rounding twice; for amounts below \<open>10^18\<close> (the columns hold 16 digits
  before the point) the text is that of the true quotient in percent, rounded once, half
  away from zero, to one decimal, with the sign of the quotient. The result is far from the
  28 digits at which quantizing would raise.
\<close>

theorem delta_pct_exact:
  assumes "a \<noteq> 0" "\<bar>d\<bar> < 10 ^ 20"
  shows "format_delta_pct (Some d) (Some a) =
      decimal_text (Finite ((d < 0) \<noteq> (a < 0)) (half_up_div (1000 * nat \<bar>d\<bar>) (nat \<bar>a\<bar>)) (- 1))
    \<and> half_up_div (1000 * nat \<bar>d\<bar>) (nat \<bar>a\<bar>) < 10 ^ 28"
proof
  have a: "0 < nat \<bar>a\<bar>" and d: "nat \<bar>d\<bar> < 10 ^ 20" using assms by auto
  show "format_delta_pct (Some d) (Some a) =
      decimal_text (Finite ((d < 0) \<noteq> (a < 0)) (half_up_div (1000 * nat \<bar>d\<bar>) (nat \<bar>a\<bar>)) (- 1))"
    using assms by (rule delta_pct_rounds)
  have "half_up_div (1000 * nat \<bar>d\<bar>) (nat \<bar>a\<bar>) < 1000 * nat \<bar>d\<bar> + 2" using a by (rule half_up_div_less)
  also have "\<dots> \<le> 1000 * 10 ^ 20 + 2" using d by simp
  also have "\<dots> < 10 ^ 28" by simp
  finally show "half_up_div (1000 * nat \<bar>d\<bar>) (nat \<bar>a\<bar>) < 10 ^ 28" .
qed

lemma delta_pct_exact_witness:
  "format_delta_pct (Some (- 10000)) (Some 110000) = str ''-9.1''"
proof -
  have "format_delta_pct (Some (- 10000)) (Some 110000) =
      decimal_text (Finite True (half_up_div (1000 * 10000) 110000) (- 1))"
    using delta_pct_exact [of 110000 "- 10000"] by simp
  then show ?thesis by (simp add: half_up_div_def decimal_text_def nat_text.simps Let_def)
qed



text \<open>
  Claim C20: who sees what of the report. The route refuses users without one of its four roles.
  Otherwise every row is of a unit of the table that lies in the user's scope, under its
  name; and every unit in scope for which no budget is recorded has a row that says so.
\<close>

theorem consolidated_report_scoped:
  assumes "db_ok (com s)"
  shows "case fst (get_consolidated_report cid u s) of
      Inl e \<Rightarrow> set (role_set u) \<inter> {SystemAdmin, FinanceAdmin, UplineReviewer, CompanyReviewer} = {}
        \<and> e = app_err ForbiddenError ''RBAC_001''
    | Inr R \<Rightarrow> rep_cycle_id R = cid
        \<and> (\<forall>r \<in> set (rep_rows R). in_scope (scoped_org_units u (com s)) (row_unit_id r)
            \<and> (\<exists>w \<in> set (org_units (com s)). ou_id w = row_unit_id r \<and> ou_name w = row_unit_name r))
        \<and> (\<forall>w \<in> set (org_units (com s)). in_scope (scoped_org_units u (com s)) (ou_id w)
            \<and> (\<forall>j. cell_budget cid (com s) (ou_id w) j = None) \<longrightarrow>
              (\<exists>r \<in> set (rep_rows R). row_unit_id r = ou_id w \<and> budget_status r = not_uploaded))"
proof (cases "set (role_set u) \<inter> set [SystemAdmin, FinanceAdmin, UplineReviewer, CompanyReviewer] = {}")
  case True
  then show ?thesis by (simp add: get_consolidated_report_def role_session)
next
  case False
  let ?sc = "resolve_scope u (com s)" and ?R = "report_build cid (resolve_scope u (com s)) (com s)"
  from False have run: "fst (get_consolidated_report cid u s) = Inr ?R"
    unfolding get_consolidated_report_def role_session if_not_P [OF False]
    by (simp add: fst_get_session act_simps)
  have scope: "unit_in_scope i ?sc \<longleftrightarrow> in_scope (scoped_org_units u (com s)) i" for i
    by (simp add: unit_in_scope_def resolve_scope_def split: scope.splits)
  have joined: "unit_in_scope (row_unit_id r) ?sc \<and> (\<exists>w \<in> set (org_units (com s)). ou_id w = row_unit_id r \<and> ou_name w = row_unit_name r)"
    if "join_row cid ?sc (com s) ids k = Some r" for ids k r
    using that by (cases k) (auto simp: join_row_Some [OF assms] build_row_def Let_def)
  have "unit_in_scope (row_unit_id r) ?sc \<and> (\<exists>w \<in> set (org_units (com s)). ou_id w = row_unit_id r \<and> ou_name w = row_unit_name r)"
    if "r \<in> set (rep_rows ?R)" for r
    using that unfolding report_rows_split
    by (auto simp: set_map_filter placeholder_row_def fetch_org_units_iff dest!: joined)
  moreover have "\<exists>r \<in> set (rep_rows ?R). row_unit_id r = ou_id w \<and> budget_status r = not_uploaded"
    if w: "w \<in> set (org_units (com s))" "in_scope (scoped_org_units u (com s)) (ou_id w)"
      and none: "\<And>j. cell_budget cid (com s) (ou_id w) j = None" for w
  proof -
    have "(ou_id w, j) \<notin> fst ` set (budget_latest_by_cycle cid (com s))" for j
      using none [of j] unfolding cells(1) [OF assms, symmetric] map_of_eq_None_iff .
    then have "ou_id w \<notin> fst ` fst ` set (budget_latest_by_cycle cid (com s))" by force
    with w have "placeholder_row w \<in> set (rep_rows ?R)"
      by (simp add: report_rows_split fetch_org_units_iff scope)
    then show ?thesis by (intro bexI [of _ "placeholder_row w"]) (simp_all add: placeholder_row_def)
  qed
  moreover have "rep_cycle_id ?R = cid" by (simp add: report_build_def Let_def)
  ultimately show ?thesis unfolding run sum.case scope by blast
qed

lemma consolidated_report_scoped_witness:
  "\<exists>R. fst (get_consolidated_report 7 admin0 (session_of report_db)) = Inr R
     \<and> (\<exists>r \<in> set (rep_rows R). row_unit_id r = 1 \<and> budget_status r = not_uploaded)"
proof -
  have "unit0 \<in> set (org_units report_db)" "ou_id unit0 = 1"
    by (simp_all add: report_db_def versions_db_def accounts_db_def org_db_def unit0_def)
  moreover have "cell_budget 7 report_db 1 j = None" for j
    by (simp add: cell_budget_def report_db_def versions_db_def upload0_def budget_get_latest_def latest_version_def)
  ultimately show ?thesis
    using consolidated_report_scoped [where s = "session_of report_db" and cid = 7 and u = admin0] report_db_ok
    by (auto simp: scoped_org_units_def global_roles_def split: sum.splits) metis
qed

end
