(* ===== verification/Report_Files.thy ===== *)
theory Report_Files
  imports Reports
begin

text \<open>
  \<^verbatim>\<open>domain/consolidation/renderers.py\<close>: the consolidated report as a CSV file, with the
  standard library's \<open>csv.writer\<close>, or as a workbook. The claim is that the CSV file reads back,
  through the backend's own CSV reader, as the rows that were written.
\<close>

section \<open>The cells\<close>

definition COLUMNS :: "pystr list" where
  "COLUMNS = [str ''org_unit_id'', str ''org_unit_name'', str ''account_code'', str ''account_name'',
     str ''actual'', str ''operational_budget'', str ''personnel_budget'', str ''shared_cost'',
     str ''delta_amount'', str ''delta_pct'', str ''budget_status'']"

definition uuid_text :: "uuid \<Rightarrow> pystr" where
  "uuid_text u = (let h = hex32 u in take 8 h @ [45] @ take 4 (drop 8 h) @ [45] @ take 4 (drop 12 h) @ [45]
     @ take 4 (drop 16 h) @ [45] @ drop 20 h)"

definition optional_cents :: "cents option \<Rightarrow> pystr" where
  "optional_cents a = (case a of None \<Rightarrow> [] | Some c \<Rightarrow> cents_text c)"

definition status_text :: "budget_status \<Rightarrow> pystr" where
  "status_text b = (case b of uploaded \<Rightarrow> str ''uploaded'' | not_uploaded \<Rightarrow> str ''not_uploaded'')"

text \<open>\<open>_row_value\<close> for every column, in the order of \<open>_COLUMNS\<close>.\<close>

definition row_values :: "report_row \<Rightarrow> pystr list" where
  "row_values r = [uuid_text (row_unit_id r), row_unit_name r, row_account_code r, row_account_name r,
     optional_cents (row_actual r), optional_cents (operational_budget r), optional_cents (personnel_budget r),
     optional_cents (shared_cost_amount r), optional_cents (delta_amount r), delta_pct r,
     status_text (budget_status r)]"

section \<open>The CSV writer\<close>

text \<open>
  \<open>csv.writer\<close> in the default dialect: a field is quoted only when it holds a comma, a quote or
  a line break, its quotes doubled; a record that is a single empty field is quoted.
\<close>

definition csv_special :: "nat \<Rightarrow> bool" where
  "csv_special c \<longleftrightarrow> c = 44 \<or> c = 34 \<or> c = 10 \<or> c = 13"

fun double_quotes :: "pystr \<Rightarrow> pystr" where
  "double_quotes [] = []"
| "double_quotes (c # cs) = (if c = 34 then 34 # 34 # double_quotes cs else c # double_quotes cs)"

definition csv_field :: "pystr \<Rightarrow> pystr" where
  "csv_field s = (if list_ex csv_special s then [34] @ double_quotes s @ [34] else s)"

fun csv_join :: "pystr list \<Rightarrow> pystr" where
  "csv_join [] = []"
| "csv_join [s] = csv_field s"
| "csv_join (s # t # ss) = csv_field s @ [44] @ csv_join (t # ss)"

definition csv_writerow :: "pystr list \<Rightarrow> pystr" where
  "csv_writerow vs = (if vs = [[]] then [34, 34] else csv_join vs) @ [13, 10]"

definition render_csv :: "report \<Rightarrow> pystr \<times> bytes" where
  "render_csv R = (str ''consolidated_'' @ uuid_text (rep_cycle_id R) @ str ''.csv'',
     utf8_encode (concat (map csv_writerow (COLUMNS # map row_values (rep_rows R)))))"

definition render_xlsx :: "env \<Rightarrow> report \<Rightarrow> pystr \<times> bytes" where
  "render_xlsx E R = (str ''consolidated_'' @ uuid_text (rep_cycle_id R) @ str ''.xlsx'',
     save_workbook E \<lparr>sheets = [(str ''consolidated'', map (map Cell_Str) (COLUMNS # map row_values (rep_rows R)))],
       active_sheet = Some (str ''consolidated'')\<rparr>)"

datatype export_format = Xlsx | Csv

definition render_report :: "env \<Rightarrow> report \<Rightarrow> export_format \<Rightarrow> pystr \<times> bytes" where
  "render_report E R f = (case f of Csv \<Rightarrow> render_csv R | Xlsx \<Rightarrow> render_xlsx E R)"

section \<open>Reading what was written\<close>

text \<open>The reader on a text, from any state in the middle of a line.\<close>

abbreviation reads :: "pystr \<Rightarrow> csv_config \<Rightarrow> pystr list list option" where
  "reads s k \<equiv> csv_records (split_lines s) k"

lemma split_lines_Nil: "split_lines s = [] \<longleftrightarrow> s = []"
  by (cases s) (auto split: list.splits)

lemma reads_char:
  "c \<noteq> 10 \<Longrightarrow> s \<noteq> [] \<Longrightarrow> reads (c # s) k = (case csv_char c k of None \<Rightarrow> None | Some k' \<Rightarrow> reads s k')"
  using split_lines_Nil [of s] by (cases "split_lines s") (auto split: option.splits)

lemma reads_line_feed:
  "reads (10 # s) k = (case csv_char 10 k of None \<Rightarrow> None | Some k' \<Rightarrow>
     (case csv_eol k' of (st, f, fs) \<Rightarrow>
        if st = Start_record then map_option (Cons fs) (reads s (Start_record, [], [])) else reads s (st, f, fs)))"
  by (auto split: option.splits)

lemma reads_quoted:
  "length fld + length s \<le> 131072 \<Longrightarrow> t \<noteq> [] \<Longrightarrow>
    reads (double_quotes s @ t) (In_quoted, fld, flds) = reads t (In_quoted, fld @ s, flds)"
proof (induction s arbitrary: fld)
  case (Cons c s)
  have rest: "double_quotes s @ t \<noteq> []" using Cons.prems by simp
  have IH: "reads (double_quotes s @ t) (In_quoted, fld @ [c], flds) = reads t (In_quoted, fld @ c # s, flds)"
    using Cons.IH [of "fld @ [c]"] Cons.prems by simp
  consider "c = 34" | "c = 10" | "c \<noteq> 34" "c \<noteq> 10" by blast
  then show ?case
  proof cases
    case 3
    then show ?thesis using Cons.prems IH rest by (simp add: reads_char add_char_def del: split_lines.simps)
  qed (use Cons.prems IH rest in \<open>simp_all add: reads_char reads_line_feed add_char_def del: split_lines.simps\<close>)
qed simp

lemma reads_plain:
  "\<not> list_ex csv_special s \<Longrightarrow> length fld + length s \<le> 131072 \<Longrightarrow> t \<noteq> [] \<Longrightarrow>
    reads (s @ t) (In_field, fld, flds) = reads t (In_field, fld @ s, flds)"
proof (induction s arbitrary: fld)
  case (Cons c s)
  then show ?case
    using Cons.IH [of "fld @ [c]"]
    by (simp add: reads_char csv_special_def is_newline_def add_char_def del: split_lines.simps)
qed simp

text \<open>A field, up to the comma or the end of the record.\<close>

lemma reads_field:
  assumes "st = Start_record \<or> st = Start_field" "length s \<le> 131072" "t \<noteq> []"
  obtains st' where "reads (csv_field s @ t) (st, [], flds) = reads t (st', s, flds)"
    and "st' = Quote_in_quoted \<or> st' = In_field \<or> (st' = st \<and> s = [])"
proof (cases "list_ex csv_special s")
  case True
  have "reads (csv_field s @ t) (st, [], flds) = reads (double_quotes s @ 34 # t) (In_quoted, [], flds)"
    using True assms(1) by (auto simp: csv_field_def reads_char is_newline_def simp del: split_lines.simps)
  also have "\<dots> = reads (34 # t) (In_quoted, s, flds)" using reads_quoted [of "[]" s "34 # t" flds] assms(2) by simp
  also have "\<dots> = reads t (Quote_in_quoted, s, flds)" using assms(3) by (simp add: reads_char del: split_lines.simps)
  finally show ?thesis using that by blast
next
  case False
  show ?thesis
  proof (cases s)
    case (Cons c cs)
    with False have c: "c \<noteq> 10" "\<not> is_newline c" "c \<noteq> 34" "c \<noteq> 44" and cs: "\<not> list_ex csv_special cs"
      by (auto simp: csv_special_def is_newline_def)
    have "reads (csv_field s @ t) (st, [], flds) = reads (cs @ t) (In_field, [c], flds)"
      using False assms(1,3) c Cons by (auto simp: csv_field_def reads_char add_char_def simp del: split_lines.simps)
    also have "\<dots> = reads t (In_field, s, flds)"
      using reads_plain [OF cs, of "[c]" t flds] assms(2,3) Cons by simp
    finally show ?thesis using that by blast
  qed (use False that [of st] in \<open>simp add: csv_field_def\<close>)
qed

lemma reads_field_comma:
  assumes "st = Start_record \<or> st = Start_field" "length s \<le> 131072" "t \<noteq> []"
  shows "reads (csv_field s @ 44 # t) (st, [], flds) = reads t (Start_field, [], flds @ [s])"
proof -
  obtain st' where r: "reads (csv_field s @ 44 # t) (st, [], flds) = reads (44 # t) (st', s, flds)"
    and st': "st' = Quote_in_quoted \<or> st' = In_field \<or> (st' = st \<and> s = [])"
    by (rule reads_field [OF assms(1,2), of "44 # t" flds]) simp
  show ?thesis
    unfolding r using st' assms(1,3) by (auto simp: reads_char is_newline_def simp del: split_lines.simps)
qed

lemma reads_field_end:
  assumes "st = Start_record \<or> st = Start_field" "length s \<le> 131072" "st = Start_record \<longrightarrow> csv_field s \<noteq> []"
  shows "reads (csv_field s @ 13 # 10 # t) (st, [], flds) = map_option (Cons (flds @ [s])) (reads t (Start_record, [], []))"
proof -
  obtain st' where r: "reads (csv_field s @ 13 # 10 # t) (st, [], flds) = reads (13 # 10 # t) (st', s, flds)"
    and st': "st' = Quote_in_quoted \<or> st' = In_field \<or> (st' = st \<and> s = [])"
    by (rule reads_field [OF assms(1,2), of "13 # 10 # t" flds]) simp
  show ?thesis
    unfolding r using st' assms(1,3)
    by (auto simp: reads_char reads_line_feed is_newline_def csv_field_def simp del: split_lines.simps)
qed

lemma reads_join:
  assumes "list_all (\<lambda>s. length s \<le> 131072) ss" "ss \<noteq> []" "st = Start_field \<or> (st = Start_record \<and> csv_join ss \<noteq> [])"
  shows "reads (csv_join ss @ 13 # 10 # t) (st, [], flds) = map_option (Cons (flds @ ss)) (reads t (Start_record, [], []))"
  using assms
proof (induction ss arbitrary: st flds rule: csv_join.induct)
  case (2 s)
  then show ?case using reads_field_end [of st s t flds] by auto
next
  case (3 s s' ss)
  have "reads (csv_join (s # s' # ss) @ 13 # 10 # t) (st, [], flds)
      = reads (csv_join (s' # ss) @ 13 # 10 # t) (Start_field, [], flds @ [s])"
    using reads_field_comma [of st s "csv_join (s' # ss) @ 13 # 10 # t" flds] 3 by auto
  also have "\<dots> = map_option (Cons ((flds @ [s]) @ s' # ss)) (reads t (Start_record, [], []))"
    using 3 by simp
  finally show ?case by simp
qed simp

lemma reads_rows:
  assumes "list_all (\<lambda>r. list_all (\<lambda>s. length s \<le> 131072) r \<and> 2 \<le> length r) rs"
  shows "reads (concat (map csv_writerow rs)) (Start_record, [], []) = Some rs"
  using assms
proof (induction rs)
  case (Cons r rs)
  then obtain s s' ss where r: "r = s # s' # ss" by (cases r rule: csv_join.cases) auto
  have "reads (csv_join r @ 13 # 10 # concat (map csv_writerow rs)) (Start_record, [], []) = Some (r # rs)"
    using Cons r by (subst reads_join) auto
  moreover have "csv_writerow r = csv_join r @ [13, 10]" by (simp add: csv_writerow_def r)
  ultimately show ?case by simp
qed simp

lemma scalar_writerow:
  assumes "\<forall>s \<in> set rec. list_all scalar_value s"
  shows "list_all scalar_value (csv_writerow rec)"
proof -
  have "list_all scalar_value s \<Longrightarrow> list_all scalar_value (double_quotes s)" for s
    by (induction s) auto
  then have "list_all scalar_value s \<Longrightarrow> list_all scalar_value (csv_field s)" for s
    by (simp add: csv_field_def scalar_value_def)
  then have "\<forall>s \<in> set rec. list_all scalar_value s \<Longrightarrow> list_all scalar_value (csv_join rec)" for rec
    by (induction rec rule: csv_join.induct) (simp_all add: scalar_value_def)
  with assms show ?thesis by (simp add: csv_writerow_def scalar_value_def)
qed

text \<open>The dictionaries of \<open>DictReader\<close> for full records under distinct column names.\<close>

lemma update_fresh: "k \<notin> fst ` set d \<Longrightarrow> AList.update k v d = d @ [(k, v)]"
  by (induction d) auto

lemma dict_of_distinct: "distinct (map fst ps) \<Longrightarrow> dict_of ps = ps"
proof -
  have "distinct (map fst (d @ ps)) \<Longrightarrow> fold (\<lambda>(k, v) d. AList.update k v d) ps d = d @ ps" for d
  proof (induction ps arbitrary: d)
    case (Cons p ps)
    then show ?case by (cases p) (simp add: update_fresh)
  qed simp
  from this [of "[]"] show "distinct (map fst ps) \<Longrightarrow> dict_of ps = ps" by (simp add: dict_of_def)
qed

lemma csv_row_full:
  assumes "distinct header" "length rec = length header"
  shows "csv_row header rec = (zip header (map Some rec), False)"
  using assms by (simp add: csv_row_def dict_of_distinct)

lemma distinct_COLUMNS: "distinct COLUMNS"
  by (simp add: COLUMNS_def)

lemma length_row_values [simp]: "length (row_values r) = length COLUMNS"
  by (simp add: row_values_def COLUMNS_def)

lemma status_not_blank: "\<not> list_all (\<lambda>(k, v). blank v) (zip COLUMNS (map Some (row_values r)))"
proof -
  have "strip (status_text b) \<noteq> []" for b by (cases b) (simp_all add: status_text_def strip_def is_space_def)
  then show ?thesis by (simp add: COLUMNS_def row_values_def blank_def del: str_simps)
qed

lemma csv_dicts_rows: "csv_dicts (COLUMNS # map row_values rs) = map (\<lambda>r. zip COLUMNS (row_values r)) rs"
proof -
  have ne: "row_values r \<noteq> []" for r by (simp add: row_values_def)
  have "map (\<lambda>(k, v). (k, case v of None \<Rightarrow> [] | Some s \<Rightarrow> s)) (zip ks (map Some vs)) = zip ks vs"
    if "length ks = length vs" for ks vs :: "pystr list"
    using that by (induction ks vs rule: list_induct2) simp_all
  note some = this [of COLUMNS "row_values r" for r, OF length_row_values [symmetric]]
  have "map (csv_row COLUMNS) (filter (\<lambda>r. r \<noteq> []) (map row_values rs))
      = map (\<lambda>r. (zip COLUMNS (map Some (row_values r)), False)) rs"
    by (induction rs) (simp_all add: ne csv_row_full [OF distinct_COLUMNS])
  then show ?thesis
    by (simp add: csv_dicts_def) (induction rs, simp_all add: status_not_blank some)
qed

section \<open>Properties\<close>

text \<open>
  Claim C18: the exported CSV file reads back. Whatever the names hold (commas, quotes and line
  breaks included), reading the file with the backend's CSV reader gives one dictionary per
  row of the report, in order, with every column and the text that was written under it. The
  texts must be Unicode text of at most 131072 characters, the field limit of the reader.
\<close>

theorem csv_export_reads_back:
  assumes "\<forall>r \<in> set (rep_rows R). \<forall>s \<in> set (row_values r). list_all scalar_value s \<and> length s \<le> 131072"
  shows "parse_dicts (snd (render_report E R Csv)) = Inr (map (\<lambda>r. zip COLUMNS (row_values r)) (rep_rows R))"
proof -
  let ?recs = "COLUMNS # map row_values (rep_rows R)"
  let ?text = "concat (map csv_writerow ?recs)"
  have cols: "\<forall>s \<in> set COLUMNS. list_all scalar_value s \<and> length s \<le> 131072"
    by (simp add: COLUMNS_def scalar_value_def)
  have all: "\<forall>rec \<in> set ?recs. \<forall>s \<in> set rec. list_all scalar_value s \<and> length s \<le> 131072"
    using assms cols by simp
  have "list_all (\<lambda>r. list_all (\<lambda>s. length s \<le> 131072) r \<and> 2 \<le> length r) ?recs"
    using all by (auto simp: list_all_iff COLUMNS_def)
  from reads_rows [OF this] have reader: "csv_reader ?text = Some ?recs" by (simp only: csv_reader_def)
  have "list_all scalar_value ?text"
  proof -
    have "list_all scalar_value (csv_writerow rec)" if "\<forall>s \<in> set rec. list_all scalar_value s" for rec
      using that by (rule scalar_writerow)
    with all show ?thesis by (simp only: list_all_iff set_concat set_map) blast
  qed
  note decoded = utf8_round_trip [OF this]
  obtain rest where "?text = 111 # rest" by (simp add: COLUMNS_def csv_writerow_def csv_field_def csv_special_def)
  then have "dropWhile (\<lambda>b. b \<in> {239, 187, 191}) (utf8_encode ?text) = utf8_encode ?text"
    by (simp add: utf8_encode_def utf8_char_def)
  then show ?thesis
    by (simp only: render_report_def export_format.case render_csv_def snd_conv parse_dicts_def Let_def
        decoded reader option.case csv_dicts_rows)
qed

lemma csv_export_reads_back_witness:
  "\<exists>ds. parse_dicts (snd (render_report env0 \<lparr>rep_cycle_id = 7,
       rep_rows = [placeholder_row (unit1\<lparr>ou_name := [65, 44, 34, 10, 66]\<rparr>)], rep_currency = str ''TWD'',
       budget_updated = None, personnel_updated = None, shared_updated = None\<rparr> Csv)) = Inr [ds]
     \<and> map_of ds (str ''org_unit_name'') = Some [65, 44, 34, 10, 66]"
proof -
  have "scalar_value c" if "c < 128" for c using that by (simp add: scalar_value_def)
  moreover have "list_all (\<lambda>c. c < 128) (uuid_text 2)" "length (uuid_text 2) = 36"
    using hex32_chars [of _ 2] by (fastforce simp: uuid_text_def Let_def list_all_iff dest: in_set_takeD in_set_dropD)+
  ultimately have "list_all scalar_value (uuid_text 2) \<and> length (uuid_text 2) \<le> 131072"
    by (auto simp: list_all_iff)
  then show ?thesis
    by (subst csv_export_reads_back)
      (simp_all add: row_values_def placeholder_row_def unit1_def optional_cents_def status_text_def scalar_value_def COLUMNS_def)
qed

end
