(* ===== verification/Jobs.thy ===== *)
theory Jobs
  imports Audit_Log
begin

text \<open>
  \<^verbatim>\<open>infra/jobs\<close>: the durable queue in the table \<^verbatim>\<open>job_runs\<close>, and the worker that claims the oldest
  queued job in one transaction, runs its handler, and settles it in another. Handlers are
  functions of the payload that open sessions of their own; what the queue needs of them is
  the locale \<open>job_handlers\<close>. Several workers on one table are the step relation \<open>job_step\<close>.
\<close>

type_synonym handler = "json \<Rightarrow> json op"
type_synonym handler_table = "string \<Rightarrow> handler option"

section \<open>The queue\<close>

definition enqueue :: "handler_table \<Rightarrow> string \<Rightarrow> json \<Rightarrow> uuid option \<Rightarrow> uuid op" where
  "enqueue hs ty payload uid =
     sq (check (hs ty \<noteq> None) Value_error)
    (bnd new_uuid (\<lambda>i. bnd now_utc (\<lambda>now.
     sq (update (\<lambda>d. d\<lparr>job_runs := job_runs d @ [\<lparr>job_id = i, job_type = ty, job_run_status = job_queued,
       job_payload = payload, job_result = JNull, error_message = None, enqueued_by = uid, enqueued_at = now,
       started_at = None, finished_at = None, attempts = 0\<rparr>]\<rparr>))
    (sq (catch flush (\<lambda>_. raise (app_err InfraError ''SYS_001'')))
    (ret i)))))"

definition get_status :: "uuid \<Rightarrow> job_run op" where
  "get_status i = bnd (query (\<lambda>d. get_row job_id i (job_runs d))) (\<lambda>j.
     case j of None \<Rightarrow> raise (app_err NotFoundError ''UPLOAD_008'') | Some j \<Rightarrow> ret j)"

section \<open>The worker\<close>

record job_claim =
  cl_id :: uuid
  cl_type :: string
  cl_payload :: json
  cl_attempts :: int

definition next_job :: "db \<Rightarrow> job_run option" where
  "next_job d = first_row (order_asc enqueued_at (filter (\<lambda>j. job_run_status j = job_queued) (job_runs d)))"

definition claim_job :: "job_claim option op" where
  "claim_job = own_session (catch
    (bnd (query next_job) (\<lambda>row. case row of
       None \<Rightarrow> sq rollback (ret None)
     | Some j \<Rightarrow> bnd now_utc (\<lambda>now.
         sq (update (\<lambda>d. d\<lparr>job_runs := upd_row job_id (job_id j) (\<lambda>r. r\<lparr>job_run_status := job_running,
           started_at := Some now, attempts := attempts j + 1\<rparr>) (job_runs d)\<rparr>))
        (sq commit
        (ret (Some \<lparr>cl_id = job_id j, cl_type = job_type j, cl_payload = job_payload j, cl_attempts = attempts j\<rparr>))))))
    (\<lambda>e. case e of
       Integrity_error \<Rightarrow> sq rollback (raise (app_err InfraError ''SYS_001''))
     | _ \<Rightarrow> raise e))"

text \<open>The three ways a job ends a round.\<close>

datatype job_outcome = Unknown_type | Raised exn | Returned json

definition settled :: "env \<Rightarrow> job_claim \<Rightarrow> job_outcome \<Rightarrow> stamp \<Rightarrow> job_run \<Rightarrow> job_run" where
  "settled E c out now r = (case out of
      Unknown_type \<Rightarrow> r\<lparr>job_run_status := job_failed, finished_at := Some now, error_message := Some (No_handler (cl_type c))\<rparr>
    | Raised e \<Rightarrow>
        if cl_attempts c + 1 \<ge> jobs_max_attempts (cfg E)
        then r\<lparr>job_run_status := job_failed, finished_at := Some now, error_message := Some (Handler_raised e)\<rparr>
        else r\<lparr>job_run_status := job_queued, started_at := None, error_message := Some (Handler_raised e)\<rparr>
    | Returned res \<Rightarrow> r\<lparr>job_run_status := job_succeeded, finished_at := Some now, job_result := res\<rparr>)"

definition settle_job :: "env \<Rightarrow> job_claim \<Rightarrow> job_outcome \<Rightarrow> unit op" where
  "settle_job E c out = own_session (bnd now_utc (\<lambda>now.
     sq (update (\<lambda>d. d\<lparr>job_runs := upd_row job_id (cl_id c) (settled E c out now) (job_runs d)\<rparr>)) commit))"

definition process_once :: "env \<Rightarrow> handler_table \<Rightarrow> bool op" where
  "process_once E hs = bnd claim_job (\<lambda>claim. case claim of
       None \<Rightarrow> ret False
     | Some c \<Rightarrow> (case hs (cl_type c) of
          None \<Rightarrow> sq (settle_job E c Unknown_type) (ret True)
        | Some h \<Rightarrow> bnd (attempt (h (cl_payload c))) (\<lambda>r.
            sq (settle_job E c (case r of Inl e \<Rightarrow> Raised e | Inr res \<Rightarrow> Returned res)) (ret True))))"

text \<open>
  \<open>run_worker\<close>: rounds until the stop event is set, here a number of rounds; an exception of a
  round ends the worker. \<open>register_all_handlers\<close> registers nothing, so the worker process, which
  imports no service, runs with the empty table.
\<close>

fun run_worker :: "env \<Rightarrow> handler_table \<Rightarrow> nat \<Rightarrow> unit op" where
  "run_worker E hs 0 = ret ()"
| "run_worker E hs (Suc n) = bnd (process_once E hs) (\<lambda>_. run_worker E hs n)"

definition register_handler :: "string \<Rightarrow> handler \<Rightarrow> handler_table \<Rightarrow> handler_table" where
  "register_handler ty h hs = hs(ty \<mapsto> h)"

definition register_all_handlers :: "handler_table \<Rightarrow> handler_table" where
  "register_all_handlers hs = hs"

definition worker_main :: "env \<Rightarrow> nat \<Rightarrow> unit op" where
  "worker_main E n = run_worker E (register_all_handlers Map.empty) n"

section \<open>What a round does\<close>

lemma db_ok_jobs: "map job_id js = map job_id (job_runs d) \<Longrightarrow> db_ok (d\<lparr>job_runs := js\<rparr>) \<longleftrightarrow> db_ok d"
  by (simp add: db_ok_def)

lemma settled_id [simp]: "job_id (settled E c out now r) = job_id r"
  by (simp add: settled_def split: job_outcome.splits)

text \<open>The claim: the oldest queued job, marked as running, or nothing.\<close>

definition started :: "stamp \<Rightarrow> job_run \<Rightarrow> job_run" where
  "started now j = j\<lparr>job_run_status := job_running, started_at := Some now, attempts := attempts j + 1\<rparr>"

definition claim_of :: "job_run \<Rightarrow> job_claim" where
  "claim_of j = \<lparr>cl_id = job_id j, cl_type = job_type j, cl_payload = job_payload j, cl_attempts = attempts j\<rparr>"

definition with_jobs :: "job_run list \<Rightarrow> session \<Rightarrow> session" where
  "with_jobs js s = (let d = (com s)\<lparr>job_runs := js\<rparr> in s\<lparr>cur := d, com := d\<rparr>)"

lemma with_jobs_simps [simp]: "com (with_jobs js s) = (com s)\<lparr>job_runs := js\<rparr>"
  "cur (with_jobs js s) = (com s)\<lparr>job_runs := js\<rparr>" "clock (with_jobs js s) = clock s"
  by (simp_all add: with_jobs_def Let_def)

lemma upd_row_distinct:
  assumes "distinct (map key rs)" "r \<in> set rs"
  shows "upd_row key (key r) f rs = upd_row key (key r) (\<lambda>_. f r) rs"
  using assms by (auto simp: upd_row_def distinct_map dest: inj_onD)

text \<open>The claimed job is queued, and none queued is older.\<close>

lemma next_job_Some:
  assumes "next_job d = Some j"
  shows "j \<in> set (job_runs d) \<and> job_run_status j = job_queued
    \<and> (\<forall>k \<in> set (job_runs d). job_run_status k = job_queued \<longrightarrow> enqueued_at j \<le> enqueued_at k)"
proof -
  let ?q = "sort_key enqueued_at (filter (\<lambda>j. job_run_status j = job_queued) (job_runs d))"
  obtain js where q: "?q = j # js"
    using assms by (cases ?q) (auto simp: next_job_def order_asc_def)
  have "sorted (map enqueued_at ?q)" by (rule sorted_sort_key)
  then have min: "\<forall>k \<in> set ?q. enqueued_at j \<le> enqueued_at k" unfolding q by auto
  have "j \<in> set ?q" unfolding q by simp
  with min show ?thesis by auto
qed

lemma next_job_None: "next_job d = None \<longleftrightarrow> (\<forall>j \<in> set (job_runs d). job_run_status j \<noteq> job_queued)"
proof -
  let ?q = "filter (\<lambda>j. job_run_status j = job_queued) (job_runs d)"
  have "next_job d = None \<longleftrightarrow> sort_key enqueued_at ?q = []"
    by (cases "sort_key enqueued_at ?q") (simp_all add: next_job_def order_asc_def)
  also have "\<dots> \<longleftrightarrow> ?q = []" by (metis length_0_conv length_sort)
  finally show ?thesis by (simp add: filter_empty_conv)
qed

lemma claim_job_run:
  assumes "db_ok (com s)"
  shows "claim_job s = (case next_job (com s) of
      None \<Rightarrow> (Inr None, s\<lparr>cur := com s\<rparr>)
    | Some j \<Rightarrow> (Inr (Some (claim_of j)),
        with_jobs (upd_row job_id (job_id j) (started (clock s)) (job_runs (com s))) s))"
proof (cases "next_job (com s)")
  case (Some j)
  have d: "distinct (map job_id (job_runs (com s)))" using assms by (simp add: db_ok_def)
  have "j \<in> set (job_runs (com s))" using next_job_Some [OF Some] by simp
  then have u: "upd_row job_id (job_id j) (\<lambda>r. r\<lparr>job_run_status := job_running, started_at := Some (clock s), attempts := attempts j + 1\<rparr>)
      (job_runs (com s)) = upd_row job_id (job_id j) (started (clock s)) (job_runs (com s))"
    using upd_row_distinct [OF d, of j "\<lambda>r. r\<lparr>job_run_status := job_running, started_at := Some (clock s), attempts := attempts j + 1\<rparr>"]
      upd_row_distinct [OF d, of j "started (clock s)"] by (simp add: started_def)
  show ?thesis
    by (simp add: claim_job_def act_simps Some u db_ok_jobs assms with_jobs_def Let_def claim_of_def started_def)
qed (simp add: claim_job_def act_simps)

lemma settle_job_run:
  assumes "db_ok (com s)"
  shows "settle_job E c out s =
    (Inr (), with_jobs (upd_row job_id (cl_id c) (settled E c out (clock s)) (job_runs (com s))) s)"
  by (simp add: settle_job_def act_simps db_ok_jobs assms with_jobs_def Let_def)

section \<open>Several workers\<close>

text \<open>
  The table and what each worker is running. A worker claims, settles what it claimed with
  whatever outcome, or dies; meanwhile requests and handlers change other tables and enqueue.
\<close>

type_synonym job_system = "session \<times> (nat \<Rightarrow> job_claim option)"

inductive job_step :: "env \<Rightarrow> job_system \<Rightarrow> job_system \<Rightarrow> bool" for E where
  Claim: "ws w = None \<Longrightarrow> claim_job s = (Inr (Some c), t) \<Longrightarrow> job_step E (s, ws) (t, ws(w \<mapsto> c))"
| Settle: "ws w = Some c \<Longrightarrow> settle_job E c out s = (Inr (), t) \<Longrightarrow> job_step E (s, ws) (t, ws(w := None))"
| Crash: "ws w = Some c \<Longrightarrow> job_step E (s, ws) (s, ws(w := None))"
| Other: "db_ok (com t) \<Longrightarrow> job_runs (com t) = job_runs (com s) @ new \<Longrightarrow>
    list_all (\<lambda>j. job_run_status j = job_queued \<and> attempts j = 0) new \<Longrightarrow> job_step E (s, ws) (t, ws)"

inductive_cases job_stepE: "job_step E (s, ws) k"

text \<open>The life of one job.\<close>

inductive job_life :: "env \<Rightarrow> job_run \<Rightarrow> job_run \<Rightarrow> bool" for E where
  start: "job_run_status j = job_queued \<Longrightarrow> job_life E j (started now j)"
| succeed: "job_run_status j = job_running \<Longrightarrow>
    job_life E j (j\<lparr>job_run_status := job_succeeded, finished_at := Some now, job_result := res\<rparr>)"
| fail: "job_run_status j = job_running \<Longrightarrow>
    job_life E j (j\<lparr>job_run_status := job_failed, finished_at := Some now, error_message := Some e\<rparr>)"
| retry: "job_run_status j = job_running \<Longrightarrow> attempts j < jobs_max_attempts (cfg E) \<Longrightarrow>
    job_life E j (j\<lparr>job_run_status := job_queued, started_at := None, error_message := Some e\<rparr>)"

definition job_finished :: "job_run \<Rightarrow> bool" where
  "job_finished j \<longleftrightarrow> job_run_status j = job_succeeded \<or> job_run_status j = job_failed"

lemma job_life_keeps: "job_life E j j' \<Longrightarrow> \<not> job_finished j \<and> job_id j' = job_id j \<and> job_type j' = job_type j
    \<and> job_payload j' = job_payload j \<and> attempts j \<le> attempts j'"
  by (induction rule: job_life.induct) (simp_all add: job_finished_def started_def)

lemma job_lives_keep: "(job_life E)\<^sup>*\<^sup>* j j' \<Longrightarrow> job_id j' = job_id j \<and> job_type j' = job_type j
    \<and> job_payload j' = job_payload j \<and> attempts j \<le> attempts j' \<and> (job_finished j \<longrightarrow> j' = j)"
proof (induction rule: rtranclp_induct)
  case (step y z)
  with job_life_keeps [OF step.hyps(2)] show ?case by auto
qed simp

text \<open>
  The invariant: attempts within the limit, below it in the queue; a claim is of a running
  job at the attempt the claim counted; no two workers hold the same job.
\<close>

definition job_inv :: "env \<Rightarrow> job_system \<Rightarrow> bool" where
  "job_inv E k \<longleftrightarrow> (case k of (s, ws) \<Rightarrow> db_ok (com s)
    \<and> (\<forall>j \<in> set (job_runs (com s)). 0 \<le> attempts j \<and> attempts j \<le> jobs_max_attempts (cfg E)
        \<and> (job_run_status j = job_queued \<longrightarrow> attempts j < jobs_max_attempts (cfg E)))
    \<and> (\<forall>w c. ws w = Some c \<longrightarrow> (\<exists>j \<in> set (job_runs (com s)). job_id j = cl_id c
        \<and> job_run_status j = job_running \<and> attempts j = cl_attempts c + 1))
    \<and> (\<forall>w w' c c'. ws w = Some c \<and> ws w' = Some c' \<and> cl_id c = cl_id c' \<longrightarrow> w = w'))"

text \<open>One row of the job table changes, by a function that keeps the identifier.\<close>

lemma job_upd_row:
  assumes "db_ok d" "j \<in> set (job_runs d)" "job_id (f j) = job_id j"
  shows "set (upd_row job_id (job_id j) f (job_runs d)) = insert (f j) (set (job_runs d) - {j})"
    and "db_ok (d\<lparr>job_runs := upd_row job_id (job_id j) f (job_runs d)\<rparr>)"
    and "\<And>k. k \<in> set (job_runs d) \<Longrightarrow> job_id k = job_id j \<Longrightarrow> k = j"
proof -
  have d: "distinct (map job_id (job_runs d))" using assms(1) by (simp add: db_ok_def)
  then show one: "\<And>k. k \<in> set (job_runs d) \<Longrightarrow> job_id k = job_id j \<Longrightarrow> k = j"
    using assms(2) by (auto simp: distinct_map dest: inj_onD)
  then have "upd_row job_id (job_id j) f (job_runs d) = map (\<lambda>r. if r = j then f j else r) (job_runs d)"
    by (auto simp: upd_row_def)
  then show "set (upd_row job_id (job_id j) f (job_runs d)) = insert (f j) (set (job_runs d) - {j})"
    using assms(2) by auto
  have "map job_id (upd_row job_id (job_id j) f (job_runs d)) = map job_id (job_runs d)"
    using one assms(3) by (auto simp: upd_row_def)
  then show "db_ok (d\<lparr>job_runs := upd_row job_id (job_id j) f (job_runs d)\<rparr>)"
    using assms(1) by (simp add: db_ok_jobs)
qed

lemma claim_step:
  assumes "db_ok (com s)" "claim_job s = (Inr (Some c), t)"
  obtains j where "j \<in> set (job_runs (com s))" "job_run_status j = job_queued" "c = claim_of j"
    "set (job_runs (com t)) = insert (started (clock s) j) (set (job_runs (com s)) - {j})" "db_ok (com t)"
proof -
  obtain j where j: "next_job (com s) = Some j" "c = claim_of j"
      "t = with_jobs (upd_row job_id (job_id j) (started (clock s)) (job_runs (com s))) s"
    using assms(2) unfolding claim_job_run [OF assms(1)] by (auto split: option.splits)
  have q: "j \<in> set (job_runs (com s))" "job_run_status j = job_queued" using next_job_Some [OF j(1)] by auto
  have "job_id (started (clock s) j) = job_id j" by (simp add: started_def)
  note u = job_upd_row [OF assms(1) q(1), of "started (clock s)", OF this]
  show thesis by (rule that [OF q j(2)]) (simp_all add: j(3) u(1,2))
qed

lemma settle_step:
  assumes "db_ok (com s)" "settle_job E c out s = (Inr (), t)" "j \<in> set (job_runs (com s))" "job_id j = cl_id c"
  shows "set (job_runs (com t)) = insert (settled E c out (clock s) j) (set (job_runs (com s)) - {j})" "db_ok (com t)"
proof -
  have t: "t = with_jobs (upd_row job_id (job_id j) (settled E c out (clock s)) (job_runs (com s))) s"
    using assms(2,4) by (simp add: settle_job_run [OF assms(1)])
  note u = job_upd_row [OF assms(1,3), of "settled E c out (clock s)", OF settled_id]
  show "set (job_runs (com t)) = insert (settled E c out (clock s) j) (set (job_runs (com s)) - {j})" "db_ok (com t)"
    by (simp_all add: t u(1,2))
qed

lemma settled_life:
  assumes "job_run_status j = job_running" "attempts j = cl_attempts c + 1"
  shows "job_life E j (settled E c out now j)"
  using assms by (auto simp: settled_def intro: job_life.intros split: job_outcome.splits)

lemma job_inv_claim:
  assumes "job_inv E (s, ws)" "ws w = None" "claim_job s = (Inr (Some c), t)"
  shows "job_inv E (t, ws(w \<mapsto> c)) \<and> (\<forall>j \<in> set (job_runs (com s)). \<exists>j' \<in> set (job_runs (com t)). (job_life E)\<^sup>*\<^sup>* j j'
    \<and> (job_run_status j \<noteq> job_queued \<longrightarrow> j' = j))"
proof -
  have inv: "db_ok (com s)" "\<forall>j \<in> set (job_runs (com s)). 0 \<le> attempts j \<and> attempts j \<le> jobs_max_attempts (cfg E)
        \<and> (job_run_status j = job_queued \<longrightarrow> attempts j < jobs_max_attempts (cfg E))"
    and held: "\<And>w c. ws w = Some c \<Longrightarrow> \<exists>j \<in> set (job_runs (com s)). job_id j = cl_id c
        \<and> job_run_status j = job_running \<and> attempts j = cl_attempts c + 1"
    and excl: "\<And>w w' c c'. ws w = Some c \<Longrightarrow> ws w' = Some c' \<Longrightarrow> cl_id c = cl_id c' \<Longrightarrow> w = w'"
    using assms(1) unfolding job_inv_def prod.case by blast+
  from claim_step [OF inv(1) assms(3)] obtain j where j: "j \<in> set (job_runs (com s))" "job_run_status j = job_queued" "c = claim_of j"
    "set (job_runs (com t)) = insert (started (clock s) j) (set (job_runs (com s)) - {j})" and ok: "db_ok (com t)" by metis
  have one: "k = j" if "k \<in> set (job_runs (com s))" "job_id k = job_id j" for k
    using job_upd_row(3) [OF inv(1) j(1), of "\<lambda>r. r" k] that by simp
  have new: "cl_id c \<noteq> cl_id c'" if "ws w' = Some c'" for w' c'
  proof
    assume "cl_id c = cl_id c'"
    with held [OF that] obtain k where "k \<in> set (job_runs (com s))" "job_id k = job_id j" "job_run_status k = job_running"
      by (auto simp: j(3) claim_of_def)
    with one [of k] j(2) show False by auto
  qed
  have "\<exists>k \<in> set (job_runs (com t)). job_id k = cl_id c' \<and> job_run_status k = job_running \<and> attempts k = cl_attempts c' + 1"
    if "(ws(w \<mapsto> c)) w' = Some c'" for w' c'
  proof (cases "w' = w")
    case True
    with that show ?thesis by (auto simp: j(3,4) claim_of_def started_def)
  next
    case False
    with that held [of w' c'] obtain k where "k \<in> set (job_runs (com s))" "job_id k = cl_id c'"
      "job_run_status k = job_running" "attempts k = cl_attempts c' + 1" by auto
    with j(2) show ?thesis unfolding j(4) by (intro bexI [of _ k]) auto
  qed
  moreover have "w1 = w2" if "(ws(w \<mapsto> c)) w1 = Some c1" "(ws(w \<mapsto> c)) w2 = Some c2" "cl_id c1 = cl_id c2" for w1 w2 c1 c2
    using that excl [of w1 c1 w2 c2] new [of w1 c1] new [of w2 c2] by (auto split: if_splits)
  moreover have "\<forall>k \<in> set (job_runs (com t)). 0 \<le> attempts k \<and> attempts k \<le> jobs_max_attempts (cfg E)
        \<and> (job_run_status k = job_queued \<longrightarrow> attempts k < jobs_max_attempts (cfg E))"
    using inv(2) j(1,2) unfolding j(4) by (fastforce simp: started_def)
  ultimately have "job_inv E (t, ws(w \<mapsto> c))" unfolding job_inv_def prod.case using ok by blast
  moreover have "\<exists>k' \<in> set (job_runs (com t)). (job_life E)\<^sup>*\<^sup>* k k' \<and> (job_run_status k \<noteq> job_queued \<longrightarrow> k' = k)"
    if "k \<in> set (job_runs (com s))" for k
    using that job_life.start [OF j(2), of E "clock s"] j(2) unfolding j(4) by (cases "k = j") auto
  ultimately show ?thesis by blast
qed

lemma job_inv_settle:
  assumes "job_inv E (s, ws)" "ws w = Some c" "settle_job E c out s = (Inr (), t)"
  shows "job_inv E (t, ws(w := None)) \<and> (\<forall>j \<in> set (job_runs (com s)). \<exists>j' \<in> set (job_runs (com t)). (job_life E)\<^sup>*\<^sup>* j j'
    \<and> (job_id j \<noteq> cl_id c \<longrightarrow> j' = j))"
proof -
  have inv: "db_ok (com s)" "\<forall>j \<in> set (job_runs (com s)). 0 \<le> attempts j \<and> attempts j \<le> jobs_max_attempts (cfg E)
        \<and> (job_run_status j = job_queued \<longrightarrow> attempts j < jobs_max_attempts (cfg E))"
    and held: "\<And>w c. ws w = Some c \<Longrightarrow> \<exists>j \<in> set (job_runs (com s)). job_id j = cl_id c
        \<and> job_run_status j = job_running \<and> attempts j = cl_attempts c + 1"
    and excl: "\<And>w w' c c'. ws w = Some c \<Longrightarrow> ws w' = Some c' \<Longrightarrow> cl_id c = cl_id c' \<Longrightarrow> w = w'"
    using assms(1) unfolding job_inv_def prod.case by blast+
  from held [OF assms(2)] obtain j where j: "j \<in> set (job_runs (com s))" "job_id j = cl_id c"
      "job_run_status j = job_running" "attempts j = cl_attempts c + 1" by blast
  note t = settle_step [OF inv(1) assms(3) j(1,2)]
  note life = settled_life [OF j(3,4), of E out "clock s"]
  have "\<exists>k \<in> set (job_runs (com t)). job_id k = cl_id c' \<and> job_run_status k = job_running \<and> attempts k = cl_attempts c' + 1"
    if "(ws(w := None)) w' = Some c'" for w' c'
  proof -
    from that have w': "w' \<noteq> w" "ws w' = Some c'" by (auto split: if_splits)
    from held [OF w'(2)] obtain k where k: "k \<in> set (job_runs (com s))" "job_id k = cl_id c'"
      "job_run_status k = job_running" "attempts k = cl_attempts c' + 1" by blast
    moreover have "k \<noteq> j" using excl [OF w'(2) assms(2)] w'(1) j(2) k(2) by auto
    ultimately show ?thesis unfolding t(1) by blast
  qed
  moreover have "w1 = w2" if "(ws(w := None)) w1 = Some c1" "(ws(w := None)) w2 = Some c2" "cl_id c1 = cl_id c2" for w1 w2 c1 c2
    using that excl [of w1 c1 w2 c2] by (auto split: if_splits)
  moreover have "0 \<le> attempts k \<and> attempts k \<le> jobs_max_attempts (cfg E)
        \<and> (job_run_status k = job_queued \<longrightarrow> attempts k < jobs_max_attempts (cfg E))" if "k \<in> set (job_runs (com t))" for k
    using that inv(2) j unfolding t(1) by (auto simp: settled_def split: job_outcome.splits)
  ultimately have "job_inv E (t, ws(w := None))" unfolding job_inv_def prod.case using t(2) by blast
  moreover have "\<exists>k' \<in> set (job_runs (com t)). (job_life E)\<^sup>*\<^sup>* k k' \<and> (job_id k \<noteq> cl_id c \<longrightarrow> k' = k)"
    if "k \<in> set (job_runs (com s))" for k
    using that life j(2) unfolding t(1) by (cases "k = j") auto
  ultimately show ?thesis by blast
qed

lemma job_inv_other:
  assumes "job_inv E (s, ws)" "0 < jobs_max_attempts (cfg E)" "db_ok (com t)" "job_runs (com t) = job_runs (com s) @ new"
    "list_all (\<lambda>j. job_run_status j = job_queued \<and> attempts j = 0) new"
  shows "job_inv E (t, ws)"
  using assms unfolding job_inv_def prod.case by (auto simp: list_all_iff) blast

lemma job_inv_crash: "job_inv E (s, ws) \<Longrightarrow> job_inv E (s, ws(w := None))"
  unfolding job_inv_def prod.case by (auto split: if_splits)

text \<open>Every step keeps the invariant, and moves every row along its life; unclaimed running rows stay.\<close>

text \<open>A job that is not queued and that no worker holds.\<close>

definition unheld :: "uuid \<Rightarrow> job_system \<Rightarrow> bool" where
  "unheld i k \<longleftrightarrow> (\<exists>j \<in> set (job_runs (com (fst k))). job_id j = i \<and> job_run_status j \<noteq> job_queued)
     \<and> (\<forall>w c. snd k w = Some c \<longrightarrow> cl_id c \<noteq> i)"

definition moved :: "env \<Rightarrow> job_system \<Rightarrow> session \<Rightarrow> bool" where
  "moved E k t \<longleftrightarrow> (\<forall>j \<in> set (job_runs (com (fst k))). \<exists>j' \<in> set (job_runs (com t)). (job_life E)\<^sup>*\<^sup>* j j' \<and>
      (unheld (job_id j) k \<longrightarrow> j' = j))"

lemma job_step_inv:
  assumes "job_step E (s, ws) (t, ws')" "job_inv E (s, ws)" "0 < jobs_max_attempts (cfg E)"
  shows "job_inv E (t, ws') \<and> moved E (s, ws) t \<and> (\<forall>i w c. unheld i (s, ws) \<and> ws' w = Some c \<longrightarrow> cl_id c \<noteq> i)"
proof -
  have ok: "db_ok (com s)" using assms(2) by (simp add: job_inv_def)
  have same: "k = j" if "j \<in> set (job_runs (com s))" "k \<in> set (job_runs (com s))" "job_id k = job_id j" for j k
    using job_upd_row(3) [OF ok that(1), of "\<lambda>r. r"] that(2,3) by simp
  from assms(1) show ?thesis
  proof (cases rule: job_step.cases)
    case (Claim w c)
    note r = job_inv_claim [OF assms(2) Claim(2,3)]
    from claim_step [OF ok Claim(3)] obtain j where j: "j \<in> set (job_runs (com s))" "job_run_status j = job_queued" "c = claim_of j"
      by metis
    have "moved E (s, ws) t"
      using r same unfolding moved_def unheld_def fst_conv by metis
    moreover have "cl_id c \<noteq> i" if "unheld i (s, ws)" for i
      using that j same by (auto simp: unheld_def claim_of_def)
    ultimately show ?thesis using r by (auto simp: Claim(1) unheld_def)
  next
    case (Settle w c out)
    note r = job_inv_settle [OF assms(2) Settle(2,3)]
    have "moved E (s, ws) t"
      using r Settle(2) unfolding moved_def unheld_def fst_conv snd_conv by metis
    then show ?thesis using r by (auto simp: Settle(1) unheld_def)
  next
    case (Crash w c)
    have "moved E (s, ws) t" unfolding moved_def fst_conv by (auto simp: Crash(1))
    then show ?thesis using job_inv_crash [OF assms(2)] by (auto simp: Crash unheld_def)
  next
    case (Other new)
    have "moved E (s, ws) t" unfolding moved_def fst_conv by (auto simp: Other(3))
    then show ?thesis using job_inv_other [OF assms(2,3) Other(2-4)] by (auto simp: Other(1) unheld_def)
  qed
qed

lemma unheld_step:
  assumes "job_step E k k'" "job_inv E k" "0 < jobs_max_attempts (cfg E)" "unheld i k"
  shows "unheld i k'"
proof -
  obtain s ws t ws' where k: "k = (s, ws)" "k' = (t, ws')" by (cases k, cases k') auto
  from job_step_inv [OF assms(1,2,3) [unfolded k]] assms(4) show ?thesis
    unfolding k by (fastforce simp: unheld_def moved_def)
qed

lemma job_steps:
  assumes "(job_step E)\<^sup>*\<^sup>* k k'" "job_inv E k" "0 < jobs_max_attempts (cfg E)"
  shows "job_inv E k' \<and> moved E k (fst k') \<and> (\<forall>i. unheld i k \<longrightarrow> unheld i k')"
  using assms(1)
proof (induction rule: rtranclp_induct)
  case base
  have "moved E k (fst k)" by (auto simp: moved_def)
  with assms(2) show ?case by blast
next
  case (step y z)
  obtain s ws t ws' where k: "y = (s, ws)" "z = (t, ws')" by (cases y, cases z) auto
  note one = job_step_inv [OF step.hyps(2) [unfolded k] _ assms(3)]
  have y: "job_inv E (s, ws)" "moved E k s" using step.IH by (simp_all add: k)
  have "\<exists>j' \<in> set (job_runs (com t)). (job_life E)\<^sup>*\<^sup>* j j' \<and> (unheld (job_id j) k \<longrightarrow> j' = j)"
    if j: "j \<in> set (job_runs (com (fst k)))" for j
  proof -
    from y(2) j obtain j1 where j1: "j1 \<in> set (job_runs (com s))" "(job_life E)\<^sup>*\<^sup>* j j1" "unheld (job_id j) k \<longrightarrow> j1 = j"
      unfolding moved_def by blast
    from one [OF y(1)] j1(1) obtain j2 where j2: "j2 \<in> set (job_runs (com t))" "(job_life E)\<^sup>*\<^sup>* j1 j2"
        "unheld (job_id j1) (s, ws) \<longrightarrow> j2 = j1"
      unfolding moved_def by auto
    have "unheld (job_id j) k \<Longrightarrow> j2 = j" using j1(3) j2(3) step.IH by (simp add: k)
    with j1(2) j2 show ?thesis by (metis rtranclp_trans)
  qed
  then have "moved E k t" by (simp add: moved_def)
  with one [OF y(1)] unheld_step [OF step.hyps(2) _ assms(3)] step.IH show ?case by (simp add: k)
qed

section \<open>One worker alone\<close>

text \<open>What the queue expects of handlers: they commit only what the schema admits, and leave the job table alone.\<close>

locale job_handlers =
  fixes hs :: handler_table
  assumes handler_keeps: "hs ty = Some h \<Longrightarrow> db_ok (com s) \<Longrightarrow>
      db_ok (com (snd (h p s))) \<and> job_runs (com (snd (h p s))) = job_runs (com s)"

text \<open>The rounds a job table still needs at most: the attempts left of every queued job.\<close>

definition job_rounds :: "env \<Rightarrow> job_run \<Rightarrow> nat" where
  "job_rounds E j = (if job_run_status j = job_queued then nat (max 1 (jobs_max_attempts (cfg E) - attempts j)) else 0)"

definition rounds_left :: "env \<Rightarrow> job_run list \<Rightarrow> nat" where
  "rounds_left E js = sum_list (map (job_rounds E) js)"

lemma rounds_left_0: "rounds_left E js = 0 \<longleftrightarrow> (\<forall>j \<in> set js. job_run_status j \<noteq> job_queued)"
  unfolding rounds_left_def by (induction js) (auto simp: job_rounds_def)

text \<open>Between two tables: queued jobs may have been served, all others are as they were.\<close>

definition served :: "job_run \<Rightarrow> job_run \<Rightarrow> bool" where
  "served j j' \<longleftrightarrow> job_id j' = job_id j \<and> (if job_run_status j = job_queued
     then job_run_status j' = job_queued \<or> job_finished j' else j' = j)"

lemma served_refl [simp]: "served j j"
  by (simp add: served_def)

lemma served_trans: "served i j \<Longrightarrow> served j k \<Longrightarrow> served i k"
  by (auto simp: served_def job_finished_def split: if_splits)

lemma served_lists: "list_all2 served xs ys \<Longrightarrow> list_all2 served ys zs \<Longrightarrow> list_all2 served xs zs"
  by (rule list_all2_trans [OF served_trans])

text \<open>Replacing one queued row.\<close>

lemma served_update:
  assumes "distinct (map job_id js)" "j \<in> set js" "job_run_status j = job_queued" "job_id (f j) = job_id j"
    and "job_finished (f j) \<or> job_run_status (f j) = job_queued \<and> attempts (f j) = attempts j + 1
      \<and> attempts j + 1 < jobs_max_attempts (cfg E)"
  shows "list_all2 served js (upd_row job_id (job_id j) f js)"
    and "rounds_left E (upd_row job_id (job_id j) f js) < rounds_left E js"
proof -
  have f: "upd_row job_id (job_id j) f js = map (\<lambda>r. if r = j then f j else r) js"
    using assms(1,2) by (auto simp: upd_row_def distinct_map dest: inj_onD)
  have "served j (f j)" using assms(3-5) by (auto simp: served_def)
  then show "list_all2 served js (upd_row job_id (job_id j) f js)"
    unfolding f by (simp add: list_all2_map2 list.rel_refl_strong)
  have dist: "distinct js" using assms(1) by (simp add: distinct_map)
  have less: "job_rounds E (f j) < job_rounds E j" using assms(3,5) by (auto simp: job_rounds_def job_finished_def)
  have "distinct js \<Longrightarrow> j \<in> set js \<Longrightarrow>
      sum_list (map (job_rounds E) (map (\<lambda>r. if r = j then f j else r) js)) < sum_list (map (job_rounds E) js)"
  proof (induction js)
    case (Cons a js)
    show ?case
    proof (cases "a = j")
      case True
      with Cons.prems(1) have "map (\<lambda>r. if r = j then f j else r) js = js" by (intro map_idI) auto
      with True less show ?thesis by (simp only: list.map sum_list.Cons if_True) simp
    next
      case False
      with Cons show ?thesis by simp
    qed
  qed simp
  with dist assms(2) show "rounds_left E (upd_row job_id (job_id j) f js) < rounds_left E js"
    unfolding rounds_left_def f by blast
qed

lemma upd_row_twice:
  "(\<And>r. job_id (f r) = job_id r) \<Longrightarrow> upd_row job_id i g (upd_row job_id i f js) = upd_row job_id i (g \<circ> f) js"
  by (simp add: upd_row_def)

context job_handlers
begin

lemma round_run:
  assumes "db_ok (com s)" "next_job (com s) = Some j"
  shows "\<exists>t out now. process_once E hs s = (Inr True, t) \<and> db_ok (com t)
    \<and> job_runs (com t) = upd_row job_id (job_id j) (settled E (claim_of j) out now \<circ> started (clock s)) (job_runs (com s))
    \<and> (hs (job_type j) = None \<longleftrightarrow> out = Unknown_type)"
proof -
  note q = next_job_Some [OF assms(2)]
  let ?js = "upd_row job_id (job_id j) (started (clock s)) (job_runs (com s))"
  let ?s = "with_jobs ?js s"
  have started: "job_id (started now r) = job_id r" for now r by (simp add: started_def)
  have ok: "db_ok (com ?s)" using assms(1) by (simp add: db_ok_jobs started)
  have claim: "claim_job s = (Inr (Some (claim_of j)), ?s)" by (simp add: claim_job_run [OF assms(1)] assms(2))
  show ?thesis
  proof (cases "hs (job_type j)")
    case None
    let ?t = "with_jobs (upd_row job_id (job_id j) (settled E (claim_of j) Unknown_type (clock s)) ?js) ?s"
    have "process_once E hs s = (Inr True, ?t)"
      using settle_job_run [OF ok, of E "claim_of j" Unknown_type]
      by (simp add: process_once_def act_simps claim claim_of_def None)
    with ok None show ?thesis
      by (intro exI [of _ ?t] exI [of _ Unknown_type] exI [of _ "clock s"]) (simp add: upd_row_twice started db_ok_jobs)
  next
    case (Some h)
    obtain r u where h: "h (job_payload j) ?s = (r, u)" by fastforce
    with handler_keeps [OF Some ok, of "job_payload j"] have u: "db_ok (com u)" "job_runs (com u) = ?js" by simp_all
    let ?out = "case r of Inl e \<Rightarrow> Raised e | Inr res \<Rightarrow> Returned res"
    have ok_settled: "db_ok (com (with_jobs (upd_row job_id (job_id j) (settled E (claim_of j) ?out (clock u)) ?js) u))"
      using u by (simp add: db_ok_jobs started)
    have "process_once E hs s =
        (Inr True, with_jobs (upd_row job_id (job_id j) (settled E (claim_of j) ?out (clock u)) ?js) u)"
      using settle_job_run [OF u(1), of E "claim_of j" ?out]
      by (simp add: process_once_def act_simps claim claim_of_def Some h u(2))
    with ok_settled show ?thesis
      by (intro exI [of _ "with_jobs (upd_row job_id (job_id j) (settled E (claim_of j) ?out (clock u)) ?js) u"]
          exI [of _ ?out] exI [of _ "clock u"]) (simp add: upd_row_twice started Some split: sum.splits)
  qed
qed

lemma round_serves:
  assumes "db_ok (com s)" "next_job (com s) = Some j"
  shows "\<exists>t. process_once E hs s = (Inr True, t) \<and> db_ok (com t) \<and> list_all2 served (job_runs (com s)) (job_runs (com t))
    \<and> rounds_left E (job_runs (com t)) < rounds_left E (job_runs (com s))"
proof -
  from round_run [OF assms] obtain t out now where t: "process_once E hs s = (Inr True, t)" "db_ok (com t)"
    "job_runs (com t) = upd_row job_id (job_id j) (settled E (claim_of j) out now \<circ> started (clock s)) (job_runs (com s))" by blast
  have d: "distinct (map job_id (job_runs (com s)))" using assms(1) by (simp add: db_ok_def)
  note q = next_job_Some [OF assms(2)]
  let ?f = "settled E (claim_of j) out now \<circ> started (clock s)"
  have "job_finished (?f j) \<or> job_run_status (?f j) = job_queued \<and> attempts (?f j) = attempts j + 1
      \<and> attempts j + 1 < jobs_max_attempts (cfg E)"
    by (auto simp: settled_def started_def claim_of_def job_finished_def split: job_outcome.splits)
  moreover have "job_id (?f j) = job_id j" by (simp add: started_def)
  ultimately show ?thesis
    using served_update [of "job_runs (com s)" j ?f E] d q by (intro exI [of _ t]) (simp add: t)
qed

lemma idle_round: "db_ok (com s) \<Longrightarrow> next_job (com s) = None \<Longrightarrow> process_once E hs s = (Inr False, s\<lparr>cur := com s\<rparr>)"
  by (simp add: process_once_def act_simps claim_job_run)

text \<open>Enough rounds serve every queued job, whatever the handlers do with the payloads.\<close>

lemma worker_serves:
  "db_ok (com s) \<Longrightarrow> rounds_left E (job_runs (com s)) \<le> n \<Longrightarrow>
    \<exists>t. run_worker E hs n s = (Inr (), t) \<and> list_all2 served (job_runs (com s)) (job_runs (com t))
      \<and> (\<forall>j \<in> set (job_runs (com t)). job_run_status j \<noteq> job_queued)"
proof (induction n arbitrary: s)
  case 0
  then have "\<forall>j \<in> set (job_runs (com s)). job_run_status j \<noteq> job_queued"
    by (simp add: rounds_left_0)
  then show ?case by (simp add: list.rel_refl)
next
  case (Suc n)
  show ?case
  proof (cases "next_job (com s)")
    case None
    then have "rounds_left E (job_runs (com s)) = 0"
      unfolding next_job_None by (simp add: rounds_left_0)
    with Suc.IH [of "s\<lparr>cur := com s\<rparr>"] Suc.prems(1) show ?thesis
      by (auto simp: act_simps idle_round [OF Suc.prems(1) None])
  next
    case (Some j)
    from round_serves [OF Suc.prems(1) Some] obtain u where u: "process_once E hs s = (Inr True, u)" "db_ok (com u)"
      "list_all2 served (job_runs (com s)) (job_runs (com u))" "rounds_left E (job_runs (com u)) < rounds_left E (job_runs (com s))" by blast
    with Suc.prems(2) have "rounds_left E (job_runs (com u)) \<le> n" by simp
    from Suc.IH [OF u(2) this] u(1,3) show ?thesis
      using served_lists by (fastforce simp: act_simps)
  qed
qed

end

text \<open>The empty table satisfies the contract.\<close>

interpretation no_handlers: job_handlers Map.empty
  by unfold_locales simp

text \<open>With the empty table a round fails the job it claims.\<close>

definition rejected :: "job_run \<Rightarrow> job_run \<Rightarrow> bool" where
  "rejected j j' \<longleftrightarrow> j' = j \<or> job_run_status j = job_queued \<and> job_id j' = job_id j \<and> job_run_status j' = job_failed
     \<and> error_message j' = Some (No_handler (job_type j))"

lemma rejected_trans: "rejected i j \<Longrightarrow> rejected j k \<Longrightarrow> rejected i k"
  by (auto simp: rejected_def)

lemma rejected_lists: "list_all2 rejected xs ys \<Longrightarrow> list_all2 rejected ys zs \<Longrightarrow> list_all2 rejected xs zs"
  by (rule list_all2_trans [OF rejected_trans])

lemma round_rejects:
  assumes "db_ok (com s)" "process_once E Map.empty s = (r, t)"
  shows "list_all2 rejected (job_runs (com s)) (job_runs (com t)) \<and> db_ok (com t)"
proof (cases "next_job (com s)")
  case None
  with no_handlers.idle_round [OF assms(1) None] assms show ?thesis by (auto simp: list.rel_refl rejected_def)
next
  case (Some j)
  from no_handlers.round_run [OF assms(1) Some, where E = E] obtain now where t: "db_ok (com t)"
    "job_runs (com t) = upd_row job_id (job_id j) (settled E (claim_of j) Unknown_type now \<circ> started (clock s)) (job_runs (com s))"
    using assms(2) by auto
  have "distinct (map job_id (job_runs (com s)))" using assms(1) by (simp add: db_ok_def)
  then have "upd_row job_id (job_id j) (settled E (claim_of j) Unknown_type now \<circ> started (clock s)) (job_runs (com s))
      = map (\<lambda>k. if k = j then settled E (claim_of j) Unknown_type now (started (clock s) j) else k) (job_runs (com s))"
    using next_job_Some [OF Some] by (auto simp: upd_row_def distinct_map dest: inj_onD)
  moreover have "rejected j (settled E (claim_of j) Unknown_type now (started (clock s) j))"
    using next_job_Some [OF Some] by (simp add: rejected_def settled_def started_def claim_of_def)
  ultimately show ?thesis
    using t by (auto simp: list_all2_map2 rejected_def intro!: list.rel_refl_strong)
qed

lemma worker_rejects: "db_ok (com s) \<Longrightarrow> run_worker E Map.empty n s = (r, t) \<Longrightarrow>
    list_all2 rejected (job_runs (com s)) (job_runs (com t))"
proof (induction n arbitrary: s)
  case 0
  then show ?case by (auto simp: list.rel_refl rejected_def)
next
  case (Suc n)
  obtain r' u where u: "process_once E Map.empty s = (r', u)" by fastforce
  note one = round_rejects [OF Suc.prems(1) u]
  show ?case
  proof (cases r')
    case (Inl e)
    with u one Suc.prems(2) show ?thesis by (auto simp: act_simps)
  next
    case (Inr b)
    with u Suc.prems(2) have "run_worker E Map.empty n u = (r, t)" by (simp add: act_simps)
    with Suc.IH one have "list_all2 rejected (job_runs (com u)) (job_runs (com t))" by blast
    with one show ?thesis by (blast intro: rejected_lists)
  qed
qed

section \<open>Samples\<close>

definition job0 :: job_run where
  "job0 = \<lparr>job_id = 70, job_type = ''report_export'', job_run_status = job_queued, job_payload = JObj [],
     job_result = JNull, error_message = None, enqueued_by = Some 51, enqueued_at = 5, started_at = None,
     finished_at = None, attempts = 0\<rparr>"

definition job_db :: db where
  "job_db = empty_db\<lparr>job_runs := [job0\<lparr>job_id := 71, enqueued_at := 9\<rparr>, job0]\<rparr>"

lemma job_db_ok: "db_ok job_db"
  by (simp add: job_db_def db_ok_def constraint_defs job0_def)

lemma job_db_inv: "job_inv env0 (session_of job_db, \<lambda>_. None)"
  using job_db_ok by (simp add: job_inv_def job_db_def job0_def)

section \<open>Properties\<close>

text \<open>
  Claim C8: the queue under any number of workers. In whatever order workers claim jobs, settle
  them or die, and requests enqueue more: no job is ever held by two workers; every job moves
  only along its life (queued, running, then succeeded, failed or queued again), keeps its
  type and payload, and is tried at most \<open>jobs_max_attempts\<close> times; a finished job never changes.
\<close>

theorem job_queue_safe:
  assumes "job_inv E (s, ws)" "0 < jobs_max_attempts (cfg E)" "(job_step E)\<^sup>*\<^sup>* (s, ws) (t, ws')"
  shows "(\<forall>w w' c c'. ws' w = Some c \<and> ws' w' = Some c' \<and> cl_id c = cl_id c' \<longrightarrow> w = w')
    \<and> (\<forall>j \<in> set (job_runs (com s)). \<exists>j' \<in> set (job_runs (com t)). (job_life E)\<^sup>*\<^sup>* j j' \<and> job_id j' = job_id j
        \<and> job_type j' = job_type j \<and> job_payload j' = job_payload j \<and> attempts j \<le> attempts j'
        \<and> attempts j' \<le> jobs_max_attempts (cfg E) \<and> (job_finished j \<longrightarrow> j' = j))"
proof -
  have t: "job_inv E (t, ws')" "moved E (s, ws) t" using job_steps [OF assms(3,1,2)] by simp_all
  have "\<exists>j' \<in> set (job_runs (com t)). (job_life E)\<^sup>*\<^sup>* j j' \<and> job_id j' = job_id j
        \<and> job_type j' = job_type j \<and> job_payload j' = job_payload j \<and> attempts j \<le> attempts j'
        \<and> attempts j' \<le> jobs_max_attempts (cfg E) \<and> (job_finished j \<longrightarrow> j' = j)"
    if "j \<in> set (job_runs (com s))" for j
  proof -
    from t(2) that obtain j' where j': "j' \<in> set (job_runs (com t))" "(job_life E)\<^sup>*\<^sup>* j j'" by (auto simp: moved_def)
    then have "attempts j' \<le> jobs_max_attempts (cfg E)" using t(1) by (simp add: job_inv_def)
    with j' job_lives_keep [OF j'(2)] show ?thesis by blast
  qed
  then show ?thesis using t(1) by (simp add: job_inv_def)
qed

lemma job_queue_safe_witness:
  "\<exists>c t. claim_job (session_of job_db) = (Inr (Some c), t) \<and> cl_id c = 70
     \<and> (\<exists>j' \<in> set (job_runs (com t)). job_id j' = 71 \<and> attempts j' \<le> 3)"
proof -
  have "next_job job_db = Some job0" by (simp add: next_job_def job_db_def job0_def order_asc_def)
  then obtain t where t: "claim_job (session_of job_db) = (Inr (Some (claim_of job0)), t)"
    using claim_job_run [of "session_of job_db"] job_db_ok by simp
  have "job_step env0 (session_of job_db, \<lambda>_. None) (t, (\<lambda>_. None)(0 \<mapsto> claim_of job0))"
    by (rule job_step.Claim [OF _ t]) simp
  then have steps: "(job_step env0)\<^sup>*\<^sup>* (session_of job_db, \<lambda>_. None) (t, (\<lambda>_. None)(0 \<mapsto> claim_of job0))"
    by (rule r_into_rtranclp)
  have limit: "0 < jobs_max_attempts (cfg env0)" "jobs_max_attempts (cfg env0) = 3" by simp_all
  have "job0\<lparr>job_id := 71, enqueued_at := 9\<rparr> \<in> set (job_runs (com (session_of job_db)))" by (simp add: job_db_def)
  from bspec [OF conjunct2 [OF job_queue_safe [OF job_db_inv limit(1) steps]] this, unfolded limit(2)]
  have "\<exists>j' \<in> set (job_runs (com t)). job_id j' = 71 \<and> attempts j' \<le> 3" by (elim bexE conjE, intro bexI conjI) simp_all
  with t show ?thesis by (intro exI [of _ "claim_of job0"] exI [of _ t]) (simp add: claim_of_def job0_def)
qed

text \<open>
  A job whose worker dies is lost. Once no worker holds a running job, it stays
  running, as it is, whatever workers and requests do later: nothing puts it back into the
  queue, and nothing reports it.
\<close>

theorem orphaned_job_stuck:
  assumes "job_inv E (s, ws)" "0 < jobs_max_attempts (cfg E)" "(job_step E)\<^sup>*\<^sup>* (s, ws) (t, ws')"
    and "j \<in> set (job_runs (com s))" "job_run_status j = job_running" "\<forall>w c. ws w = Some c \<longrightarrow> cl_id c \<noteq> job_id j"
  shows "j \<in> set (job_runs (com t)) \<and> (\<forall>w c. ws' w = Some c \<longrightarrow> cl_id c \<noteq> job_id j)"
proof -
  have "unheld (job_id j) (s, ws)" using assms(4-6) by (auto simp: unheld_def)
  with job_steps [OF assms(3,1,2)] assms(4) show ?thesis by (auto simp: moved_def unheld_def)
qed

lemma orphaned_job_stuck_witness:
  "job0\<lparr>job_run_status := job_running, attempts := 1\<rparr>
     \<in> set (job_runs (com (session_of (job_db\<lparr>job_runs := [job0\<lparr>job_run_status := job_running, attempts := 1\<rparr>]\<rparr>))))"
proof -
  let ?s = "session_of (job_db\<lparr>job_runs := [job0\<lparr>job_run_status := job_running, attempts := 1\<rparr>]\<rparr>)"
  have inv: "job_inv env0 (?s, \<lambda>_. None)"
    using job_db_ok by (simp add: job_inv_def job_db_def job0_def db_ok_def)
  show ?thesis
    using orphaned_job_stuck [OF inv _ rtranclp.rtrancl_refl, where j = "job0\<lparr>job_run_status := job_running, attempts := 1\<rparr>"]
    by simp
qed

text \<open>
  The worker process serves nobody. It is started on its own, and the function that is
  meant to register the handlers registers none: whatever the queue holds, after enough
  rounds every queued job has failed for want of a handler, and the other jobs are as before.
\<close>

theorem worker_process_fails_jobs:
  assumes "db_ok (com s)" "rounds_left E (job_runs (com s)) \<le> n"
  shows "\<exists>t. worker_main E n s = (Inr (), t) \<and> list_all2 (\<lambda>j j'. if job_run_status j = job_queued
      then job_id j' = job_id j \<and> job_run_status j' = job_failed \<and> error_message j' = Some (No_handler (job_type j))
      else j' = j) (job_runs (com s)) (job_runs (com t))"
proof -
  from no_handlers.worker_serves [OF assms] obtain t where t: "run_worker E Map.empty n s = (Inr (), t)"
    "\<forall>j \<in> set (job_runs (com t)). job_run_status j \<noteq> job_queued" by blast
  have "list_all2 (\<lambda>j j'. if job_run_status j = job_queued
      then job_id j' = job_id j \<and> job_run_status j' = job_failed \<and> error_message j' = Some (No_handler (job_type j))
      else j' = j) (job_runs (com s)) (job_runs (com t))"
    by (rule list.rel_mono_strong [OF worker_rejects [OF assms(1) t(1)]]) (use t(2) in \<open>auto simp: rejected_def\<close>)
  with t(1) show ?thesis by (simp add: worker_main_def register_all_handlers_def)
qed

lemma worker_process_fails_jobs_witness:
  "\<exists>t. worker_main env0 6 (session_of job_db) = (Inr (), t)
     \<and> map job_run_status (job_runs (com t)) = [job_failed, job_failed]"
proof -
  have "rounds_left env0 (job_runs (com (session_of job_db))) \<le> 6"
    by (simp add: rounds_left_def job_rounds_def job_db_def job0_def)
  from worker_process_fails_jobs [OF _ this] job_db_ok show ?thesis
    by (auto simp: job_db_def job0_def list_all2_Cons1)
qed

end
