(* ===== verification/Exports.thy ===== *)
theory Exports
  imports Report_Files Jobs Notifications Storage
begin

text \<open>
  \<^verbatim>\<open>domain/consolidation/export.py\<close> and the export routes of \<^verbatim>\<open>api/v1/reports.py\<close>: an export is
  made in the request, or enqueued and made by the worker, whose handler table is what
  \<^verbatim>\<open>main.py\<close> registers; the status and the file are asked for by job identifier.
\<close>

section \<open>ReportExportService\<close>

record export_result =
  er_mode :: string
  er_file_url :: "pystr option"
  er_expires_at :: "stamp option"
  er_job_id :: "uuid option"

text \<open>\<open>now_utc() + timedelta(hours=24)\<close>.\<close>

definition expiry :: "stamp \<Rightarrow> stamp" where
  "expiry now = now + 86400000000"

definition format_text :: "export_format \<Rightarrow> string" where
  "format_text f = (case f of Xlsx \<Rightarrow> ''xlsx'' | Csv \<Rightarrow> ''csv'')"

text \<open>Build, render and save, the errors of the application passed on and all others wrapped.\<close>

definition render_and_save :: "env \<Rightarrow> uuid \<Rightarrow> report_scope \<Rightarrow> export_format \<Rightarrow> (report \<times> pystr) op" where
  "render_and_save E cid sc f = catch
     (bnd (query (report_build cid sc)) (\<lambda>R. case render_report E R f of (filename, content) \<Rightarrow>
        bnd (storage_save E ''exports'' filename content) (\<lambda>k. ret (R, k))))
     (\<lambda>e. if is_app_error e then raise e else raise (app_err AppError ''REPORT_002''))"

definition run_sync :: "env \<Rightarrow> uuid \<Rightarrow> report_scope \<Rightarrow> export_format \<Rightarrow> user \<Rightarrow> export_result op" where
  "run_sync E cid sc f u = bnd (render_and_save E cid sc f) (\<lambda>(R, k). bnd now_utc (\<lambda>now.
     bnd (audit_record E REPORT_EXPORT_QUEUED ''report_export'' None (Some (user_id u)) None
        (JObj [(''cycle_id'', JUuid cid), (''mode'', JName ''sync''), (''format'', JName (format_text f)),
           (''row_count'', JInt (int (length (rep_rows R)))), (''storage_key'', JText k)])) (\<lambda>_.
     ret \<lparr>er_mode = ''sync'', er_file_url = Some k, er_expires_at = Some (expiry now), er_job_id = None\<rparr>)))"

definition export_payload :: "uuid \<Rightarrow> report_scope \<Rightarrow> export_format \<Rightarrow> uuid \<Rightarrow> json" where
  "export_payload cid sc f uid = JObj [(''cycle_id'', JUuid cid), (''scope_all'', JBool (all_scopes sc)),
     (''scope_org_unit_ids'', JArr (map JUuid (sort (remdups (scope_units sc))))),
     (''format'', JName (format_text f)), (''user_id'', JUuid uid)]"

definition enqueue_async :: "env \<Rightarrow> handler_table \<Rightarrow> uuid \<Rightarrow> report_scope \<Rightarrow> export_format \<Rightarrow> user \<Rightarrow> export_result op" where
  "enqueue_async E hs cid sc f u =
     bnd (enqueue hs ''report_export'' (export_payload cid sc f (user_id u)) (Some (user_id u))) (\<lambda>i.
     bnd (audit_record E REPORT_EXPORT_QUEUED ''job_run'' (Some i) (Some (user_id u)) None
        (JObj [(''cycle_id'', JUuid cid), (''mode'', JName ''async''), (''format'', JName (format_text f))])) (\<lambda>_.
     ret \<lparr>er_mode = ''async'', er_file_url = None, er_expires_at = None, er_job_id = Some i\<rparr>))"

text \<open>\<open>org_unit_ids\<close> is a set: its size counts each unit once.\<close>

definition export_async :: "env \<Rightarrow> handler_table \<Rightarrow> uuid \<Rightarrow> report_scope \<Rightarrow> export_format \<Rightarrow> user \<Rightarrow> export_result op" where
  "export_async E hs cid sc f u =
     (let scope_size = (if all_scopes sc then 0 else int (length (remdups (scope_units sc)))) in
      if all_scopes sc \<or> scope_size > async_export_threshold (cfg E) then enqueue_async E hs cid sc f u
      else run_sync E cid sc f u)"

section \<open>ReportExportHandler\<close>

text \<open>
  The payload is read back from a JSON column. \<open>JUuid\<close> is the text of an identifier; every other
  value is one that \<open>UUID(...)\<close> refuses.
\<close>

definition parse_uuid :: "json \<Rightarrow> uuid op" where
  "parse_uuid v = (case v of JUuid i \<Rightarrow> ret i | _ \<Rightarrow> raise Value_error)"

definition payload_get :: "string \<Rightarrow> json \<Rightarrow> json option" where
  "payload_get k p = (case p of JObj kvs \<Rightarrow> map_of kvs k | _ \<Rightarrow> None)"

definition payload_item :: "string \<Rightarrow> json \<Rightarrow> json op" where
  "payload_item k p = (case payload_get k p of None \<Rightarrow> raise Key_error | Some v \<Rightarrow> ret v)"

text \<open>\<open>str(payload.get('format', 'xlsx'))\<close>: the renderer takes everything but \<open>csv\<close> as a workbook.\<close>

definition payload_format :: "json \<Rightarrow> export_format" where
  "payload_format p = (if payload_get ''format'' p \<in> {Some (JName ''csv''), Some (JText (str ''csv''))} then Csv else Xlsx)"

definition coerce_uuid_strings :: "json option \<Rightarrow> json list" where
  "coerce_uuid_strings v = (case v of Some (JArr vs) \<Rightarrow> vs | _ \<Rightarrow> [])"

definition payload_scope_all :: "json \<Rightarrow> bool" where
  "payload_scope_all p = (case payload_get ''scope_all'' p of None \<Rightarrow> False | Some v \<Rightarrow> truthy v)"

definition send_export_notification :: "env \<Rightarrow> bool \<Rightarrow> uuid \<Rightarrow> uuid \<Rightarrow> pystr \<Rightarrow> int \<Rightarrow> stamp \<Rightarrow> unit op" where
  "send_export_notification E service uid cid url n until =
     (if \<not> service then ret ()
      else bnd (query (\<lambda>d. get_row user_id uid (users d))) (\<lambda>u. case u of
        None \<Rightarrow> ret ()
      | Some u \<Rightarrow> bnd (query (\<lambda>d. get_row cycle_id cid (budget_cycles d))) (\<lambda>c.
          case extract_email u of
            None \<Rightarrow> ret ()
          | Some email \<Rightarrow> catch
              (bnd (notify_send E REPORT_EXPORT_READY uid email
                 [(''cycle_fiscal_year'', case c of None \<Rightarrow> JNull | Some c \<Rightarrow> JInt (fiscal_year c)),
                  (''file_url'', JText url), (''row_count'', JInt n), (''expires_at'', JTime until)] None) (\<lambda>_. ret ()))
              (\<lambda>e. if is_app_error e then ret () else raise e))))"

definition handler_run :: "env \<Rightarrow> bool \<Rightarrow> handler" where
  "handler_run E service p =
     bnd (payload_item ''cycle_id'' p) (\<lambda>v. bnd (parse_uuid v) (\<lambda>cid.
     bnd (payload_item ''user_id'' p) (\<lambda>w. bnd (parse_uuid w) (\<lambda>uid.
     bnd (mapA parse_uuid (coerce_uuid_strings (payload_get ''scope_org_unit_ids'' p))) (\<lambda>ids.
     let sc = \<lparr>scope_user_id = uid, scope_units = ids, all_scopes = payload_scope_all p\<rparr> in
     own_session
       (bnd (render_and_save E cid sc (payload_format p)) (\<lambda>(R, k). bnd now_utc (\<lambda>now.
        let n = int (length (rep_rows R)) in
        bnd (audit_record E REPORT_EXPORT_COMPLETE ''report_export'' None (Some uid) None
          (JObj [(''cycle_id'', JUuid cid), (''row_count'', JInt n), (''storage_key'', JText k)])) (\<lambda>_.
        sq commit
       (sq (send_export_notification E service uid cid k n (expiry now))
       (ret (JObj [(''file_url'', JText k), (''expires_at'', JTime (expiry now)), (''row_count'', JInt n)]))))))))))))"

text \<open>\<^verbatim>\<open>main.py\<close>: the API process registers the handler with a factory that yields no service.\<close>

definition register_report_export_handler :: "env \<Rightarrow> bool \<Rightarrow> handler_table \<Rightarrow> handler_table" where
  "register_report_export_handler E service hs = register_handler ''report_export'' (handler_run E service) hs"

definition api_handlers :: "env \<Rightarrow> handler_table" where
  "api_handlers E = register_report_export_handler E False Map.empty"

section \<open>The routes\<close>

definition report_roles :: "role list" where
  "report_roles = [SystemAdmin, FinanceAdmin, UplineReviewer, CompanyReviewer]"

definition start_report_export :: "env \<Rightarrow> uuid \<Rightarrow> export_format \<Rightarrow> user \<Rightarrow> (nat \<times> export_result) op" where
  "start_report_export E cid f u = get_session (bnd (require_role report_roles u) (\<lambda>u.
     bnd (query (resolve_scope u)) (\<lambda>sc.
     bnd (export_async E (api_handlers E) cid sc f u) (\<lambda>r.
     ret (if er_mode r = ''sync'' then 201 else 202, r)))))"

definition get_export_status :: "uuid \<Rightarrow> user \<Rightarrow> job_run op" where
  "get_export_status i u = get_session (bnd (require_role report_roles u) (\<lambda>_. get_status i))"

text \<open>The values of the column \<open>status\<close>.\<close>

definition job_status_text :: "job_status \<Rightarrow> string" where
  "job_status_text st = (case st of job_queued \<Rightarrow> ''queued'' | job_running \<Rightarrow> ''running''
     | job_succeeded \<Rightarrow> ''succeeded'' | job_failed \<Rightarrow> ''failed'')"

text \<open>A \<open>file_url\<close> that is not a text is the name of no stored file.\<close>

definition download_export_file :: "uuid \<Rightarrow> user \<Rightarrow> (bytes \<times> string) op" where
  "download_export_file i u = get_session (bnd (require_role report_roles u) (\<lambda>_. bnd (get_status i) (\<lambda>j.
     sq (check (job_status_text (job_run_status j) = ''completed'') (app_err NotFoundError ''REPORT_001''))
    (case payload_get ''file_url'' (job_result j) of
       Some (JText k) \<Rightarrow>
         sq (check (k \<noteq> []) (app_err NotFoundError ''REPORT_001''))
        (bnd (catch (storage_read k) (\<lambda>e. if is_app_error e then raise (app_err NotFoundError ''REPORT_001'') else raise e)) (\<lambda>content.
         ret (content, if ends_with (str ''.csv'') k then ''text/csv''
           else ''application/vnd.openxmlformats-officedocument.spreadsheetml.sheet'')))
     | _ \<Rightarrow> raise (app_err NotFoundError ''REPORT_001'')))))"

section \<open>What the handler keeps\<close>

text \<open>The handler is a tenant of the queue: it never touches the job table.\<close>

definition keeps_jobs :: "job_run list \<Rightarrow> session \<Rightarrow> bool" where
  "keeps_jobs js s \<longleftrightarrow> db_ok (com s) \<and> job_runs (com s) = js \<and> job_runs (cur s) = js"

lemma keeps_jobs_basic [preserves_intros]:
  "preserves (keeps_jobs js) rollback"
  "preserves (keeps_jobs js) flush"
  "preserves (keeps_jobs js) commit"
  "preserves (keeps_jobs js) new_uuid"
  "preserves (keeps_jobs js) next_sequence_no"
  "(\<And>d. job_runs (f d) = job_runs d) \<Longrightarrow> preserves (keeps_jobs js) (update f)"
  by (auto simp: preserves_def keeps_jobs_def act_simps)

lemma keeps_jobs_record [preserves_intros]: "preserves (keeps_jobs js) (audit_record E act rt rid uid ip det)"
  unfolding audit_record_def Let_def by (intro preserves_intros; simp)

lemma keeps_jobs_services [preserves_intros]:
  "preserves (keeps_jobs js) (storage_save E cat f content)"
  "preserves (keeps_jobs js) (email_send E t a ctx)"
  "preserves (keeps_jobs js) (notif_insert n)"
  "preserves (keeps_jobs js) (mark_sent i now)"
  "preserves (keeps_jobs js) (mark_failed i e)"
  "preserves (keeps_jobs js) (current_notification n)"
  unfolding storage_save_def validate_category_def validate_key_def email_send_def notif_insert_def mark_sent_def
    mark_failed_def notif_get_def put_notification_def current_notification_def Let_def
  by (intro preserves_intros preserves_modify; simp add: keeps_jobs_def)+

lemma keeps_jobs_send [preserves_intros]: "preserves (keeps_jobs js) (notify_send E t uid email ctx rel)"
  unfolding notify_send_def Let_def by (intro preserves_intros; simp)

lemma keeps_jobs_export [preserves_intros]:
  "preserves (keeps_jobs js) (render_and_save E cid sc f)"
  "preserves (keeps_jobs js) (send_export_notification E service uid cid url n until)"
  unfolding render_and_save_def send_export_notification_def
  by (intro preserves_intros; simp split: prod.splits)+

lemma payload_preserves [preserves_intros]: "preserves P (parse_uuid v)" "preserves P (payload_item k p)"
  by (auto simp: preserves_def parse_uuid_def payload_item_def act_simps split: json.splits option.splits)

lemma own_session_keeps_jobs:
  "preserves (keeps_jobs js) m \<Longrightarrow> preserves (\<lambda>s. db_ok (com s) \<and> job_runs (com s) = js) (own_session m)"
  unfolding preserves_def own_session_def
proof (intro allI impI, elim conjE)
  fix s :: session assume m: "\<forall>s. keeps_jobs js s \<longrightarrow> keeps_jobs js (snd (m s))" and "db_ok (com s)" "job_runs (com s) = js"
  then have "keeps_jobs js (snd (m (s\<lparr>cur := com s\<rparr>)))" by (simp add: keeps_jobs_def)
  then show "db_ok (com (snd (case m (s\<lparr>cur := com s\<rparr>) of (r, t) \<Rightarrow> (r, t\<lparr>cur := com t\<rparr>))))
    \<and> job_runs (com (snd (case m (s\<lparr>cur := com s\<rparr>) of (r, t) \<Rightarrow> (r, t\<lparr>cur := com t\<rparr>)))) = js"
    by (simp add: keeps_jobs_def case_prod_beta)
qed

lemma handler_keeps_jobs: "preserves (\<lambda>s. db_ok (com s) \<and> job_runs (com s) = js) (handler_run E service p)"
  unfolding handler_run_def Let_def
  by (intro preserves_intros own_session_keeps_jobs)

interpretation export_worker: job_handlers "api_handlers E" for E
proof
  fix ty h p and s :: session
  assume "api_handlers E ty = Some h" and ok: "db_ok (com s)"
  then have "h = handler_run E False"
    by (simp add: api_handlers_def register_report_export_handler_def register_handler_def split: if_splits)
  with preserves_run [OF handler_keeps_jobs [of "job_runs (com s)" E False p], of s] ok
  show "db_ok (com (snd (h p s))) \<and> job_runs (com (snd (h p s))) = job_runs (com s)" by simp
qed

section \<open>An export made by the handler\<close>

lemma render_and_save_run:
  "render_and_save E cid sc f s = (let R = report_build cid sc (cur s); (filename, content) = render_report E R f;
      k = build_key ''exports'' filename (clock s) (uid_next s); t = s\<lparr>uid_next := Suc (uid_next s)\<rparr> in
    if storage_ok E then (Inr (R, k), t\<lparr>files := AList.update k content (files s)\<rparr>)
    else (Inl (app_err InfraError ''SYS_002''), t))"
  by (simp add: render_and_save_def act_simps storage_save_run Let_def ALLOWED_CATEGORIES_def split: prod.splits)

lemma payload_read:
  "payload_get ''cycle_id'' (export_payload cid sc f uid) = Some (JUuid cid)"
  "payload_get ''user_id'' (export_payload cid sc f uid) = Some (JUuid uid)"
  "payload_get ''scope_org_unit_ids'' (export_payload cid sc f uid) = Some (JArr (map JUuid (sort (remdups (scope_units sc)))))"
  "payload_scope_all (export_payload cid sc f uid) = all_scopes sc"
  "payload_format (export_payload cid sc f uid) = f"
  by (simp_all add: payload_get_def export_payload_def payload_scope_all_def truthy_def payload_format_def format_text_def
      split: export_format.splits)

lemma parse_uuids: "mapA parse_uuid (map JUuid ids) s = (Inr ids, s)"
  by (induction ids) (simp_all add: act_simps parse_uuid_def)

text \<open>The scope that comes out of the payload admits the same units.\<close>

lemma report_same_scope:
  assumes "all_scopes sc = all_scopes sc'" "set (scope_units sc) = set (scope_units sc')"
  shows "report_build cid sc d = report_build cid sc' d"
proof -
  have same: "fetch_org_units sc d = fetch_org_units sc' d" "\<And>i. unit_in_scope i sc = unit_in_scope i sc'"
    using assms by (simp_all add: fetch_org_units_def unit_in_scope_def)
  show ?thesis unfolding report_build_def same ..
qed

lemma handler_export_run:
  fixes cid :: uuid and sc :: report_scope and E :: env and f :: export_format and s :: session
  assumes "store_inv E s"
  defines "R \<equiv> report_build cid sc (com s)"
  defines "k \<equiv> build_key ''exports'' (fst (render_report E R f)) (clock s) (uid_next s)"
  defines "n \<equiv> int (length (rep_rows R))"
  shows "handler_run E False (export_payload cid sc f uid) s =
    (if storage_ok E
     then (Inr (JObj [(''file_url'', JText k), (''expires_at'', JTime (expiry (clock s))), (''row_count'', JInt n)]),
       (let t = recorded E REPORT_EXPORT_COMPLETE ''report_export'' None (Some uid)
          (JObj [(''cycle_id'', JUuid cid), (''row_count'', JInt n), (''storage_key'', JText k)])
          (s\<lparr>cur := com s, uid_next := Suc (uid_next s), files := AList.update k (snd (render_report E R f)) (files s)\<rparr>)
        in t\<lparr>com := cur t\<rparr>))
     else (Inl (app_err InfraError ''SYS_002''), s\<lparr>cur := com s, uid_next := Suc (uid_next s)\<rparr>))"
proof -
  have ok: "db_ok (com s)" using assms(1) by (simp add: store_inv_def)
  have fresh: "seq_fresh (s\<lparr>cur := com s, uid_next := Suc (uid_next s), files := x\<rparr>)" for x
    using seq_fresh_rebase(2) [OF assms(1)] by (simp add: seq_fresh_def)
  have R: "report_build cid \<lparr>scope_user_id = uid, scope_units = sort (remdups (scope_units sc)), all_scopes = all_scopes sc\<rparr> (com s) = R"
    unfolding R_def by (rule report_same_scope) simp_all
  show ?thesis
    by (simp add: handler_run_def payload_item_def payload_read parse_uuids parse_uuid_def coerce_uuid_strings_def act_simps
      render_and_save_run R case_prod_beta k_def [symmetric] n_def [symmetric] Let_def run_audit_record [OF fresh] ok
      recorded_ok [OF fresh] send_export_notification_def)
qed

text \<open>The report does not depend on the jobs.\<close>

lemma report_build_jobs [simp]: "report_build cid sc (d\<lparr>job_runs := js\<rparr>) = report_build cid sc d"
proof -
  have "fetch_org_units sc (d\<lparr>job_runs := js\<rparr>) = fetch_org_units sc d"
    "\<And>ids. fetch_accounts ids (d\<lparr>job_runs := js\<rparr>) = fetch_accounts ids d"
    "budget_latest_by_cycle cid (d\<lparr>job_runs := js\<rparr>) = budget_latest_by_cycle cid d"
    "personnel_latest_by_cycle cid (d\<lparr>job_runs := js\<rparr>) = personnel_latest_by_cycle cid d"
    "shared_latest_by_cycle cid (d\<lparr>job_runs := js\<rparr>) = shared_latest_by_cycle cid d"
    "latest_budget_ts cid (d\<lparr>job_runs := js\<rparr>) = latest_budget_ts cid d"
    "fetch_actuals cid (d\<lparr>job_runs := js\<rparr>) = fetch_actuals cid d"
    by (simp_all add: fetch_org_units_def fetch_accounts_def budget_latest_by_cycle_def personnel_latest_by_cycle_def
      shared_latest_by_cycle_def latest_budget_ts_def fetch_actuals_def latest_by_unit_def)
  then show ?thesis unfolding report_build_def by simp
qed

lemma store_inv_with_jobs:
  assumes "store_inv E s" "map job_id js = map job_id (job_runs (com s))"
  shows "store_inv E (with_jobs js s)"
  using assms by (simp add: store_inv_def chain_inv_def with_jobs_def Let_def db_ok_jobs)

text \<open>One round that finds an export job at the head of the queue.\<close>

lemma export_round:
  assumes inv: "store_inv E s" and "storage_ok E" "next_job (com s) = Some j" "job_type j = ''report_export''"
    and payload: "job_payload j = export_payload cid sc f uid"
  shows "\<exists>t k j'. process_once E (api_handlers E) s = (Inr True, t) \<and> j' \<in> set (job_runs (com t)) \<and> job_id j' = job_id j
    \<and> job_run_status j' = job_succeeded \<and> payload_get ''file_url'' (job_result j') = Some (JText k)
    \<and> fst (storage_read k t) = Inr (snd (render_report E (report_build cid sc (com s)) f))
    \<and> map action (audit_logs (com t)) = map action (audit_logs (com s)) @ [REPORT_EXPORT_COMPLETE]"
proof -
  have ok: "db_ok (com s)" using inv by (simp add: store_inv_def)
  let ?js = "upd_row job_id (job_id j) (started (clock s)) (job_runs (com s))"
  let ?u = "with_jobs ?js s" and ?R = "report_build cid sc (com s)"
  let ?k = "build_key ''exports'' (fst (render_report E ?R f)) (clock s) (uid_next s)"
  have ids: "map job_id ?js = map job_id (job_runs (com s))" by (simp add: upd_row_def started_def)
  have u: "store_inv E ?u" by (rule store_inv_with_jobs [OF inv ids])
  have hd: "api_handlers E (job_type j) = Some (handler_run E False)"
    by (simp add: api_handlers_def register_report_export_handler_def register_handler_def assms(4))
  have plain: "uid_next ?u = uid_next s" "files ?u = files s" by (simp_all add: with_jobs_def Let_def)
  let ?res = "JObj [(''file_url'', JText ?k), (''expires_at'', JTime (expiry (clock s))), (''row_count'', JInt (int (length (rep_rows ?R))))]"
  obtain v where v: "handler_run E False (export_payload cid sc f uid) ?u = (Inr ?res, v)"
    "com v = (com s)\<lparr>job_runs := ?js, audit_logs := audit_logs (com v)\<rparr>" "clock v = clock s"
    "map action (audit_logs (com v)) = map action (audit_logs (com s)) @ [REPORT_EXPORT_COMPLETE]"
    "files v = AList.update ?k (snd (render_report E ?R f)) (files s)"
    using handler_export_run [OF u, of cid sc f uid] assms(2)
    by (simp add: plain Let_def cur_recorded audit_row_def)
  have keep: "db_ok (com v)" "job_runs (com v) = ?js"
    using preserves_run [OF handler_keeps_jobs [of ?js E False "export_payload cid sc f uid"], of ?u] u v(1)
    by (simp_all add: store_inv_def)
  let ?done = "settled E (claim_of j) (Returned ?res) (clock v)"
  let ?t = "with_jobs (upd_row job_id (job_id j) ?done ?js) v"
  have "process_once E (api_handlers E) s = (Inr True, ?t)"
    using settle_job_run [OF keep(1), of E "claim_of j" "Returned ?res"]
    by (simp add: process_once_def act_simps claim_job_run [OF ok] assms(3) claim_of_def hd payload v(1) keep(2))
  moreover have "?done (started (clock s) j) \<in> set (job_runs (com ?t))"
    using next_job_Some [OF assms(3)] by (force simp: upd_row_def started_def)
  moreover have "job_id (?done (started (clock s) j)) = job_id j" "job_run_status (?done (started (clock s) j)) = job_succeeded"
    "payload_get ''file_url'' (job_result (?done (started (clock s) j))) = Some (JText ?k)"
    by (simp_all add: started_def settled_def payload_get_def)
  moreover have "fst (storage_read ?k ?t) = Inr (snd (render_report E ?R f))"
    using build_key_ok [of "''exports''"]
    by (simp add: storage_read_def validate_key_def act_simps with_jobs_def Let_def v(5) update_conv' ALLOWED_CATEGORIES_def)
  moreover have "map action (audit_logs (com ?t)) = map action (audit_logs (com s)) @ [REPORT_EXPORT_COMPLETE]"
    using v(4) by simp
  ultimately show ?thesis by blast
qed

section \<open>What the routes keep\<close>

text \<open>An export request commits nothing.\<close>

lemma com_fixed_basic [preserves_intros]:
  "preserves (\<lambda>s. com s = d) rollback" "preserves (\<lambda>s. com s = d) flush" "preserves (\<lambda>s. com s = d) new_uuid"
  "preserves (\<lambda>s. com s = d) next_sequence_no" "preserves (\<lambda>s. com s = d) (update f)"
  by (auto simp: preserves_def act_simps)

lemma com_fixed_export [preserves_intros]:
  "preserves (\<lambda>s. com s = d) (audit_record E act rt rid uid ip det)"
  "preserves (\<lambda>s. com s = d) (storage_save E cat fname content)"
  "preserves (\<lambda>s. com s = d) (enqueue hs ty p uid)"
  unfolding audit_record_def storage_save_def validate_category_def validate_key_def enqueue_def Let_def
  by (intro preserves_intros preserves_modify; simp)+

lemma com_fixed_start: "preserves (\<lambda>s. com s = d) (start_report_export E cid f u)"
  unfolding start_report_export_def require_role_def export_async_def enqueue_async_def run_sync_def render_and_save_def
    Let_def
  by (intro preserves_intros; simp)

section \<open>Sample\<close>

definition export_job :: job_run where
  "export_job = job0\<lparr>job_payload := export_payload 7 \<lparr>scope_user_id = 51, scope_units = [], all_scopes = True\<rparr> Csv 51\<rparr>"

definition export_db :: db where
  "export_db = report_db\<lparr>job_runs := [export_job]\<rparr>"

lemma export_db_inv: "store_inv env0 (session_of export_db)"
proof -
  have "db_ok export_db" using report_db_ok by (simp add: db_ok_def export_db_def)
  moreover have "audit_logs export_db = []"
    by (simp add: export_db_def report_db_def versions_db_def accounts_db_def org_db_def)
  ultimately show ?thesis by (simp add: store_inv_def chain_inv_def log_ok_def)
qed

lemma export_db_next: "next_job export_db = Some export_job"
  by (simp add: next_job_def export_db_def export_job_def job0_def order_asc_def)

section \<open>Properties\<close>



text \<open>
  Claim C35: the queue empties. A worker with the registered handlers serves every queued job within
  the rounds its remaining attempts allow, whatever the payloads are and whatever the handler
  raises: no job is queued afterwards, each one that was has succeeded or failed, and the
  others are as they were.
\<close>

theorem worker_drains_queue:
  assumes "db_ok (com s)" "rounds_left E (job_runs (com s)) \<le> n"
  shows "\<exists>t. run_worker E (api_handlers E) n s = (Inr (), t) \<and> list_all2 (\<lambda>j j'. job_id j' = job_id j
      \<and> (if job_run_status j = job_queued then job_run_status j' \<in> {job_succeeded, job_failed} else j' = j))
      (job_runs (com s)) (job_runs (com t))"
proof -
  from export_worker.worker_serves [OF assms] obtain t where t: "run_worker E (api_handlers E) n s = (Inr (), t)"
    "list_all2 served (job_runs (com s)) (job_runs (com t))" "\<forall>j \<in> set (job_runs (com t)). job_run_status j \<noteq> job_queued" by blast
  have "list_all2 (\<lambda>j j'. job_id j' = job_id j
      \<and> (if job_run_status j = job_queued then job_run_status j' \<in> {job_succeeded, job_failed} else j' = j))
      (job_runs (com s)) (job_runs (com t))"
    by (rule list.rel_mono_strong [OF t(2)]) (use t(3) in \<open>auto simp: served_def job_finished_def\<close>)
  with t(1) show ?thesis by blast
qed

lemma worker_drains_queue_witness:
  "\<exists>t. run_worker env0 (api_handlers env0) 6 (session_of job_db) = (Inr (), t)
     \<and> (\<forall>j \<in> set (job_runs (com t)). job_run_status j \<noteq> job_queued)"
proof -
  have "rounds_left env0 (job_runs (com (session_of job_db))) \<le> 6"
    by (simp add: rounds_left_def job_rounds_def job_db_def job0_def)
  from worker_drains_queue [OF _ this] job_db_ok show ?thesis
    by (auto simp: job_db_def job0_def list_all2_Cons1)
qed

text \<open>
  An exported file can never be fetched. The download route asks for a job whose
  status is \<open>completed\<close>, which no job ever has: the answer is \<open>RBAC_001\<close> to a user without a
  report role, \<open>UPLOAD_008\<close> for an unknown job, and \<open>REPORT_001\<close> for every job there is, the
  succeeded ones included.
\<close>

theorem export_never_downloaded:
  "fst (download_export_file i u s) =
     Inl (if set (role_set u) \<inter> set report_roles = {} then app_err ForbiddenError ''RBAC_001''
          else if i \<notin> job_id ` set (job_runs (com s)) then app_err NotFoundError ''UPLOAD_008''
          else app_err NotFoundError ''REPORT_001'')"
proof -
  have "job_status_text st \<noteq> ''completed''" for st by (cases st) (simp_all add: job_status_text_def)
  moreover have "get_row job_id i (job_runs (com s)) = None \<longleftrightarrow> i \<notin> job_id ` set (job_runs (com s))"
    by (auto simp: get_row_def find_None_iff)
  ultimately show ?thesis
    unfolding download_export_file_def role_session
    by (auto simp: get_session_simp get_status_def act_simps app_error_init_def split: option.splits)
qed

text \<open>
  An export that is to be made later is forgotten. The route answers a user who sees every
  unit with 202 and a job identifier, but ends without a commit: the database is unchanged, no
  worker will find the job, and asking for its status answers \<open>UPLOAD_008\<close>.
\<close>

theorem async_export_lost:
  assumes "store_inv E s" "set (role_set u) \<inter> set report_roles \<noteq> {}" "all_scopes (resolve_scope u (com s))"
    and "\<forall>j \<in> set (job_runs (com s)). job_id j < uid_next s"
  shows "\<exists>r t i. start_report_export E cid f u s = (Inr (202, r), t) \<and> er_job_id r = Some i \<and> com t = com s
    \<and> fst (get_export_status i u t) = Inl (app_err NotFoundError ''UPLOAD_008'')"
proof -
  have hd: "api_handlers E ''report_export'' = Some (handler_run E False)"
    by (simp add: api_handlers_def register_report_export_handler_def register_handler_def)
  have ok: "db_ok (com s)" using assms(1) by (simp add: store_inv_def)
  have new: "uid_next s \<notin> job_id ` set (job_runs (com s))" using assms(4) by auto
  then have job_ok: "db_ok ((com s)\<lparr>job_runs := job_runs (com s) @ [j]\<rparr>)" if "job_id j = uid_next s" for j
    using ok that by (auto simp: db_ok_def)
  have fresh: "seq_fresh (s\<lparr>uid_next := i, cur := (com s)\<lparr>job_runs := js\<rparr>\<rparr>)" for js i
    using seq_fresh_rebase(2) [OF assms(1)] by (simp add: seq_fresh_def)
  obtain r t where run: "start_report_export E cid f u s = (Inr (202, r), t)" "er_job_id r = Some (uid_next s)"
    unfolding start_report_export_def role_session if_not_P [OF assms(2)]
    using hd by (auto simp: get_session_simp export_async_def enqueue_async_def enqueue_def act_simps assms(3) job_ok
        run_audit_record [OF fresh])
  have com: "com t = com s" using preserves_run [OF com_fixed_start [of "com s" E cid f u], of s] run(1) by simp
  have "fst (get_export_status (uid_next s) u t) = Inl (app_err NotFoundError ''UPLOAD_008'')"
    unfolding get_export_status_def role_session if_not_P [OF assms(2)]
    using assms(4) by (auto simp: get_session_simp get_status_def act_simps com app_error_init_def get_row_def find_None_iff split: option.splits)
  with run com show ?thesis by blast
qed

lemma async_export_lost_witness:
  "\<exists>r t. start_report_export env0 7 Csv admin0 (session_of report_db) = (Inr (202, r), t) \<and> job_runs (com t) = []"
proof -
  have "store_inv env0 (session_of report_db)"
    using report_db_ok by (simp add: store_inv_def chain_inv_def log_ok_def report_db_def versions_db_def accounts_db_def org_db_def)
  moreover have "set (role_set admin0) \<inter> set report_roles \<noteq> {}" "all_scopes (resolve_scope admin0 (com (session_of report_db)))"
    by (auto simp: report_roles_def resolve_scope_def scoped_org_units_def global_roles_def)
  moreover have "job_runs report_db = []"
    by (simp add: report_db_def versions_db_def accounts_db_def org_db_def)
  ultimately show ?thesis
    using async_export_lost [where E = env0 and s = "session_of report_db" and u = admin0 and cid = 7 and f = Csv] by fastforce
qed

end
