(* ===== verification/Templates.thy ===== *)
theory Templates
  imports Budget_Uploads
begin

text \<open>
  \<^verbatim>\<open>domain/templates/\<close> and \<^verbatim>\<open>api/v1/templates.py\<close>: the workbook that is generated for a filing
  unit, its row and file, one unit's failure kept from the others, and the download. That
  openpyxl refuses texts with control characters is not modelled. The claims: what is
  generated is what is downloaded, and what the upload accepts once it is filled in.
\<close>

section \<open>The workbook\<close>

text \<open>\<open>date.isoformat()\<close> of a day number (day 1 is 0001-01-01).\<close>

definition date_text :: "day \<Rightarrow> pystr" where
  "date_text n = (let z = n + 305; era = z div 146097; doe = z - era * 146097;
      yoe = (doe - doe div 1460 + doe div 36524 - doe div 146096) div 365;
      doy = doe - (365 * yoe + yoe div 4 - yoe div 100);
      mp = (5 * doy + 2) div 153;
      m = (if mp < 10 then mp + 3 else mp - 9);
      y = yoe + era * 400 + (if m \<le> 2 then 1 else 0)
    in zero_padded 4 y @ [45] @ zero_padded 2 m @ [45] @ zero_padded 2 (doy - (153 * mp + 2) div 5 + 1))"

definition ACCOUNT_COLUMNS :: "pystr list" where
  "ACCOUNT_COLUMNS = [str ''account_code'', str ''account_name'', str ''prior_actual'', str ''budget_amount'']"

definition header_sheet :: "budget_cycle \<Rightarrow> org_unit \<Rightarrow> cell list list" where
  "header_sheet c w = [[Cell_None, Cell_None],
     [Cell_Str (str ''dept_code''), Cell_Str (ou_code w)],
     [Cell_Str (str ''dept_name''), Cell_Str (ou_name w)],
     [Cell_Str (str ''fiscal_year''), Cell_Int (fiscal_year c)],
     [Cell_Str (str ''deadline''), Cell_Str (date_text (deadline c))],
     [Cell_Str (str ''currency''), Cell_Str (reporting_currency c)]]"

definition prior_text :: "(uuid, cents) dict \<Rightarrow> uuid \<Rightarrow> pystr" where
  "prior_text actuals i = (case map_of actuals i of None \<Rightarrow> str ''0'' | Some x \<Rightarrow> cents_text x)"

definition accounts_sheet :: "account_code list \<Rightarrow> (uuid, cents) dict \<Rightarrow> cell list list" where
  "accounts_sheet accounts actuals = map Cell_Str ACCOUNT_COLUMNS
     # map (\<lambda>a. [Cell_Str (ac_code a), Cell_Str (ac_name a), Cell_Str (prior_text actuals (ac_id a)), Cell_None])
         (filter (\<lambda>a. category a = operational) accounts)"

definition template_book :: "budget_cycle \<Rightarrow> org_unit \<Rightarrow> account_code list \<Rightarrow> (uuid, cents) dict \<Rightarrow> workbook" where
  "template_book c w accounts actuals = \<lparr>sheets = [(str ''header'', header_sheet c w),
     (str ''accounts'', accounts_sheet accounts actuals)], active_sheet = Some (str ''header'')\<rparr>"

definition build_template_workbook :: "env \<Rightarrow> budget_cycle \<Rightarrow> org_unit \<Rightarrow> account_code list \<Rightarrow> (uuid, cents) dict \<Rightarrow> bytes" where
  "build_template_workbook E c w accounts actuals = save_workbook E (template_book c w accounts actuals)"

section \<open>The repository\<close>

definition fetch_template :: "uuid \<Rightarrow> uuid \<Rightarrow> db \<Rightarrow> excel_template option" where
  "fetch_template cid i d = find (\<lambda>t. et_cycle_id t = cid \<and> et_org_unit_id t = i) (excel_templates d)"

text \<open>\<open>fetch_actuals\<close>: the actual amounts of one unit by account.\<close>

definition unit_actuals :: "uuid \<Rightarrow> uuid \<Rightarrow> db \<Rightarrow> (uuid, cents) dict" where
  "unit_actuals cid i d = dict_of (map (\<lambda>a. (ae_account_code_id a, ae_amount a))
     (filter (\<lambda>a. ae_cycle_id a = cid \<and> ae_org_unit_id a = i) (actual_expenses d)))"

definition delete_template :: "uuid \<Rightarrow> uuid \<Rightarrow> unit op" where
  "delete_template cid i = update (\<lambda>d. d\<lparr>excel_templates :=
     filter (\<lambda>t. \<not> (et_cycle_id t = cid \<and> et_org_unit_id t = i)) (excel_templates d)\<rparr>)"

definition upsert_generated_row :: "env \<Rightarrow> uuid \<Rightarrow> uuid \<Rightarrow> pystr \<Rightarrow> user \<Rightarrow> excel_template op" where
  "upsert_generated_row E cid unit_id storage_key u =
     sq (delete_template cid unit_id)
    (bnd now_utc (\<lambda>now.
     bnd (encrypt_field E (utf8_encode storage_key)) (\<lambda>path.
     bnd new_uuid (\<lambda>i.
       let row = \<lparr>et_id = i, et_cycle_id = cid, et_org_unit_id = unit_id, et_file_path_enc = path, et_generated_at = now,
             et_generated_by = user_id u, download_count = 0, generation_error = None\<rparr> in
       sq (update (\<lambda>d. d\<lparr>excel_templates := excel_templates d @ [row]\<rparr>))
      (sq flush (ret row))))))"

definition upsert_error_row :: "env \<Rightarrow> uuid \<Rightarrow> uuid \<Rightarrow> user \<Rightarrow> exn \<Rightarrow> excel_template op" where
  "upsert_error_row E cid unit_id u e =
     sq (delete_template cid unit_id)
    (bnd now_utc (\<lambda>now.
     bnd (encrypt_field E (str ''<error>'')) (\<lambda>path.
     bnd new_uuid (\<lambda>i.
       let row = \<lparr>et_id = i, et_cycle_id = cid, et_org_unit_id = unit_id, et_file_path_enc = path, et_generated_at = now,
             et_generated_by = user_id u, download_count = 0, generation_error = Some e\<rparr> in
       sq (update (\<lambda>d. d\<lparr>excel_templates := excel_templates d @ [row]\<rparr>))
      (sq flush (ret row))))))"

section \<open>TemplateService\<close>

record template_result =
  tr_unit_id :: uuid
  tr_generated :: bool
  tr_error :: "exn option"
  tr_template_id :: "uuid option"

definition load_operational_accounts :: "db \<Rightarrow> account_code list" where
  "load_operational_accounts d = order_asc ac_code (filter (\<lambda>a. category a = operational) (account_codes d))"

definition template_filename :: "org_unit \<Rightarrow> budget_cycle \<Rightarrow> pystr" where
  "template_filename w c = ou_code w @ [95] @ int_text (fiscal_year c) @ str ''_budget_template.xlsx''"

definition persist_error_result :: "env \<Rightarrow> budget_cycle \<Rightarrow> org_unit \<Rightarrow> user \<Rightarrow> exn \<Rightarrow> template_result op" where
  "persist_error_result E c w u e =
     bnd (catch (bnd (upsert_error_row E (cycle_id c) (ou_id w) u e) (\<lambda>t. sq commit (ret (Some (et_id t)))))
       (\<lambda>_. sq rollback (ret None))) (\<lambda>i.
     ret \<lparr>tr_unit_id = ou_id w, tr_generated = False, tr_error = Some e, tr_template_id = i\<rparr>)"

definition generate_single_unit :: "env \<Rightarrow> budget_cycle \<Rightarrow> org_unit \<Rightarrow> account_code list \<Rightarrow> user \<Rightarrow> template_result op" where
  "generate_single_unit E c w accounts u = catch
     (bnd (query (unit_actuals (cycle_id c) (ou_id w))) (\<lambda>actuals.
        let content = build_template_workbook E c w accounts actuals; filename = template_filename w c in
        bnd (storage_save E ''templates'' filename content) (\<lambda>storage_key.
        bnd (upsert_generated_row E (cycle_id c) (ou_id w) storage_key u) (\<lambda>t.
        sq (commit_audited E TEMPLATE_GENERATE ''excel_template'' (Some (et_id t)) (Some (user_id u))
              (JObj [(''cycle_id'', JUuid (cycle_id c)), (''org_unit_id'', JUuid (ou_id w)),
                (''org_unit_code'', JText (ou_code w)), (''filename'', JText filename)]))
           (ret \<lparr>tr_unit_id = ou_id w, tr_generated = True, tr_error = None, tr_template_id = Some (et_id t)\<rparr>)))))
     (\<lambda>e. sq rollback (persist_error_result E c w u e))"

definition generate_for_cycle :: "env \<Rightarrow> budget_cycle \<Rightarrow> org_unit list \<Rightarrow> user \<Rightarrow> template_result list op" where
  "generate_for_cycle E c units u = bnd (query load_operational_accounts) (\<lambda>accounts.
     mapA (\<lambda>w. generate_single_unit E c w accounts u) units)"

definition regenerate :: "env \<Rightarrow> budget_cycle \<Rightarrow> org_unit \<Rightarrow> user \<Rightarrow> template_result op" where
  "regenerate E c w u = bnd (query load_operational_accounts) (\<lambda>accounts. generate_single_unit E c w accounts u)"

definition template_download :: "env \<Rightarrow> uuid \<Rightarrow> uuid \<Rightarrow> user \<Rightarrow> (pystr \<times> bytes) op" where
  "template_download E cid unit_id u =
     sq (assert_scope u unit_id)
    (bnd (query (fetch_template cid unit_id)) (\<lambda>t. case t of
       None \<Rightarrow> raise (app_err NotFoundError ''TPL_002'')
     | Some t \<Rightarrow>
        sq (check (generation_error t = None) (app_err NotFoundError ''TPL_002''))
       (bnd (lift (decrypt_field E (et_file_path_enc t))) (\<lambda>key_bytes.
        bnd (case utf8_decode key_bytes of None \<Rightarrow> raise Value_error | Some k \<Rightarrow> ret k) (\<lambda>storage_key.
        bnd (storage_read storage_key) (\<lambda>content.
        sq (update (\<lambda>d. d\<lparr>excel_templates :=
              upd_row et_id (et_id t) (\<lambda>r. r\<lparr>download_count := download_count r + 1\<rparr>) (excel_templates d)\<rparr>))
       (sq (commit_audited E TEMPLATE_DOWNLOAD ''excel_template'' (Some (et_id t)) (Some (user_id u))
              (JObj [(''cycle_id'', JUuid cid), (''org_unit_id'', JUuid unit_id),
                (''download_count'', JInt (download_count t + 1))]))
       (bnd (query (\<lambda>d. (get_row ou_id unit_id (org_units d), get_row cycle_id cid (budget_cycles d)))) (\<lambda>parents.
        case parents of
          (Some w, Some c) \<Rightarrow> ret (template_filename w c, content)
        | _ \<Rightarrow> raise (app_err NotFoundError ''TPL_002''))))))))))"

section \<open>The routes\<close>

definition regenerate_template :: "env \<Rightarrow> uuid \<Rightarrow> uuid \<Rightarrow> user \<Rightarrow> template_result op" where
  "regenerate_template E cid unit_id u = get_session (bnd (require_role [FinanceAdmin, SystemAdmin] u) (\<lambda>u.
     bnd (query (\<lambda>d. (get_row cycle_id cid (budget_cycles d), get_row ou_id unit_id (org_units d)))) (\<lambda>parents.
     case parents of
       (Some c, Some w) \<Rightarrow> regenerate E c w u
     | _ \<Rightarrow> raise (app_err NotFoundError ''TPL_002''))))"

definition download_template :: "env \<Rightarrow> uuid \<Rightarrow> uuid \<Rightarrow> user \<Rightarrow> (pystr \<times> bytes) op" where
  "download_template E cid unit_id u = get_session (bnd (require_role [SystemAdmin, FinanceAdmin, HRAdmin, UplineReviewer,
     FilingUnitManager, CompanyReviewer] u) (template_download E cid unit_id))"

section \<open>What a generation does\<close>

definition template_key :: "budget_cycle \<Rightarrow> org_unit \<Rightarrow> session \<Rightarrow> pystr" where
  "template_key c w s = build_key ''templates'' (template_filename w c) (clock s) (uid_next s)"

definition new_template :: "env \<Rightarrow> budget_cycle \<Rightarrow> org_unit \<Rightarrow> user \<Rightarrow> bytes \<Rightarrow> exn option \<Rightarrow> session \<Rightarrow> excel_template" where
  "new_template E c w u path e s = \<lparr>et_id = uid_next s + 2, et_cycle_id = cycle_id c, et_org_unit_id = ou_id w,
     et_file_path_enc = envelope E (uid_next s + 1) path, et_generated_at = clock s, et_generated_by = user_id u,
     download_count = 0, generation_error = e\<rparr>"

definition with_template :: "excel_template \<Rightarrow> db \<Rightarrow> db" where
  "with_template t d = d\<lparr>excel_templates := filter (\<lambda>r. \<not> (et_cycle_id r = et_cycle_id t \<and> et_org_unit_id r = et_org_unit_id t))
     (excel_templates d) @ [t]\<rparr>"

lemma with_template_ok: "db_ok (with_template t d) \<longleftrightarrow>
    db_ok (d\<lparr>excel_templates := filter (\<lambda>r. \<not> (et_cycle_id r = et_cycle_id t \<and> et_org_unit_id r = et_org_unit_id t)) (excel_templates d)\<rparr>)"
  by (auto simp: db_ok_def with_template_def templates_ok_def)

lemma with_template_keeps_ok: "db_ok d \<Longrightarrow> db_ok (with_template t d)"
  by (simp add: with_template_ok) (simp add: db_ok_def templates_ok_def distinct_map_filter)

lemma with_template_tables [simp]:
  "org_units (with_template t d) = org_units d" "users (with_template t d) = users d"
  "budget_cycles (with_template t d) = budget_cycles d" "account_codes (with_template t d) = account_codes d"
  "actual_expenses (with_template t d) = actual_expenses d" "audit_logs (with_template t d) = audit_logs d"
  by (simp_all add: with_template_def)

lemma upsert_run:
  assumes "db_ok (cur s)"
  shows "upsert_generated_row E (cycle_id c) (ou_id w) k u (s\<lparr>uid_next := Suc (uid_next s), files := fs\<rparr>) =
      (let t = new_template E c w u (utf8_encode k) None s in
        (Inr t, s\<lparr>uid_next := uid_next s + 3, files := fs, cur := with_template t (cur s)\<rparr>))"
    and "upsert_error_row E (cycle_id c) (ou_id w) u e (s\<lparr>uid_next := Suc (uid_next s)\<rparr>) =
      (let t = new_template E c w u (str ''<error>'') (Some e) s in
        (Inr t, s\<lparr>uid_next := uid_next s + 3, cur := with_template t (cur s)\<rparr>))"
  using with_template_keeps_ok [OF assms, of "new_template E c w u (utf8_encode k) None s"]
    with_template_keeps_ok [OF assms, of "new_template E c w u (str ''<error>'') (Some e) s"]
  by (simp_all add: upsert_generated_row_def upsert_error_row_def delete_template_def act_simps encrypt_field_envelope
      new_template_def with_template_def Let_def)

text \<open>One unit: generated when the storage takes the file, an error row otherwise; it never raises.\<close>

lemma generate_single_run:
  assumes "seq_fresh s" "db_ok (cur s)" "cur s = com s"
  shows "generate_single_unit E c w accounts u s =
    (if storage_ok E
     then let k = template_key c w s; t = new_template E c w u (utf8_encode k) None s;
         content = build_template_workbook E c w accounts (unit_actuals (cycle_id c) (ou_id w) (cur s)) in
       (Inr \<lparr>tr_unit_id = ou_id w, tr_generated = True, tr_error = None, tr_template_id = Some (et_id t)\<rparr>,
        audited E TEMPLATE_GENERATE ''excel_template'' (Some (et_id t)) (Some (user_id u))
          (JObj [(''cycle_id'', JUuid (cycle_id c)), (''org_unit_id'', JUuid (ou_id w)),
            (''org_unit_code'', JText (ou_code w)), (''filename'', JText (template_filename w c))])
          (s\<lparr>uid_next := uid_next s + 3, files := AList.update k content (files s), cur := with_template t (cur s)\<rparr>))
     else let e = app_err InfraError ''SYS_002''; t = new_template E c w u (str ''<error>'') (Some e) s in
       (Inr \<lparr>tr_unit_id = ou_id w, tr_generated = False, tr_error = Some e, tr_template_id = Some (et_id t)\<rparr>,
        s\<lparr>uid_next := uid_next s + 3, cur := with_template t (cur s), com := with_template t (cur s)\<rparr>))"
proof -
  have fresh: "seq_fresh (s\<lparr>uid_next := n, files := fs, cur := with_template t (cur s)\<rparr>)" for n fs t
    using assms(1) by (simp add: seq_fresh_def)
  have cat: "''templates'' \<in> set ALLOWED_CATEGORIES" by (simp add: ALLOWED_CATEGORIES_def)
  have based: "s\<lparr>uid_next := n, cur := com s\<rparr> = s\<lparr>uid_next := n\<rparr>" for n
    using assms(3) by (metis (mono_tags) session.surjective session.update_convs(1,4))
  show ?thesis
    by (simp add: generate_single_unit_def act_simps storage_save_run cat Let_def upsert_run [OF assms(2)]
        run_commit_audited [OF fresh] with_template_keeps_ok [OF assms(2)] template_key_def persist_error_result_def based)
qed

section \<open>All units\<close>

lemma find_replaced: "P t \<Longrightarrow> find P (filter (\<lambda>r. \<not> P r) xs @ [t]) = Some t"
  by (induction xs) simp_all

lemma find_kept: "(\<And>r. Q r \<Longrightarrow> \<not> P r) \<Longrightarrow> \<not> P t \<Longrightarrow> find P (filter (\<lambda>r. \<not> Q r) xs @ [t]) = find P xs"
  by (induction xs) auto

lemma fetch_with_template:
  "fetch_template cid i (with_template t d) =
     (if et_cycle_id t = cid \<and> et_org_unit_id t = i then Some t else fetch_template cid i d)"
proof (cases "et_cycle_id t = cid \<and> et_org_unit_id t = i")
  case True
  then show ?thesis
    using find_replaced [of "\<lambda>r. et_cycle_id r = cid \<and> et_org_unit_id r = i" t] by (simp add: fetch_template_def with_template_def)
next
  case False
  then have "find (\<lambda>r. et_cycle_id r = cid \<and> et_org_unit_id r = i) (filter (\<lambda>r. \<not> (et_cycle_id r = et_cycle_id t
      \<and> et_org_unit_id r = et_org_unit_id t)) (excel_templates d) @ [t])
    = find (\<lambda>r. et_cycle_id r = cid \<and> et_org_unit_id r = i) (excel_templates d)"
    by (intro find_kept) auto
  then show ?thesis unfolding if_not_P [OF False] by (simp add: fetch_template_def with_template_def)
qed

lemma fetch_template_log [simp]: "fetch_template cid i (d\<lparr>audit_logs := ls\<rparr>) = fetch_template cid i d"
  by (simp add: fetch_template_def)

text \<open>What one generation leaves, in the form the loop hands on.\<close>

lemma generate_single_step:
  assumes "store_inv E s" "cur s = com s"
  shows "\<exists>r t x. generate_single_unit E c w accounts u s = (Inr r, t) \<and> tr_unit_id r = ou_id w \<and> tr_generated r = storage_ok E
    \<and> tr_template_id r = Some (et_id x) \<and> cur t = com t
    \<and> com t = (with_template x (com s))\<lparr>audit_logs := audit_logs (com t)\<rparr>
    \<and> et_cycle_id x = cycle_id c \<and> et_org_unit_id x = ou_id w \<and> download_count x = 0 \<and> (generation_error x = None \<longleftrightarrow> storage_ok E)"
proof -
  have "seq_fresh s" "db_ok (cur s)" using assms by (simp_all add: seq_fresh_based) (simp add: store_inv_def)
  note run = generate_single_run [OF this assms(2), of E c w accounts u]
  show ?thesis
  proof (cases "storage_ok E")
    case True
    then show ?thesis unfolding run
      by (auto simp: Let_def assms(2) new_template_def cur_audited intro!: exI [of _ "new_template E c w u (utf8_encode (template_key c w s)) None s"])
  next
    case False
    then show ?thesis unfolding run
      by (auto simp: Let_def assms(2) new_template_def app_error_init_def
          intro!: exI [of _ "new_template E c w u (str ''<error>'') (Some (app_err InfraError ''SYS_002'')) s"])
  qed
qed

context audited_inv
begin

lemma kept_templates [preserves_intros]:
  "preserves P (upsert_generated_row E' cid i k u)"
  "preserves P (upsert_error_row E' cid i u e)"
  unfolding upsert_generated_row_def upsert_error_row_def delete_template_def Let_def
  by (intro preserves_intros; simp)+

lemma kept_generate [preserves_intros]:
  "preserves P (persist_error_result E c w u e)"
  "preserves P (generate_single_unit E c w accounts u)"
  unfolding persist_error_result_def generate_single_unit_def Let_def persist_error_result_def
  by (intro preserves_intros; simp)+

end

definition fresh_template :: "env \<Rightarrow> uuid \<Rightarrow> uuid \<Rightarrow> db \<Rightarrow> bool" where
  "fresh_template E cid i d \<longleftrightarrow> (case fetch_template cid i d of None \<Rightarrow> False
     | Some x \<Rightarrow> download_count x = 0 \<and> (generation_error x = None \<longleftrightarrow> storage_ok E))"

lemma generate_all:
  "store_inv E s \<Longrightarrow> cur s = com s \<Longrightarrow>
    \<exists>rs t. mapA (\<lambda>w. generate_single_unit E c w accounts u) units s = (Inr rs, t) \<and> store_inv E t \<and> cur t = com t
      \<and> map tr_unit_id rs = map ou_id units \<and> (\<forall>r \<in> set rs. tr_generated r = storage_ok E)
      \<and> com t = (com s)\<lparr>excel_templates := excel_templates (com t), audit_logs := audit_logs (com t)\<rparr>
      \<and> (\<forall>w \<in> set units. fresh_template E (cycle_id c) (ou_id w) (com t))
      \<and> (\<forall>cid i. cid \<noteq> cycle_id c \<or> i \<notin> ou_id ` set units \<longrightarrow> fetch_template cid i (com t) = fetch_template cid i (com s))"
proof (induction units arbitrary: s)
  case Nil
  then show ?case by (simp add: act_simps)
next
  case (Cons w units)
  from generate_single_step [OF Cons.prems, of c w accounts u] obtain r v x where
    v: "generate_single_unit E c w accounts u s = (Inr r, v)" "tr_unit_id r = ou_id w" "tr_generated r = storage_ok E" "cur v = com v"
      "com v = (with_template x (com s))\<lparr>audit_logs := audit_logs (com v)\<rparr>"
    and x: "et_cycle_id x = cycle_id c" "et_org_unit_id x = ou_id w" "download_count x = 0" "generation_error x = None \<longleftrightarrow> storage_ok E"
    by (elim exE conjE) (rule that)
  have "store_inv E v" using store_inv_run [OF stored.kept_generate(2) Cons.prems(1)] v(1) by (metis snd_conv)
  from Cons.IH [OF this v(4)] obtain rs t where
    t: "mapA (\<lambda>w. generate_single_unit E c w accounts u) units v = (Inr rs, t)" "store_inv E t" "cur t = com t"
      "map tr_unit_id rs = map ou_id units" "\<forall>r \<in> set rs. tr_generated r = storage_ok E"
      "com t = (com v)\<lparr>excel_templates := excel_templates (com t), audit_logs := audit_logs (com t)\<rparr>"
      "\<forall>w \<in> set units. fresh_template E (cycle_id c) (ou_id w) (com t)"
    and rest: "\<And>cid i. cid \<noteq> cycle_id c \<or> i \<notin> ou_id ` set units \<Longrightarrow> fetch_template cid i (com t) = fetch_template cid i (com v)"
    by blast
  have fetch: "fetch_template cid i (com v) = (if cid = cycle_id c \<and> i = ou_id w then Some x else fetch_template cid i (com s))" for cid i
    by (subst v(5)) (auto simp: fetch_with_template x)
  have "fresh_template E (cycle_id c) (ou_id w) (com t)"
  proof (cases "ou_id w \<in> ou_id ` set units")
    case True
    then obtain w' where "w' \<in> set units" "ou_id w' = ou_id w" by force
    with t(7) show ?thesis by (metis (no_types))
  next
    case False
    with rest [of "cycle_id c" "ou_id w"] show ?thesis by (simp add: fresh_template_def fetch x)
  qed
  moreover have "com t = (com s)\<lparr>excel_templates := excel_templates (com t), audit_logs := audit_logs (com t)\<rparr>"
    by (subst t(6), subst v(5)) (simp add: with_template_def)
  moreover have "fetch_template cid i (com t) = fetch_template cid i (com s)"
    if "cid \<noteq> cycle_id c \<or> i \<notin> ou_id ` set (w # units)" for cid i
    using that rest [of cid i] by (auto simp: fetch)
  ultimately show ?case
    using t v(1-3) by (intro exI [of _ "r # rs"] exI [of _ t]) (simp add: act_simps)
qed

section \<open>Reading back\<close>

text \<open>What AES-GCM promises: a 12-byte nonce, a 16-byte tag, and its own output decrypts.\<close>

definition cipher_ok :: "env \<Rightarrow> bool" where
  "cipher_ok E \<longleftrightarrow> ascii_bytes (crypto_key_id (cfg E)) \<and> length (crypto_key_id (cfg E)) < 65536 \<and> (\<forall>i. length (nonce E i) = 12)
     \<and> (\<forall>n p. aes_decrypt E (crypto_key (cfg E)) n (aes_encrypt E (crypto_key (cfg E)) n p) = Some p
        \<and> 16 \<le> length (aes_encrypt E (crypto_key (cfg E)) n p))"

lemma cipher_env0: "cipher_ok env0"
  by (simp add: cipher_ok_def ascii_bytes_def)

lemma decrypt_envelope: "cipher_ok E \<Longrightarrow> decrypt_field E (envelope E i p) = Inr p"
proof -
  assume law: "cipher_ok E"
  let ?id = "crypto_key_id (cfg E)" and ?ct = "aes_encrypt E (crypto_key (cfg E)) (nonce E i) p"
  from law have n: "length (nonce E i) = 12" "length ?id < 65536" "ascii_bytes ?id" "16 \<le> length ?ct"
    "aes_decrypt E (crypto_key (cfg E)) (nonce E i) ?ct = Some p" by (simp_all add: cipher_ok_def)
  define pre where "pre = [length ?id div 256, length ?id mod 256] @ ?id @ nonce E i"
  have env: "envelope E i p = pre @ ?ct" "length pre = 2 + length ?id + 12" by (simp_all add: envelope_def pre_def n)
  have len: "envelope E i p ! 0 * 256 + envelope E i p ! 1 = length ?id" by (simp add: envelope_def)
  have "drop (length pre) (pre @ ?ct) = ?ct" by simp
  then have parts: "drop (2 + length ?id + 12) (envelope E i p) = ?ct" unfolding env .
  have parts': "take (length ?id) (drop 2 (envelope E i p)) = ?id" "take 12 (drop (2 + length ?id) (envelope E i p)) = nonce E i"
    by (simp_all add: envelope_def n)
  have long: "\<not> length (envelope E i p) < 2 + length ?id + 12 + 16" "\<not> length (envelope E i p) < 2" using env n by simp_all
  show ?thesis
    by (simp only: decrypt_field_def len Let_def long if_False parts parts' n) (simp add: load_aes_key_def n)
qed

lemma build_key_text:
  assumes "cat \<in> set ALLOWED_CATEGORIES"
  shows "list_all scalar_value (build_key cat f now i)"
proof -
  have digits: "list_all scalar_value (zero_padded n k)" for n k
    by (auto simp: zero_padded_def int_text_def Let_def scalar_value_def list_all_iff dest!: nat_text_digits)
  have "list_all scalar_value (hex32 i)" using hex32_chars [of _ i] by (fastforce simp: list_all_iff scalar_value_def)
  moreover have "list_all scalar_value (sanitize_filename f)"
    using set_sanitize [of f] by (fastforce simp: list_all_iff scalar_value_def safe_char_def)
  moreover have "list_all scalar_value (str cat)"
    using assms by (auto simp: ALLOWED_CATEGORIES_def scalar_value_def)
  ultimately show ?thesis
    using digits by (simp add: build_key_def scalar_value_def split: prod.splits)
qed

section \<open>Filling in a template\<close>

text \<open>The workbook as a manager returns it: an amount in the fourth column of every account row.\<close>

definition filled_row :: "(uuid, cents) dict \<Rightarrow> (pystr \<Rightarrow> cell) \<Rightarrow> account_code \<Rightarrow> cell list" where
  "filled_row actuals amounts a =
     [Cell_Str (ac_code a), Cell_Str (ac_name a), Cell_Str (prior_text actuals (ac_id a)), amounts (ac_code a)]"

definition filled_book :: "budget_cycle \<Rightarrow> org_unit \<Rightarrow> account_code list \<Rightarrow> (uuid, cents) dict \<Rightarrow> (pystr \<Rightarrow> cell) \<Rightarrow> workbook" where
  "filled_book c w accounts actuals amounts = \<lparr>sheets = [(str ''header'', header_sheet c w),
     (str ''accounts'', map Cell_Str ACCOUNT_COLUMNS # map (filled_row actuals amounts) (filter (\<lambda>a. category a = operational) accounts))],
     active_sheet = Some (str ''header'')\<rparr>"

lemma unfilled: "filled_book c w accounts actuals (\<lambda>_. Cell_None) = template_book c w accounts actuals"
  by (simp add: filled_book_def template_book_def accounts_sheet_def filled_row_def)

definition filled_raw :: "(uuid, cents) dict \<Rightarrow> (pystr \<Rightarrow> cell) \<Rightarrow> account_code \<Rightarrow> raw_row" where
  "filled_raw actuals amounts a = zip ACCOUNT_COLUMNS (filled_row actuals amounts a)"

lemma read_filled_row:
  "dict_of (map (\<lambda>(idx, h). (h, if idx < length (filled_row actuals amounts a) then filled_row actuals amounts a ! idx else Cell_None))
     (zip [0..<length ACCOUNT_COLUMNS] ACCOUNT_COLUMNS)) = filled_raw actuals amounts a"
  by (simp add: filled_row_def filled_raw_def ACCOUNT_COLUMNS_def dict_of_def upt_rec)

lemma read_filled:
  assumes "\<forall>a \<in> set accounts. category a = operational \<and> strip (ac_code a) \<noteq> []"
  shows "read_rows (filled_book c w accounts actuals amounts) (Some (str ''accounts'')) 1
    = Inr (map (filled_raw actuals amounts) accounts)"
proof -
  have ops: "filter (\<lambda>a. category a = operational) accounts = accounts" using assms by (simp add: filter_id_conv)
  have grid: "map_of (sheets (filled_book c w accounts actuals amounts)) (str ''accounts'')
      = Some (map Cell_Str ACCOUNT_COLUMNS # map (filled_row actuals amounts) accounts)"
    by (simp add: filled_book_def ops)
  have headers: "header_names (map Cell_Str ACCOUNT_COLUMNS) = ACCOUNT_COLUMNS"
    by (simp add: header_names_def ACCOUNT_COLUMNS_def cell_text_def upt_rec del: str_simps)
  have rows: "filter (\<lambda>row. \<not> list_all empty_cell row) (map (filled_row actuals amounts) accounts) = map (filled_row actuals amounts) accounts"
    using assms by (auto simp: filter_id_conv filled_row_def empty_cell_def)
  show ?thesis
    by (simp only: read_rows_def resolve_sheet_def option.case grid sum.case Let_def) (simp add: headers rows read_filled_row [simplified])
qed

lemma filled_dept: "read_dept_code (filled_book c w accounts actuals amounts) = Cell_Str (ou_code w)"
  by (simp add: read_dept_code_def filled_book_def header_sheet_def)

lemma filled_cells:
  "cell_of (filled_raw actuals amounts a) ''account_code'' = Cell_Str (ac_code a)"
  "cell_of (filled_raw actuals amounts a) ''budget_amount'' = amounts (ac_code a)"
  by (simp_all add: cell_of_def filled_raw_def filled_row_def ACCOUNT_COLUMNS_def)

lemma operational_accounts: "a \<in> set (load_operational_accounts d) \<longleftrightarrow> a \<in> set (account_codes d) \<and> category a = operational"
  by (auto simp: load_operational_accounts_def)

lemma check_filled:
  assumes "a \<in> set (load_operational_accounts d)" "strip (ac_code a) = ac_code a" "ac_code a \<noteq> []"
  shows "budget_row_ok (operational_codes d) (filled_raw actuals amounts a) \<longleftrightarrow>
      \<not> empty_cell (amounts (ac_code a)) \<and> (\<exists>x. parse_amount (amounts (ac_code a)) True = Inr x)"
    and "check_budget_row (operational_codes d) n (filled_raw actuals amounts a) = Inr r \<Longrightarrow>
      br_account_code r = ac_code a \<and> parse_amount (amounts (ac_code a)) True = Inr (br_amount r)"
proof -
  have code: "clean_cell (Cell_Str (ac_code a)) = Some (ac_code a)" using assms(2,3) by (simp add: clean_cell_def)
  have known: "ac_code a \<in> operational_codes d"
    using assms(1) unfolding operational_accounts by (auto simp: operational_codes_def codes_by_category_def)
  show "budget_row_ok (operational_codes d) (filled_raw actuals amounts a) \<longleftrightarrow>
      \<not> empty_cell (amounts (ac_code a)) \<and> (\<exists>x. parse_amount (amounts (ac_code a)) True = Inr x)"
    by (simp add: budget_row_ok_def filled_cells code known)
  show "br_account_code r = ac_code a \<and> parse_amount (amounts (ac_code a)) True = Inr (br_amount r)"
    if "check_budget_row (operational_codes d) n (filled_raw actuals amounts a) = Inr r"
    using that by (auto simp: check_budget_row_def filled_cells code known Let_def split: if_splits sum.splits)
qed

section \<open>The download\<close>

lemma find_upd_row: "(\<And>r. P (f r) = P r) \<Longrightarrow> find P (upd_row key k f rs) = map_option (\<lambda>r. if key r = k then f r else r) (find P rs)"
  by (induction rs) (auto simp: upd_row_def)

definition counted :: "uuid \<Rightarrow> db \<Rightarrow> db" where
  "counted i d = d\<lparr>excel_templates := upd_row et_id i (\<lambda>r. r\<lparr>download_count := download_count r + 1\<rparr>) (excel_templates d)\<rparr>"

lemma counted_facts:
  "db_ok (counted i d) = db_ok d" "audit_logs (counted i d) = audit_logs d"
  "fetch_template cid j (counted i d) = map_option (\<lambda>r. if et_id r = i then r\<lparr>download_count := download_count r + 1\<rparr> else r)
     (fetch_template cid j d)"
proof -
  have "map (\<lambda>t. (et_cycle_id t, et_org_unit_id t)) (excel_templates (counted i d)) = map (\<lambda>t. (et_cycle_id t, et_org_unit_id t)) (excel_templates d)"
    by (auto simp: counted_def upd_row_def)
  then show "db_ok (counted i d) = db_ok d" by (simp add: db_ok_def templates_ok_def) (simp add: counted_def)
  show "audit_logs (counted i d) = audit_logs d" by (simp add: counted_def)
  show "fetch_template cid j (counted i d) = map_option (\<lambda>r. if et_id r = i then r\<lparr>download_count := download_count r + 1\<rparr> else r)
     (fetch_template cid j d)"
    by (simp add: fetch_template_def counted_def find_upd_row)
qed

lemma download_run:
  assumes "seq_fresh t" "db_ok (cur t)" "in_scope (scoped_org_units v (cur t)) i"
    and "fetch_template cid i (cur t) = Some x" "generation_error x = None"
    and "decrypt_field E (et_file_path_enc x) = Inr kb" "utf8_decode kb = Some k" "key_ok k" "map_of (files t) k = Some content"
    and "get_row ou_id i (org_units (cur t)) = Some w" "get_row cycle_id cid (budget_cycles (cur t)) = Some c"
  shows "\<exists>t' row. template_download E cid i v t = (Inr (template_filename w c, content), t')
    \<and> com t' = (counted (et_id x) (cur t))\<lparr>audit_logs := audit_logs (cur t) @ [row]\<rparr>"
proof -
  have fresh: "seq_fresh (t\<lparr>cur := counted (et_id x) (cur t)\<rparr>)" using assms(1) by (simp add: counted_facts)
  have parents: "org_units (counted j d) = org_units d" "budget_cycles (counted j d) = budget_cycles d" for j d
    by (simp_all add: counted_def)
  have up: "d\<lparr>excel_templates := upd_row et_id j (\<lambda>r. r\<lparr>download_count := download_count r + 1\<rparr>) (excel_templates d)\<rparr> = counted j d" for j d
    by (simp add: counted_def)
  show ?thesis
    using assms(2-11)
    by (simp add: template_download_def run_sq assert_scope_run act_simps storage_read_def validate_key_def up
        run_commit_audited [OF fresh] counted_facts cur_audited parents) blast
qed

section \<open>Properties\<close>

text \<open>
  Generation reaches every unit. Whatever the storage does, generating the templates of a
  cycle returns one result per unit, in order, without raising, each saying truthfully
  whether the file was generated; afterwards every unit has a template row, not downloaded
  yet, marked with an error exactly when the storage failed; rows of other units and
  cycles, and all other tables but the audit log, are as before.
\<close>

theorem templates_generated:
  assumes "store_inv E s" "cur s = com s"
  shows "\<exists>rs t. generate_for_cycle E c units u s = (Inr rs, t) \<and> store_inv E t
    \<and> map tr_unit_id rs = map ou_id units \<and> (\<forall>r \<in> set rs. tr_generated r = storage_ok E)
    \<and> com t = (com s)\<lparr>excel_templates := excel_templates (com t), audit_logs := audit_logs (com t)\<rparr>
    \<and> (\<forall>w \<in> set units. fresh_template E (cycle_id c) (ou_id w) (com t))
    \<and> (\<forall>cid i. cid \<noteq> cycle_id c \<or> i \<notin> ou_id ` set units \<longrightarrow> fetch_template cid i (com t) = fetch_template cid i (com s))"
  using generate_all [OF assms, of c "load_operational_accounts (cur s)" u units]
  by (auto simp: generate_for_cycle_def act_simps)

lemma templates_generated_witness:
  "\<exists>rs t. generate_for_cycle env0 (cycle0\<lparr>cycle_status := open\<rparr>) [unit1] admin0 (session_of accounts_db) = (Inr rs, t)
     \<and> map tr_unit_id rs = [2]"
  using templates_generated [OF accounts_db_inv, of "cycle0\<lparr>cycle_status := open\<rparr>" "[unit1]" admin0]
  by (auto simp: unit1_def)

text \<open>
  Claim C17: what was generated is what is downloaded. After a generation, a user who may download
  templates and sees the unit gets the very workbook that was built, under the file name of
  the unit and the year, and the row counts the download: for every cipher that decrypts its
  own output, through the encrypted path and the storage.
\<close>

theorem generated_template_downloads:
  assumes "store_inv E s" "cur s = com s" "storage_ok E" "cipher_ok E"
    and "generate_single_unit E c w accounts u s = (Inr r, t)"
    and "get_row ou_id (ou_id w) (org_units (com s)) = Some w" "get_row cycle_id (cycle_id c) (budget_cycles (com s)) = Some c"
    and "set (role_set v) \<inter> {SystemAdmin, FinanceAdmin, HRAdmin, UplineReviewer, FilingUnitManager, CompanyReviewer} \<noteq> {}"
    and "in_scope (scoped_org_units v (com s)) (ou_id w)"
  shows "\<exists>t' x. download_template E (cycle_id c) (ou_id w) v t = (Inr (template_filename w c,
      build_template_workbook E c w accounts (unit_actuals (cycle_id c) (ou_id w) (com s))), t')
    \<and> fetch_template (cycle_id c) (ou_id w) (com t') = Some x \<and> download_count x = 1"
proof -
  let ?k = "template_key c w s" and ?cat = "''templates''"
  let ?x = "new_template E c w u (utf8_encode ?k) None s"
  let ?content = "build_template_workbook E c w accounts (unit_actuals (cycle_id c) (ou_id w) (com s))"
  have "seq_fresh s" "db_ok (cur s)" using assms(1,2) by (simp_all add: seq_fresh_based) (simp add: store_inv_def)
  from generate_single_run [OF this assms(2), of E c w accounts u, unfolded if_P [OF assms(3)] Let_def assms(5)] obtain ids det where
    t: "t = audited E TEMPLATE_GENERATE ''excel_template'' ids (Some (user_id u)) det
      (s\<lparr>uid_next := uid_next s + 3, files := AList.update ?k ?content (files s), cur := with_template ?x (com s)\<rparr>)"
    unfolding prod.inject assms(2) by (elim conjE) (rule that)
  define log where "log = audit_logs (com t)"
  have com: "com t = (with_template ?x (com s))\<lparr>audit_logs := log\<rparr>" by (simp add: log_def t cur_audited)
  have files: "files t = AList.update ?k ?content (files s)" by (simp add: t)
  have "store_inv E t" using store_inv_run [OF stored.kept_generate(2) assms(1)] assms(5) by (metis snd_conv)
  then have inv: "seq_fresh (t\<lparr>cur := com t\<rparr>)" "db_ok (com t)" by (simp_all add: seq_fresh_rebase(2)) (simp add: store_inv_def)
  have cat: "?cat \<in> set ALLOWED_CATEGORIES" by (simp add: ALLOWED_CATEGORIES_def)
  have key: "key_ok ?k" "utf8_decode (utf8_encode ?k) = Some ?k"
    unfolding template_key_def by (rule build_key_ok [OF cat], rule utf8_round_trip [OF build_key_text [OF cat]])
  have x: "fetch_template (cycle_id c) (ou_id w) (com t) = Some ?x" "generation_error ?x = None" "download_count ?x = 0"
    "decrypt_field E (et_file_path_enc ?x) = Inr (utf8_encode ?k)"
    by (simp_all add: com fetch_with_template new_template_def decrypt_envelope [OF assms(4)])
  have tables: "org_units (com t) = org_units (com s)" "budget_cycles (com t) = budget_cycles (com s)" by (simp_all add: com)
  have scope: "in_scope (scoped_org_units v (com t)) (ou_id w)" using assms(9) unfolding scoped_org_units_def tables .
  let ?t = "t\<lparr>cur := com t\<rparr>"
  have here: "db_ok (cur ?t)" "in_scope (scoped_org_units v (cur ?t)) (ou_id w)" "fetch_template (cycle_id c) (ou_id w) (cur ?t) = Some ?x"
    "map_of (files ?t) ?k = Some ?content" "get_row ou_id (ou_id w) (org_units (cur ?t)) = Some w"
    "get_row cycle_id (cycle_id c) (budget_cycles (cur ?t)) = Some c"
    using inv(2) scope x(1) assms(6,7) by (simp_all add: tables files update_conv')
  from download_run [OF inv(1) here(1-3) x(2,4) key(2,1) here(4-6)] obtain t' row where
    down: "template_download E (cycle_id c) (ou_id w) v ?t = (Inr (template_filename w c, ?content), t')"
      "com t' = (counted (et_id ?x) (cur ?t))\<lparr>audit_logs := audit_logs (cur ?t) @ [row]\<rparr>" by (elim exE conjE) (rule that)
  have "set (role_set v) \<inter> set [SystemAdmin, FinanceAdmin, HRAdmin, UplineReviewer, FilingUnitManager, CompanyReviewer] \<noteq> {}"
    using assms(8) by simp
  note role = this
  have "download_template E (cycle_id c) (ou_id w) v t = (Inr (template_filename w c, ?content), t'\<lparr>cur := com t'\<rparr>)"
    unfolding download_template_def role_session if_not_P [OF role] by (simp add: get_session_simp down(1))
  moreover have "fetch_template (cycle_id c) (ou_id w) (com t') = Some (?x\<lparr>download_count := 1\<rparr>)"
    unfolding down(2) by (simp add: counted_facts x(1)) (simp add: new_template_def)
  ultimately show ?thesis by (intro exI [of _ "t'\<lparr>cur := com t'\<rparr>"] exI [of _ "?x\<lparr>download_count := 1\<rparr>"]) simp
qed

lemma generated_template_downloads_witness:
  "\<exists>r t t'. generate_single_unit env0 (cycle0\<lparr>cycle_status := open\<rparr>) unit1 [account0] admin0 (session_of accounts_db) = (Inr r, t)
     \<and> download_template env0 7 2 admin0 t = (Inr (template_filename unit1 (cycle0\<lparr>cycle_status := open\<rparr>), [80, 75]), t')"
proof -
  let ?c = "cycle0\<lparr>cycle_status := open\<rparr>" and ?s = "session_of accounts_db"
  obtain r t where run: "generate_single_unit env0 ?c unit1 [account0] admin0 ?s = (Inr r, t)"
    using generate_single_step [OF accounts_db_inv, of ?c unit1 "[account0]" admin0] by auto
  have rows: "ou_id unit1 = 2" "cycle_id ?c = 7" "get_row ou_id 2 (org_units accounts_db) = Some unit1"
    "get_row cycle_id 7 (budget_cycles accounts_db) = Some ?c" "in_scope (scoped_org_units admin0 accounts_db) 2"
    by (simp_all add: accounts_db_def cycle0_def org_db_def get_row_def unit0_def unit1_def scoped_org_units_def global_roles_def)
  from generated_template_downloads [OF accounts_db_inv _ _ cipher_env0 run, of admin0] run rows
  show ?thesis by (auto simp: build_template_workbook_def)
qed

lemma filled_book_accepted:
  assumes "load_workbook E content = Some (filled_book c w (load_operational_accounts d) actuals amounts)"
    and "int (length content) \<le> max_upload_bytes (cfg E)" "int (length (load_operational_accounts d)) \<le> max_upload_rows (cfg E)"
    and "\<forall>a \<in> set (account_codes d). strip (ac_code a) = ac_code a \<and> ac_code a \<noteq> []"
  shows "\<exists>result. validate_budget E content (ou_code w) (operational_codes d) = Inr result
    \<and> (valid result \<longleftrightarrow> (\<forall>a \<in> set (load_operational_accounts d). \<not> empty_cell (amounts (ac_code a))
          \<and> (\<exists>x. parse_amount (amounts (ac_code a)) True = Inr x)))
    \<and> (valid result \<longrightarrow> list_all2 (\<lambda>a r. br_account_code r = ac_code a
          \<and> parse_amount (amounts (ac_code a)) True = Inr (br_amount r)) (load_operational_accounts d) (rows result))"
proof -
  let ?accs = "load_operational_accounts d"
  let ?raw = "map (filled_raw actuals amounts) ?accs" and ?codes = "operational_codes d"
  have plain: "\<forall>a \<in> set ?accs. category a = operational \<and> strip (ac_code a) \<noteq> []"
    using assms(4) by (auto simp: operational_accounts)
  have run: "validate_budget E content (ou_code w) ?codes = Inr (validate_budget_rows ?codes ?raw)"
    using assms(1-3) read_filled [OF plain, of c w actuals amounts]
    by (simp add: validate_budget_def open_workbook_def filled_dept del: str_simps)
  have row: "a \<in> set ?accs \<Longrightarrow> strip (ac_code a) = ac_code a \<and> ac_code a \<noteq> []" for a
    using assms(4) by (simp add: operational_accounts)
  have "valid (validate_budget_rows ?codes ?raw) \<longleftrightarrow> list_all (budget_row_ok ?codes) ?raw"
    by (simp only: budget.valid_iff check_budget_row_ok list_all_length)
  also have "\<dots> \<longleftrightarrow> (\<forall>a \<in> set ?accs. \<not> empty_cell (amounts (ac_code a)) \<and> (\<exists>x. parse_amount (amounts (ac_code a)) True = Inr x))"
    using check_filled(1) [of _ d actuals amounts] row by (simp add: list_all_iff)
  finally have v: "valid (validate_budget_rows ?codes ?raw) \<longleftrightarrow> (\<forall>a \<in> set ?accs. \<not> empty_cell (amounts (ac_code a))
      \<and> (\<exists>x. parse_amount (amounts (ac_code a)) True = Inr x))" .
  have "list_all2 (\<lambda>a r. br_account_code r = ac_code a \<and> parse_amount (amounts (ac_code a)) True = Inr (br_amount r))
      ?accs (rows (validate_budget_rows ?codes ?raw))" if ok: "valid (validate_budget_rows ?codes ?raw)"
  proof (rule list_all2_all_nthI)
    show "length ?accs = length (rows (validate_budget_rows ?codes ?raw))" using budget.one_per_row(1) [OF ok] by simp
    fix i assume i: "i < length ?accs"
    with budget.one_per_row(2) [OF ok, of i]
    have "check_budget_row ?codes (2 + i) (filled_raw actuals amounts (?accs ! i)) = Inr (rows (validate_budget_rows ?codes ?raw) ! i)" by simp
    from check_filled(2) [OF nth_mem [OF i] _ _ this] row [OF nth_mem [OF i]]
    show "br_account_code (rows (validate_budget_rows ?codes ?raw) ! i) = ac_code (?accs ! i)
      \<and> parse_amount (amounts (ac_code (?accs ! i))) True = Inr (br_amount (rows (validate_budget_rows ?codes ?raw) ! i))" by blast
  qed
  with run v show ?thesis by blast
qed

text \<open>
  Claim C15: a template that is filled in is accepted. When the workbook of a unit comes back with an
  amount in every row, within the limits, the upload's check passes exactly if every amount
  is present and parses, and the rows it then yields are the operational accounts in the
  order of the template, each with the parsed amount; sent back as it was generated, it is
  refused unless there is no account at all.
\<close>

theorem filled_template_accepted:
  assumes "load_workbook E content = Some (filled_book c w (load_operational_accounts d) actuals amounts)"
    and "int (length content) \<le> max_upload_bytes (cfg E)" "int (length (load_operational_accounts d)) \<le> max_upload_rows (cfg E)"
    and "\<forall>a \<in> set (account_codes d). strip (ac_code a) = ac_code a \<and> ac_code a \<noteq> []"
  shows "\<exists>result. validate_budget E content (ou_code w) (operational_codes d) = Inr result
    \<and> (valid result \<longleftrightarrow> (\<forall>a \<in> set (load_operational_accounts d). \<not> empty_cell (amounts (ac_code a))
          \<and> (\<exists>x. parse_amount (amounts (ac_code a)) True = Inr x)))
    \<and> (valid result \<longrightarrow> list_all2 (\<lambda>a r. br_account_code r = ac_code a
          \<and> parse_amount (amounts (ac_code a)) True = Inr (br_amount r)) (load_operational_accounts d) (rows result))"
  by (rule filled_book_accepted [OF assms])

lemma filled_template_accepted_witness:
  "\<exists>result. validate_budget (env0\<lparr>load_workbook := \<lambda>b. Some (filled_book cycle0 unit1 (load_operational_accounts accounts_db) []
       (\<lambda>_. Cell_Int 300))\<rparr>) [80, 75] (ou_code unit1) (operational_codes accounts_db) = Inr result \<and> valid result"
proof -
  let ?E = "env0\<lparr>load_workbook := \<lambda>b. Some (filled_book cycle0 unit1 (load_operational_accounts accounts_db) [] (\<lambda>_. Cell_Int 300))\<rparr>"
  have accs: "account_codes accounts_db = [account0]" by (simp add: accounts_db_def)
  have "parse_amount (Cell_Int 300) True = Inr 30000"
    by (simp add: parse_amount_def amount_value_def quantize_cents_def round_half_even_def)
  moreover have "length (load_operational_accounts accounts_db) \<le> 1"
    by (simp add: load_operational_accounts_def accs order_asc_def)
  moreover have "\<forall>a \<in> set (account_codes accounts_db). strip (ac_code a) = ac_code a \<and> ac_code a \<noteq> []"
    by (simp add: accs account0_def strip_def is_space_def)
  ultimately show ?thesis
    using filled_template_accepted [where E = ?E and content = "[80, 75]" and c = cycle0 and w = unit1 and d = accounts_db
        and actuals = "[]" and amounts = "\<lambda>_. Cell_Int 300"]
    by (auto simp: empty_cell_def)
qed

end
