(* ===== verification/Reminders.thy ===== *)
theory Reminders
  imports Cycles Notifications
begin

text \<open>
  \<^verbatim>\<open>domain/cycles/reminders.py\<close> and \<^verbatim>\<open>infra/db/repos/budget_uploads_query.py\<close>: which units have
  not submitted, whom to remind, the walk up the org tree for the copies, and the daily
  dispatch. The walk is a loop that need not end: it is a partial function whose value
  \<open>None\<close> means that it does not return.
\<close>

section \<open>Whom to remind\<close>

definition unsubmitted_for_cycle :: "db \<Rightarrow> uuid \<Rightarrow> uuid list" where
  "unsubmitted_for_cycle d cid = map ou_id (order_asc ou_code (filter (\<lambda>w.
      is_filing_unit w \<and> level_code w \<noteq> str ''0000'' \<and>
      \<not> (\<exists>b \<in> set (budget_uploads d). bu_cycle_id b = cid \<and> bu_org_unit_id b = ou_id w) \<and>
      cid \<notin> set (excluded_for_cycle_ids w)) (org_units d)))"

definition UPLINE_ROLES :: "string list" where
  "UPLINE_ROLES = [role_value UplineReviewer, role_value FinanceAdmin]"

definition reviewers_by_unit :: "user list \<Rightarrow> uuid \<Rightarrow> user list" where
  "reviewers_by_unit us i = filter (\<lambda>u. is_active u \<and> user_org_unit_id u = Some i \<and>
     set (user_roles u) \<inter> set UPLINE_ROLES \<noteq> {}) us"

partial_function (option) walk_up :: "org_unit list \<Rightarrow> (uuid \<Rightarrow> user list) \<Rightarrow> org_unit \<Rightarrow> uuid list option" where
  "walk_up us reviewers current =
     (case parent_id current of
        None \<Rightarrow> Some []
      | Some p \<Rightarrow>
          (case get_row ou_id p us of
             None \<Rightarrow> Some []
           | Some w \<Rightarrow>
               if reviewers (ou_id w) \<noteq> [] then Some (map user_id (reviewers (ou_id w)))
               else walk_up us reviewers w))"

definition walk_uplines :: "org_unit list \<Rightarrow> (uuid \<Rightarrow> user list) \<Rightarrow> uuid \<Rightarrow> uuid list option" where
  "walk_uplines us reviewers start =
     (case get_row ou_id start us of None \<Rightarrow> Some [] | Some w \<Rightarrow> walk_up us reviewers w)"

record recipient =
  rcp_user_id :: uuid
  rcp_email :: pystr
  cc_user_ids :: "uuid list"

fun build_recipients :: "org_unit list \<Rightarrow> (uuid \<Rightarrow> user list) \<Rightarrow> user list \<Rightarrow> recipient list option" where
  "build_recipients us reviewers [] = Some []"
| "build_recipients us reviewers (m # ms) =
     (case user_org_unit_id m of
        None \<Rightarrow> build_recipients us reviewers ms
      | Some i \<Rightarrow>
          (case extract_email m of
             None \<Rightarrow> build_recipients us reviewers ms
           | Some email \<Rightarrow>
               (case walk_uplines us reviewers i of
                  None \<Rightarrow> None
                | Some cc \<Rightarrow> map_option (Cons \<lparr>rcp_user_id = user_id m, rcp_email = email, cc_user_ids = cc\<rparr>)
                    (build_recipients us reviewers ms))))"

definition resolve_recipients :: "db \<Rightarrow> uuid list \<Rightarrow> recipient list option" where
  "resolve_recipients d unit_ids =
     (if unit_ids = [] then Some []
      else build_recipients (org_units d) (reviewers_by_unit (users d))
        (filter (\<lambda>u. is_active u \<and> (case user_org_unit_id u of None \<Rightarrow> False | Some i \<Rightarrow> i \<in> set unit_ids)) (users d)))"

section \<open>The dispatch\<close>

record dispatch_summary =
  cycle_count :: nat
  notifications_sent :: nat
  notifications_failed :: nat

fun remind :: "env \<Rightarrow> budget_cycle \<Rightarrow> int \<Rightarrow> recipient list \<Rightarrow> nat \<Rightarrow> nat \<Rightarrow> session
    \<Rightarrow> (nat \<times> nat) \<times> session" where
  "remind E c days [] ok bad s = ((ok, bad), s)"
| "remind E c days (r # rs) ok bad s =
     (case notify_send E DEADLINE_REMINDER (rcp_user_id r) (rcp_email r)
         [(''cycle_id'', JUuid (cycle_id c)), (''fiscal_year'', JInt (fiscal_year c)),
          (''deadline'', JInt (deadline c)), (''days_before'', JInt days)]
         (Some (''cycle'', cycle_id c)) s of
        (Inl e, t) \<Rightarrow> remind E c days rs ok (Suc bad) t
      | (Inr n, t) \<Rightarrow>
          if notif_status n = sent then remind E c days rs (Suc ok) bad t
          else remind E c days rs ok (Suc bad) t)"

fun dispatch_cycles :: "env \<Rightarrow> day \<Rightarrow> budget_cycle list \<Rightarrow> nat \<Rightarrow> nat \<Rightarrow> session
    \<Rightarrow> ((nat \<times> nat) \<times> session) option" where
  "dispatch_cycles E ref_day [] ok bad s = Some ((ok, bad), s)"
| "dispatch_cycles E ref_day (c # cs) ok bad s =
     (let days_remaining = deadline c - ref_day in
      if days_remaining < 0 then dispatch_cycles E ref_day cs ok bad s
      else if \<not> list_ex (\<lambda>r. rs_cycle_id r = cycle_id c \<and> days_before r = days_remaining)
                 (reminder_schedules (cur s))
      then dispatch_cycles E ref_day cs ok bad s
      else let unsubmitted = unsubmitted_for_cycle (cur s) (cycle_id c) in
      if unsubmitted = [] then dispatch_cycles E ref_day cs ok bad s
      else (case resolve_recipients (cur s) unsubmitted of
              None \<Rightarrow> None
            | Some rs \<Rightarrow> (case remind E c days_remaining rs ok bad s of
                ((ok', bad'), t) \<Rightarrow> dispatch_cycles E ref_day cs ok' bad' t)))"

definition date_of :: "stamp \<Rightarrow> day" where
  "date_of t = 719163 + t div 86400000000"

definition dispatch_deadline_reminders :: "env \<Rightarrow> day option \<Rightarrow> session
    \<Rightarrow> (dispatch_summary \<times> session) option" where
  "dispatch_deadline_reminders E today s =
     (let ref_day = (case today of None \<Rightarrow> date_of (clock s) | Some d \<Rightarrow> d);
          cycles = filter (\<lambda>c. cycle_status c = open) (budget_cycles (cur s)) in
      map_option (\<lambda>((ok, bad), t). (\<lparr>cycle_count = length cycles, notifications_sent = ok,
          notifications_failed = bad\<rparr>, t)) (dispatch_cycles E ref_day cycles 0 0 s))"

text \<open>The scheduled job: a session of its own, closed without a commit.\<close>

definition reminder_job :: "env \<Rightarrow> session \<Rightarrow> session option" where
  "reminder_job E s = map_option (\<lambda>(_, t). t\<lparr>cur := com t\<rparr>)
     (dispatch_deadline_reminders E None (s\<lparr>cur := com s\<rparr>))"

section \<open>The walk\<close>

text \<open>The parent unit, and whether the walk from a unit stops within \<open>n\<close> rounds.\<close>

definition parent_unit :: "org_unit list \<Rightarrow> org_unit \<Rightarrow> org_unit option" where
  "parent_unit us w = (case parent_id w of None \<Rightarrow> None | Some p \<Rightarrow> get_row ou_id p us)"

fun stops :: "org_unit list \<Rightarrow> (uuid \<Rightarrow> user list) \<Rightarrow> nat \<Rightarrow> org_unit \<Rightarrow> bool" where
  "stops us reviewers 0 w = False"
| "stops us reviewers (Suc n) w = (case parent_unit us w of None \<Rightarrow> True
     | Some v \<Rightarrow> reviewers (ou_id v) \<noteq> [] \<or> stops us reviewers n v)"

lemma walk_up_parent: "walk_up us reviewers w = (case parent_unit us w of None \<Rightarrow> Some []
    | Some v \<Rightarrow> if reviewers (ou_id v) \<noteq> [] then Some (map user_id (reviewers (ou_id v)))
        else walk_up us reviewers v)"
  by (subst walk_up.simps) (simp add: parent_unit_def split: option.splits)

lemma stops_returns: "stops us reviewers n w \<Longrightarrow> \<exists>ids. walk_up us reviewers w = Some ids"
proof (induction n arbitrary: w)
  case (Suc n)
  then show ?case by (subst walk_up_parent) (auto split: option.splits)
qed simp

lemma returns_stops: "walk_up us reviewers w = Some ids \<Longrightarrow> \<exists>n. stops us reviewers n w"
proof (induction rule: walk_up.raw_induct [rotated 1, consumes 1])
  case (1 walk us reviewers w ids)
  show ?case
  proof (cases "parent_unit us w")
    case None
    then have "stops us reviewers (Suc 0) w" by simp
    then show ?thesis by blast
  next
    case (Some v)
    show ?thesis
    proof (cases "reviewers (ou_id v) = []")
      case True
      with 1(2) Some have "walk us reviewers v = Some ids"
        by (auto simp: parent_unit_def split: option.splits)
      with 1(1) obtain n where "stops us reviewers n v" by blast
      with Some have "stops us reviewers (Suc n) w" by simp
      then show ?thesis by blast
    next
      case False
      with Some have "stops us reviewers (Suc 0) w" by simp
      then show ?thesis by blast
    qed
  qed
qed

lemma parent_unit_child: "parent_unit us w = Some v \<Longrightarrow> w \<in> set us \<Longrightarrow>
    v \<in> set us \<and> (ou_id v, ou_id w) \<in> child_of us"
  by (auto simp: parent_unit_def child_of_def split: option.splits dest: get_row_Some)

lemma finite_child_of: "finite (child_of us)"
proof -
  have "child_of us \<subseteq> (\<lambda>u. (the (parent_id u), ou_id u)) ` set us"
    by (force simp: child_of_def)
  then show ?thesis using finite_surj by blast
qed

lemma acyclic_stops:
  assumes "acyclic (child_of us)" "w \<in> set us"
  shows "\<exists>n. stops us reviewers n w"
proof -
  have "wf (child_of us)"
    using finite_child_of assms(1) by (rule finite_acyclic_wf)
  then show ?thesis
    using assms(2)
  proof (induction "ou_id w" arbitrary: w rule: wf_induct_rule)
    case less
    show ?case
    proof (cases "parent_unit us w")
      case None
      then have "stops us reviewers (Suc 0) w" by simp
      then show ?thesis by blast
    next
      case (Some v)
      then have "v \<in> set us" "(ou_id v, ou_id w) \<in> child_of us"
        using parent_unit_child less.prems by auto
      with less.hyps obtain n where "stops us reviewers n v" by blast
      with Some have "stops us reviewers (Suc n) w" by simp
      then show ?thesis by blast
    qed
  qed
qed

lemma child_parent:
  assumes "org_units_ok us" "w \<in> set us"
  shows "(p, ou_id w) \<in> child_of us \<longleftrightarrow> parent_id w = Some p"
  using assms by (auto simp: child_of_def org_units_ok_def distinct_map dest: inj_onD)

lemma walk_up_nearest:
  assumes ok: "org_units_ok us" and acyc: "acyclic (child_of us)"
    and known: "\<forall>v \<in> set us. \<forall>p. parent_id v = Some p \<longrightarrow> p \<in> ou_id ` set us" and w: "w \<in> set us"
  shows "\<exists>ids. walk_up us reviewers w = Some ids \<and>
    (\<forall>i \<in> set ids. \<exists>v \<in> set us. (ou_id v, ou_id w) \<in> (child_of us)\<^sup>+ \<and> i \<in> user_id ` set (reviewers (ou_id v))) \<and>
    (ids = [] \<longleftrightarrow> (\<forall>v \<in> set us. (ou_id v, ou_id w) \<in> (child_of us)\<^sup>+ \<longrightarrow> reviewers (ou_id v) = []))"
proof -
  have "wf (child_of us)"
    using finite_child_of acyc by (rule finite_acyclic_wf)
  then show ?thesis
    using w
  proof (induction "ou_id w" arbitrary: w rule: wf_induct_rule)
    case less
    have above: "(a, ou_id w) \<in> (child_of us)\<^sup>+ \<longleftrightarrow>
        (\<exists>p. parent_id w = Some p \<and> (a = p \<or> (a, p) \<in> (child_of us)\<^sup>+))" for a
      using child_parent [OF ok less.prems]
      by (metis tranclE trancl.r_into_trancl trancl_into_trancl)
    show ?case
    proof (cases "parent_unit us w")
      case None
      then have "parent_id w = None"
        using known less.prems by (auto simp: parent_unit_def get_row_None split: option.splits)
      with None above show ?thesis by (subst walk_up_parent) simp
    next
      case (Some v)
      then have v: "v \<in> set us" "(ou_id v, ou_id w) \<in> child_of us" "parent_id w = Some (ou_id v)"
        using parent_unit_child less.prems by (auto simp: parent_unit_def split: option.splits dest: get_row_Some)
      show ?thesis
      proof (cases "reviewers (ou_id v) = []")
        case True
        from less.hyps [OF v(2) v(1)] obtain ids where ids: "walk_up us reviewers v = Some ids"
          "\<forall>i \<in> set ids. \<exists>u \<in> set us. (ou_id u, ou_id v) \<in> (child_of us)\<^sup>+ \<and> i \<in> user_id ` set (reviewers (ou_id u))"
          "ids = [] \<longleftrightarrow> (\<forall>u \<in> set us. (ou_id u, ou_id v) \<in> (child_of us)\<^sup>+ \<longrightarrow> reviewers (ou_id u) = [])"
          by blast
        have "walk_up us reviewers w = Some ids"
          using Some True ids(1) by (subst walk_up_parent) simp
        moreover have "(\<forall>u \<in> set us. (ou_id u, ou_id w) \<in> (child_of us)\<^sup>+ \<longrightarrow> reviewers (ou_id u) = [])
            \<longleftrightarrow> (\<forall>u \<in> set us. (ou_id u, ou_id v) \<in> (child_of us)\<^sup>+ \<longrightarrow> reviewers (ou_id u) = [])"
          using True v(3) by (auto simp: above)
        moreover have "\<forall>i \<in> set ids. \<exists>u \<in> set us. (ou_id u, ou_id w) \<in> (child_of us)\<^sup>+ \<and> i \<in> user_id ` set (reviewers (ou_id u))"
          using ids(2) v(3) by (fastforce simp: above)
        ultimately show ?thesis using ids(3) by blast
      next
        case False
        have "walk_up us reviewers w = Some (map user_id (reviewers (ou_id v)))"
          using Some False by (subst walk_up_parent) simp
        moreover have "(ou_id v, ou_id w) \<in> (child_of us)\<^sup>+" using v(2) by blast
        ultimately show ?thesis using False v(1) by auto
      qed
    qed
  qed
qed

section \<open>Properties\<close>


lemma sample_units_ok: "org_units_ok [unit0, unit1]" "acyclic (child_of [unit0, unit1])"
  "\<forall>v \<in> set [unit0, unit1]. \<forall>p. parent_id v = Some p \<longrightarrow> p \<in> ou_id ` set [unit0, unit1]"
proof -
  show "org_units_ok [unit0, unit1]" by (simp add: org_units_ok_def unit0_def unit1_def)
  have "child_of [unit0, unit1] = {(1, 2)}" by (simp add: child_of_code unit0_def unit1_def)
  moreover have "acyclic {(1::nat, 2)}"
    by (rule acyclic_subset [of "{(a, b). a < b}"]) (auto simp: acyclic_def trancl_id trans_def)
  ultimately show "acyclic (child_of [unit0, unit1])" by simp
qed (simp add: unit0_def unit1_def)


text \<open>
  Where parent links run in a circle the walk does not return: from a unit of any
  set of units each of which has its parent in the set, and none of which has a reviewer.
\<close>

theorem walk_uplines_loops:
  assumes "\<forall>v \<in> C. \<exists>u \<in> C. parent_id v = Some (ou_id u) \<and> get_row ou_id (ou_id u) us = Some u \<and>
      reviewers (ou_id u) = []"
    and "w \<in> C" "get_row ou_id (ou_id w) us = Some w"
  shows "walk_uplines us reviewers (ou_id w) = None"
proof -
  have "\<not> stops us reviewers n v" if "v \<in> C" for n v
    using that
  proof (induction n arbitrary: v)
    case (Suc n)
    with assms(1) show ?case by (force simp: parent_unit_def)
  qed simp
  then have "walk_up us reviewers w = None"
    using assms(2) returns_stops by (metis option.exhaust)
  then show ?thesis by (simp add: walk_uplines_def assms(3))
qed

lemma walk_uplines_loops_witness:
  "walk_uplines [unit0\<lparr>parent_id := Some 2\<rparr>, unit1] (\<lambda>_. []) 2 = None"
  using walk_uplines_loops [of "{unit0\<lparr>parent_id := Some 2\<rparr>, unit1}" "[unit0\<lparr>parent_id := Some 2\<rparr>, unit1]"
      "\<lambda>_. []" unit1]
  by (simp add: unit0_def unit1_def get_row_def)



lemma notify_send_unrendered:
  assumes "\<not> renders t ctx"
  shows "\<exists>e u. notify_send E t uid a ctx rel s = (Inl e, u) \<and> com u = com s \<and> mails u = mails s"
  using assms by (simp add: notify_send_def notif_insert_def email_send_def act_simps Let_def)

lemma remind_nothing:
  "\<exists>u. remind E c days rs ok bad s = ((ok, bad + length rs), u) \<and> com u = com s \<and> mails u = mails s"
proof (induction rs arbitrary: bad s)
  case (Cons r rs)
  have "\<not> renders DEADLINE_REMINDER [(''cycle_id'', v), (''fiscal_year'', x), (''deadline'', y), (''days_before'', z)]"
    for v x y z by (simp add: renders_def vars_deadline_reminder_def)
  from notify_send_unrendered [OF this] obtain e u where
    "notify_send E DEADLINE_REMINDER (rcp_user_id r) (rcp_email r)
         [(''cycle_id'', JUuid (cycle_id c)), (''fiscal_year'', JInt (fiscal_year c)),
          (''deadline'', JInt (deadline c)), (''days_before'', JInt days)]
         (Some (''cycle'', cycle_id c)) s = (Inl e, u)" "com u = com s" "mails u = mails s" by blast
  with Cons.IH [of "Suc bad" u] show ?case by auto
qed simp

lemma dispatch_nothing:
  "dispatch_cycles E day cs ok bad s = Some ((ok', bad'), u) \<Longrightarrow>
    ok' = ok \<and> com u = com s \<and> mails u = mails s"
proof (induction cs arbitrary: bad s)
  case (Cons c cs)
  show ?case
  proof (cases "dispatch_cycles E day (c # cs) ok bad s = dispatch_cycles E day cs ok bad s")
    case True
    with Cons show ?thesis by simp
  next
    case False
    with Cons.prems obtain rs where rs:
      "(case remind E c (deadline c - day) rs ok bad s of ((a, b), t) \<Rightarrow> dispatch_cycles E day cs a b t)
        = Some ((ok', bad'), u)"
      by (auto simp: Let_def split: if_splits option.splits)
    obtain v where "remind E c (deadline c - day) rs ok bad s = ((ok, bad + length rs), v)"
      "com v = com s" "mails v = mails s"
      using remind_nothing [of E c "deadline c - day" rs ok bad s] by blast
    with rs have "dispatch_cycles E day cs ok (bad + length rs) v = Some ((ok', bad'), u)" by simp
    from Cons.IH [OF this] show ?thesis using \<open>com v = com s\<close> \<open>mails v = mails s\<close> by simp
  qed
qed simp

text \<open>
  Claim C34: no deadline reminder is ever sent. The dispatch fills the template with a fiscal
  year and days under names the template does not use, so every single send raises before
  it reaches the relay; the dispatch counts it as failed. Whatever the database, the day
  and the relay, when the scheduled job returns it has sent nothing and committed nothing.
\<close>

theorem reminders_never_sent:
  assumes "dispatch_deadline_reminders E today s = Some (summary, t)"
  shows "notifications_sent summary = 0 \<and> mails t = mails s \<and> com t = com s"
proof -
  from assms obtain bad where "dispatch_cycles E (case today of None \<Rightarrow> date_of (clock s) | Some d \<Rightarrow> d)
      (filter (\<lambda>c. cycle_status c = open) (budget_cycles (cur s))) 0 0 s = Some ((notifications_sent summary, bad), t)"
    by (auto simp: dispatch_deadline_reminders_def Let_def)
  from dispatch_nothing [OF this] show ?thesis by simp
qed

definition due_db :: db where
  "due_db = org_db\<lparr>budget_cycles := [cycle0\<lparr>cycle_status := open\<rparr>],
     reminder_schedules := [\<lparr>rs_id = 1, rs_cycle_id = 7, days_before = 3, rs_created_at = 0\<rparr>]\<rparr>"

lemma due_recipients: "resolve_recipients due_db (unsubmitted_for_cycle due_db 7)
    = Some [\<lparr>rcp_user_id = 50, rcp_email = str ''m@x'', cc_user_ids = []\<rparr>]"
proof -
  have mail: "extract_email manager0 = Some (str ''m@x'')"
    by (simp add: extract_email_def manager0_def)
  have todo: "unsubmitted_for_cycle due_db 7 = [2]"
    by (simp add: unsubmitted_for_cycle_def due_db_def org_db_def unit0_def unit1_def order_asc_def)
  have up: "walk_uplines [unit0, unit1] (reviewers_by_unit [manager0, admin0]) 2 = Some []"
    by (simp add: walk_uplines_def get_row_def unit0_def unit1_def walk_up.simps reviewers_by_unit_def
        manager0_def admin0_def)
  have "users due_db = [manager0, admin0]" "org_units due_db = [unit0, unit1]"
    by (simp_all add: due_db_def org_db_def)
  then show ?thesis
    using up mail unfolding todo
    by (simp add: resolve_recipients_def) (simp add: manager0_def admin0_def)
qed

lemma reminders_never_sent_witness:
  "\<exists>summary t. dispatch_deadline_reminders env0 (Some 738997) (session_of due_db) = Some (summary, t) \<and>
     notifications_failed summary = 1 \<and> notifications_sent summary = 0 \<and> mails t = []"
proof -
  let ?c = "cycle0\<lparr>cycle_status := open\<rparr>"
  obtain u where u: "remind env0 ?c 3 [\<lparr>rcp_user_id = 50, rcp_email = str ''m@x'', cc_user_ids = []\<rparr>] 0 0
      (session_of due_db) = ((0, 1), u)"
    using remind_nothing [of env0 ?c 3 "[\<lparr>rcp_user_id = 50, rcp_email = str ''m@x'', cc_user_ids = []\<rparr>]" 0 0
        "session_of due_db"] by auto
  have cs: "budget_cycles due_db = [?c]" by (simp add: due_db_def)
  have due: "unsubmitted_for_cycle due_db 7 \<noteq> []"
    using due_recipients by (auto simp: resolve_recipients_def)
  have sched: "reminder_schedules due_db = [\<lparr>rs_id = 1, rs_cycle_id = 7, days_before = 3, rs_created_at = 0\<rparr>]"
    by (simp add: due_db_def)
  have c: "cycle_id ?c = 7" "deadline ?c = 739000" by (simp_all add: cycle0_def)
  have run: "dispatch_deadline_reminders env0 (Some 738997) (session_of due_db) =
      Some (\<lparr>cycle_count = 1, notifications_sent = 0, notifications_failed = 1\<rparr>, u)"
    using u c due
    by (simp add: dispatch_deadline_reminders_def cs sched due_recipients Let_def
        del: remind.simps budget_cycle.select_convs)
  from reminders_never_sent [OF run] run show ?thesis by auto
qed

end
