(* ===== verification/Dashboard.thy ===== *)
theory Dashboard
  imports Budget_Uploads Reminders "HOL-Library.Multiset"
begin

text \<open>
  \<^verbatim>\<open>domain/consolidation/dashboard.py\<close> and \<^verbatim>\<open>api/v1/dashboard.py\<close>: the state of every filing unit
  of a cycle, for the units a user may see, filtered, sorted and cut into pages. A query that
  the database fails to answer, which would set \<open>stale\<close>, is not modelled: the queries are total.
\<close>

section \<open>Data\<close>

datatype dashboard_status = Not_downloaded | Downloaded | Uploaded | Resubmit_requested

record dashboard_item =
  di_unit_id :: uuid
  di_unit_name :: pystr
  di_status :: dashboard_status
  di_uploaded_at :: "stamp option"
  di_version :: "int option"

datatype dashboard_sort = By_last_uploaded | By_org_unit_code

text \<open>The route admits limits from 1 to 500 and offsets from 0.\<close>

record dashboard_filters =
  df_status :: "dashboard_status option"
  df_unit :: "uuid option"
  df_sort :: dashboard_sort
  df_limit :: nat
  df_offset :: nat

definition default_filters :: dashboard_filters where
  "default_filters = \<lparr>df_status = None, df_unit = None, df_sort = By_last_uploaded, df_limit = 100, df_offset = 0\<rparr>"

record dashboard_response =
  dr_items :: "dashboard_item list"
  dr_sentinel :: "pystr option"
  dr_stale :: bool
  dr_summary :: "(string \<times> int) list option"

section \<open>DashboardService\<close>

definition dashboard_filing_units :: "scope \<Rightarrow> db \<Rightarrow> org_unit list" where
  "dashboard_filing_units sc d = (if sc = Units [] then []
     else order_asc ou_code (filter (\<lambda>w. is_filing_unit w \<and> in_scope sc (ou_id w)) (org_units d)))"

definition latest_uploads_by_unit :: "uuid \<Rightarrow> db \<Rightarrow> (uuid, budget_upload) dict" where
  "latest_uploads_by_unit cid d = first_by bu_org_unit_id
     (order_desc bu_version (filter (\<lambda>u. bu_cycle_id u = cid) (budget_uploads d))) []"

definition templates_by_unit :: "uuid \<Rightarrow> db \<Rightarrow> uuid \<Rightarrow> excel_template option" where
  "templates_by_unit cid d =
     map_of (rev (map (\<lambda>t. (et_org_unit_id t, t)) (filter (\<lambda>t. et_cycle_id t = cid) (excel_templates d))))"

definition open_resubmit_ids :: "uuid \<Rightarrow> db \<Rightarrow> uuid set" where
  "open_resubmit_ids cid d = rr_org_unit_id ` set (filter (\<lambda>r. rr_cycle_id r = cid) (resubmit_requests d))"

definition unit_status :: "bool \<Rightarrow> budget_upload option \<Rightarrow> bool \<Rightarrow> excel_template option \<Rightarrow> dashboard_status" where
  "unit_status requested upload unsubmitted template =
     (if requested then Resubmit_requested
      else if upload \<noteq> None \<and> \<not> unsubmitted then Uploaded
      else case template of None \<Rightarrow> Not_downloaded
        | Some t \<Rightarrow> if download_count t = 0 then Not_downloaded else Downloaded)"

definition dashboard_collect :: "uuid \<Rightarrow> scope \<Rightarrow> db \<Rightarrow> dashboard_item list" where
  "dashboard_collect cid sc d =
     (let units = dashboard_filing_units sc d in
      if units = [] then []
      else let unsubmitted_ids = set (unsubmitted_for_cycle d cid);
               uploads = latest_uploads_by_unit cid d;
               templates = templates_by_unit cid d;
               open_resubmits = open_resubmit_ids cid d
           in map (\<lambda>w. let upload = map_of uploads (ou_id w) in
                \<lparr>di_unit_id = ou_id w, di_unit_name = ou_name w,
                  di_status = unit_status (ou_id w \<in> open_resubmits) upload (ou_id w \<in> unsubmitted_ids) (templates (ou_id w)),
                  di_uploaded_at = map_option bu_uploaded_at upload,
                  di_version = map_option bu_version upload\<rparr>) units)"

text \<open>
  The last upload first, units without one at the end, ties in the order they came: the texts of
  the times, all in UTC and of years with four digits, order as the times do. The sort named
  after the code of the unit goes by its name.
\<close>

definition upload_order :: "dashboard_item \<Rightarrow> int \<times> int" where
  "upload_order r = (case di_uploaded_at r of None \<Rightarrow> (1, 0) | Some t \<Rightarrow> (0, - t))"

definition apply_filters :: "dashboard_item list \<Rightarrow> dashboard_filters \<Rightarrow> dashboard_item list" where
  "apply_filters found F =
     (let by_status = (case df_status F of None \<Rightarrow> found | Some st \<Rightarrow> filter (\<lambda>r. di_status r = st) found);
          by_unit = (case df_unit F of None \<Rightarrow> by_status | Some i \<Rightarrow> filter (\<lambda>r. di_unit_id r = i) by_status);
          sorted_items = (case df_sort F of By_last_uploaded \<Rightarrow> sort_key upload_order by_unit
            | By_org_unit_code \<Rightarrow> order_asc di_unit_name by_unit)
      in take (df_limit F) (drop (df_offset F) sorted_items))"

definition build_summary_response :: "uuid \<Rightarrow> db \<Rightarrow> dashboard_response" where
  "build_summary_response cid d =
     (let units = dashboard_filing_units ALL_SCOPES d;
          uploads = latest_uploads_by_unit cid d;
          total_units = int (length units);
          with_upload = int (length (filter (\<lambda>w. map_of uploads (ou_id w) \<noteq> None) units))
      in \<lparr>dr_items = [], dr_sentinel = None, dr_stale = False,
          dr_summary = Some [(''total_units'', total_units), (''uploaded'', with_upload),
            (''pending'', max (total_units - with_upload) 0)]\<rparr>)"

definition summary_only :: "user \<Rightarrow> bool" where
  "summary_only u \<longleftrightarrow> CompanyReviewer \<in> set (role_set u) \<and> set (role_set u) \<inter> {SystemAdmin, FinanceAdmin, HRAdmin} = {}"

text \<open>The notice that no cycle is open.\<close>

definition not_open_notice :: pystr where
  "not_open_notice = [23578, 26410, 38283, 25918, 36913, 26399]"

definition status_for_user :: "uuid \<Rightarrow> user \<Rightarrow> dashboard_filters \<Rightarrow> dashboard_response op" where
  "status_for_user cid u F =
     bnd (query (\<lambda>d. get_row cycle_id cid (budget_cycles d))) (\<lambda>c.
       if (case c of None \<Rightarrow> True | Some c \<Rightarrow> cycle_status c = draft)
       then ret \<lparr>dr_items = [], dr_sentinel = Some not_open_notice, dr_stale = False, dr_summary = None\<rparr>
       else if summary_only u then query (build_summary_response cid)
       else bnd (query (scoped_org_units u)) (\<lambda>sc.
         bnd (query (dashboard_collect cid sc)) (\<lambda>rows.
         ret \<lparr>dr_items = apply_filters rows F, dr_sentinel = None, dr_stale = False, dr_summary = None\<rparr>)))"

definition dashboard_roles :: "role list" where
  "dashboard_roles = [SystemAdmin, FinanceAdmin, HRAdmin, UplineReviewer, CompanyReviewer, FilingUnitManager,
     ITSecurityAuditor]"

definition get_dashboard :: "uuid \<Rightarrow> dashboard_status option \<Rightarrow> uuid option \<Rightarrow> nat \<Rightarrow> nat \<Rightarrow> user \<Rightarrow> dashboard_response op" where
  "get_dashboard cid st unit_id limit offset u = get_session (bnd (require_role dashboard_roles u) (\<lambda>u.
     status_for_user cid u (default_filters\<lparr>df_status := st, df_unit := unit_id, df_limit := limit, df_offset := offset\<rparr>)))"

section \<open>The rows\<close>

text \<open>What the status of a unit should be, read off the tables.\<close>

definition filing_status :: "uuid \<Rightarrow> db \<Rightarrow> uuid \<Rightarrow> dashboard_status" where
  "filing_status cid d i =
     (if \<exists>r \<in> set (resubmit_requests d). rr_cycle_id r = cid \<and> rr_org_unit_id r = i then Resubmit_requested
      else if \<exists>u \<in> set (budget_uploads d). bu_cycle_id u = cid \<and> bu_org_unit_id u = i then Uploaded
      else if \<exists>t \<in> set (excel_templates d). et_cycle_id t = cid \<and> et_org_unit_id t = i \<and> download_count t \<noteq> 0 then Downloaded
      else Not_downloaded)"

definition dashboard_row :: "uuid \<Rightarrow> db \<Rightarrow> org_unit \<Rightarrow> dashboard_item" where
  "dashboard_row cid d w = (let up = budget_get_latest cid (ou_id w) d in
     \<lparr>di_unit_id = ou_id w, di_unit_name = ou_name w, di_status = filing_status cid d (ou_id w),
       di_uploaded_at = map_option bu_uploaded_at up, di_version = map_option bu_version up\<rparr>)"

lemma latest_uploads_latest [simp]: "map_of (latest_uploads_by_unit cid d) i = budget_get_latest cid i d"
  using latest_by_unit_latest [of cid d i] by (simp add: latest_uploads_by_unit_def latest_by_unit_def)

lemma budget_get_latest_None: "budget_get_latest cid i d = None \<longleftrightarrow>
    (\<forall>u \<in> set (budget_uploads d). \<not> (bu_cycle_id u = cid \<and> bu_org_unit_id u = i))"
  using budget_versions.latest_None [of "(cid, i)" "budget_uploads d"] by (auto simp: budget_get_latest_def)

lemma template_of_unit:
  assumes "db_ok d"
  shows "(case templates_by_unit cid d i of None \<Rightarrow> False | Some t \<Rightarrow> download_count t \<noteq> 0) \<longleftrightarrow>
    (\<exists>t \<in> set (excel_templates d). et_cycle_id t = cid \<and> et_org_unit_id t = i \<and> download_count t \<noteq> 0)"
proof -
  have key: "inj_on (\<lambda>t. (et_cycle_id t, et_org_unit_id t)) (set (excel_templates d))"
    using assms by (simp add: db_ok_def templates_ok_def distinct_map)
  let ?ps = "rev (map (\<lambda>t. (et_org_unit_id t, t)) (filter (\<lambda>t. et_cycle_id t = cid) (excel_templates d)))"
  show ?thesis
  proof (cases "templates_by_unit cid d i")
    case None
    then have "\<forall>t \<in> set (excel_templates d). \<not> (et_cycle_id t = cid \<and> et_org_unit_id t = i)"
      by (auto simp: templates_by_unit_def map_of_eq_None_iff image_iff)
    with None show ?thesis by auto
  next
    case (Some t)
    then have t: "t \<in> set (excel_templates d)" "et_cycle_id t = cid" "et_org_unit_id t = i"
      by (auto simp: templates_by_unit_def dest: map_of_SomeD)
    have "t' = t" if "t' \<in> set (excel_templates d)" "et_cycle_id t' = cid" "et_org_unit_id t' = i" for t'
      using inj_onD [OF key, of t' t] that t by simp
    then have "(\<exists>t' \<in> set (excel_templates d). et_cycle_id t' = cid \<and> et_org_unit_id t' = i \<and> download_count t' \<noteq> 0)
        \<longleftrightarrow> download_count t \<noteq> 0" using t by metis
    with Some show ?thesis by simp
  qed
qed

text \<open>A filing unit with an upload is never among the unsubmitted ones.\<close>

lemma unit_status_filing:
  assumes "db_ok d"
  shows "unit_status (i \<in> open_resubmit_ids cid d) (map_of (latest_uploads_by_unit cid d) i)
      (i \<in> set (unsubmitted_for_cycle d cid)) (templates_by_unit cid d i) = filing_status cid d i"
proof -
  have "i \<in> open_resubmit_ids cid d \<longleftrightarrow> (\<exists>r \<in> set (resubmit_requests d). rr_cycle_id r = cid \<and> rr_org_unit_id r = i)"
    by (auto simp: open_resubmit_ids_def)
  moreover have "budget_get_latest cid i d \<noteq> None \<Longrightarrow> i \<notin> set (unsubmitted_for_cycle d cid)"
    by (auto simp: budget_get_latest_None unsubmitted_for_cycle_def)
  ultimately show ?thesis
    using template_of_unit [OF assms, of cid i] budget_get_latest_None [of cid i d]
    by (auto simp: unit_status_def filing_status_def split: option.splits)
qed

lemma dashboard_collect_run:
  assumes "db_ok d"
  shows "dashboard_collect cid sc d = map (dashboard_row cid d) (dashboard_filing_units sc d)"
  by (simp add: dashboard_collect_def dashboard_row_def Let_def unit_status_filing [OF assms, simplified])

lemma filing_units_iff: "w \<in> set (dashboard_filing_units sc d) \<longleftrightarrow>
    w \<in> set (org_units d) \<and> is_filing_unit w \<and> in_scope sc (ou_id w)"
  by (auto simp: dashboard_filing_units_def)

lemma filing_units_distinct:
  assumes "db_ok d"
  shows "distinct (map ou_id (dashboard_filing_units sc d))" "length (dashboard_filing_units sc d) \<le> length (org_units d)"
proof -
  have "distinct (map ou_id (org_units d))" using assms by (simp add: db_ok_def org_units_ok_def)
  then have d: "distinct (map ou_id (filter P (org_units d)))" for P
    by (simp add: distinct_map_filter)
  show "distinct (map ou_id (dashboard_filing_units sc d))" "length (dashboard_filing_units sc d) \<le> length (org_units d)"
    using d by (auto simp: dashboard_filing_units_def order_asc_def distinct_map)
qed

text \<open>The route for a user who gets rows.\<close>

lemma dashboard_run:
  assumes "db_ok (com s)" "set (role_set u) \<inter> set dashboard_roles \<noteq> {}" "\<not> summary_only u"
    and "get_row cycle_id cid (budget_cycles (com s)) = Some c" "cycle_status c \<noteq> draft"
  shows "fst (get_dashboard cid st i limit offset u s) = Inr \<lparr>dr_items = apply_filters
      (map (dashboard_row cid (com s)) (dashboard_filing_units (scoped_org_units u (com s)) (com s)))
      (default_filters\<lparr>df_status := st, df_unit := i, df_limit := limit, df_offset := offset\<rparr>),
    dr_sentinel = None, dr_stale = False, dr_summary = None\<rparr>"
  unfolding get_dashboard_def role_session if_not_P [OF assms(2)]
  using assms by (simp add: fst_get_session status_for_user_def act_simps dashboard_collect_run)

text \<open>Without a filter and with room for all rows, the rows in the order of their last uploads.\<close>

lemma all_rows:
  assumes "length found \<le> limit"
  shows "apply_filters found (default_filters\<lparr>df_status := None, df_unit := None, df_limit := limit, df_offset := 0\<rparr>)
    = sort_key upload_order found"
  using assms by (simp add: apply_filters_def default_filters_def Let_def)

section \<open>Pages\<close>

definition chosen_rows :: "dashboard_item list \<Rightarrow> dashboard_filters \<Rightarrow> dashboard_item list" where
  "chosen_rows found F = (let rs = filter (\<lambda>r. (case df_status F of None \<Rightarrow> True | Some st \<Rightarrow> di_status r = st)
       \<and> (case df_unit F of None \<Rightarrow> True | Some i \<Rightarrow> di_unit_id r = i)) found
     in case df_sort F of By_last_uploaded \<Rightarrow> sort_key upload_order rs | By_org_unit_code \<Rightarrow> sort_key di_unit_name rs)"

lemma page_of_chosen: "apply_filters found (F\<lparr>df_limit := k, df_offset := i\<rparr>) = take k (drop i (chosen_rows found F))"
  by (cases "df_status F"; cases "df_unit F"; cases "df_sort F")
    (simp_all add: apply_filters_def chosen_rows_def order_asc_def conj_commute)

lemma mset_chosen: "mset (chosen_rows found F) = filter_mset (\<lambda>r.
        (case df_status F of None \<Rightarrow> True | Some st \<Rightarrow> di_status r = st)
        \<and> (case df_unit F of None \<Rightarrow> True | Some i \<Rightarrow> di_unit_id r = i)) (mset found)"
  by (simp add: chosen_rows_def Let_def mset_filter split: dashboard_sort.splits)

lemma length_chosen: "length (chosen_rows found F) \<le> length found"
  by (simp add: chosen_rows_def Let_def length_filter_le split: dashboard_sort.splits)

section \<open>Properties\<close>

text \<open>
  Claim C16: what the dashboard shows. On a cycle past its draft, a user who is not limited to the
  summary gets, on a page large enough, exactly one row for every filing unit in scope, with
  the version and time of its newest upload and the status the tables tell: a resubmission asked
  for, else an upload, else a downloaded template, else nothing; the rows come by the time of
  the last upload, the newest first, units without one at the end.
\<close>

theorem dashboard_rows:
  assumes "db_ok (com s)" "set (role_set u) \<inter> set dashboard_roles \<noteq> {}" "\<not> summary_only u"
    and "get_row cycle_id cid (budget_cycles (com s)) = Some c" "cycle_status c \<noteq> draft" "length (org_units (com s)) \<le> limit"
  shows "\<exists>r. fst (get_dashboard cid None None limit 0 u s) = Inr r \<and> dr_sentinel r = None \<and> dr_summary r = None
    \<and> distinct (map di_unit_id (dr_items r)) \<and> sorted (map upload_order (dr_items r))
    \<and> set (dr_items r) = {\<lparr>di_unit_id = ou_id w, di_unit_name = ou_name w, di_status = filing_status cid (com s) (ou_id w),
          di_uploaded_at = map_option bu_uploaded_at (budget_get_latest cid (ou_id w) (com s)),
          di_version = map_option bu_version (budget_get_latest cid (ou_id w) (com s))\<rparr> |w.
        w \<in> set (org_units (com s)) \<and> is_filing_unit w \<and> in_scope (scoped_org_units u (com s)) (ou_id w)}"
proof -
  let ?sc = "scoped_org_units u (com s)"
  let ?units = "dashboard_filing_units ?sc (com s)" and ?found = "map (dashboard_row cid (com s)) (dashboard_filing_units ?sc (com s))"
  note units = filing_units_distinct [OF assms(1), of ?sc]
  have run: "fst (get_dashboard cid None None limit 0 u s) =
      Inr \<lparr>dr_items = sort_key upload_order ?found, dr_sentinel = None, dr_stale = False, dr_summary = None\<rparr>"
    using dashboard_run [OF assms(1-5), of None None limit 0] all_rows [of ?found limit] units(2) assms(6) by simp
  have ids: "map di_unit_id ?found = map ou_id ?units" by (simp add: dashboard_row_def Let_def)
  have "mset (map di_unit_id (sort_key upload_order ?found)) = mset (map di_unit_id ?found)"
    by (simp only: mset_map mset_sort)
  then have dist: "distinct (map di_unit_id (sort_key upload_order ?found))"
    using units(1) unfolding ids by (rule mset_eq_imp_distinct_iff [THEN iffD2])
  have "set ?found = {dashboard_row cid (com s) w |w. w \<in> set (org_units (com s)) \<and> is_filing_unit w \<and> in_scope ?sc (ou_id w)}"
    by (auto simp: filing_units_iff)
  then have rows: "set ?found = {\<lparr>di_unit_id = ou_id w, di_unit_name = ou_name w, di_status = filing_status cid (com s) (ou_id w),
          di_uploaded_at = map_option bu_uploaded_at (budget_get_latest cid (ou_id w) (com s)),
          di_version = map_option bu_version (budget_get_latest cid (ou_id w) (com s))\<rparr> |w.
        w \<in> set (org_units (com s)) \<and> is_filing_unit w \<and> in_scope ?sc (ou_id w)}"
    by (simp only: dashboard_row_def Let_def)
  show ?thesis
    unfolding run by (intro exI conjI, rule refl, simp_all only: dashboard_response.select_convs set_sort rows sorted_sort_key dist)
qed

lemma dashboard_rows_witness:
  "\<exists>r. fst (get_dashboard 7 None None 100 0 admin0 (session_of versions_db)) = Inr r
     \<and> (\<exists>x \<in> set (dr_items r). di_unit_id x = 2 \<and> di_status x = Uploaded)"
proof -
  have role: "set (role_set admin0) \<inter> set dashboard_roles \<noteq> {}" "\<not> summary_only admin0"
    by (simp_all add: dashboard_roles_def summary_only_def)
  have cyc: "get_row cycle_id 7 (budget_cycles (com (session_of versions_db))) = Some (cycle0\<lparr>cycle_status := open\<rparr>)"
    "cycle_status (cycle0\<lparr>cycle_status := open\<rparr>) \<noteq> draft" "length (org_units (com (session_of versions_db))) \<le> 100"
    by (simp_all add: get_row_def versions_db_def accounts_db_def org_db_def cycle0_def)
  have unit: "unit1 \<in> set (org_units versions_db)" "is_filing_unit unit1" "ou_id unit1 = 2" "in_scope (scoped_org_units admin0 versions_db) 2"
    "upload0 \<in> set (budget_uploads versions_db)" "resubmit_requests versions_db = []"
    by (simp_all add: versions_db_def accounts_db_def org_db_def unit1_def unit0_def scoped_org_units_def global_roles_def)
  have "filing_status 7 versions_db 2 = Uploaded"
    using unit(5) by (auto simp: filing_status_def unit(6) upload0_def intro!: bexI [of _ upload0])
  then have status: "di_status (dashboard_row 7 versions_db unit1) = Uploaded" "di_unit_id (dashboard_row 7 versions_db unit1) = 2"
    by (simp_all add: dashboard_row_def Let_def unit(3))
  have ok: "db_ok (com (session_of versions_db))" using versions_db_ok by simp
  from dashboard_rows [OF ok role cyc, unfolded session_of_simps, unfolded dashboard_row_def [unfolded Let_def, symmetric]] obtain r where r: "fst (get_dashboard 7 None None 100 0 admin0 (session_of versions_db)) = Inr r"
    and rows: "set (dr_items r) = {dashboard_row 7 versions_db w |w. w \<in> set (org_units versions_db) \<and> is_filing_unit w
      \<and> in_scope (scoped_org_units admin0 versions_db) (ou_id w)}"
    by (elim exE conjE) (rule that)
  have "dashboard_row 7 versions_db unit1 \<in> set (dr_items r)"
    unfolding rows by (rule CollectI, rule exI [of _ unit1], intro conjI refl) (use unit(1-4) in simp_all)
  with r status show ?thesis by blast
qed

text \<open>
  The pages cover the dashboard. For every filter and sort order, the pages of one size
  taken one after the other list every row that the filter admits, once, in the order of the
  whole list.
\<close>

theorem dashboard_pages:
  assumes "length found \<le> n * k"
  shows "concat (map (\<lambda>p. apply_filters found (F\<lparr>df_limit := k, df_offset := p * k\<rparr>)) [0..<n])
      = apply_filters found (F\<lparr>df_limit := length found, df_offset := 0\<rparr>)
    \<and> mset (apply_filters found (F\<lparr>df_limit := length found, df_offset := 0\<rparr>)) = filter_mset (\<lambda>r.
        (case df_status F of None \<Rightarrow> True | Some st \<Rightarrow> di_status r = st)
        \<and> (case df_unit F of None \<Rightarrow> True | Some i \<Rightarrow> di_unit_id r = i)) (mset found)"
proof -
  have "length (chosen_rows found F) \<le> n * k" using length_chosen [of found F] assms by simp
  then show ?thesis
    by (simp add: page_of_chosen pages_concat length_chosen mset_chosen)
qed

lemma dashboard_pages_witness:
  "length (concat (map (\<lambda>p. apply_filters (map (dashboard_row 7 versions_db) [unit0, unit1])
     (default_filters\<lparr>df_limit := 1, df_offset := p * 1\<rparr>)) [0..<2])) = 2"
proof -
  have "length (map (dashboard_row 7 versions_db) [unit0, unit1]) \<le> 2 * 1" by simp
  from dashboard_pages [OF this, of default_filters] have
    "mset (concat (map (\<lambda>p. apply_filters (map (dashboard_row 7 versions_db) [unit0, unit1])
       (default_filters\<lparr>df_limit := 1, df_offset := p * 1\<rparr>)) [0..<2])) = mset (map (dashboard_row 7 versions_db) [unit0, unit1])"
    by (simp add: default_filters_def)
  from arg_cong [OF this, of size] show ?thesis unfolding size_mset by simp
qed

text \<open>
  An upload reaches the dashboard. Right after a successful upload for a filing unit in scope
  of the viewer, the dashboard shows the unit with the new version and the time of the upload;
  its status is uploaded, unless a resubmission was ever asked for in the cycle: then it still
  says that one is requested, whatever was uploaded since.
\<close>

theorem upload_on_dashboard:
  assumes inv: "store_inv E s" "cur s = com s"
    and run: "budget_upload_file False E cid unit_id filename content u s = (Inr up, t)"
    and viewer: "set (role_set v) \<inter> set dashboard_roles \<noteq> {}" "\<not> summary_only v"
      "in_scope (scoped_org_units v (com s)) unit_id" "length (org_units (com s)) \<le> limit"
    and w: "get_row ou_id unit_id (org_units (com s)) = Some w" "is_filing_unit w"
  shows "\<exists>r. fst (get_dashboard cid None None limit 0 v t) = Inr r
    \<and> \<lparr>di_unit_id = unit_id, di_unit_name = ou_name w,
        di_status = (if \<exists>q \<in> set (resubmit_requests (com s)). rr_cycle_id q = cid \<and> rr_org_unit_id q = unit_id
          then Resubmit_requested else Uploaded),
        di_uploaded_at = Some (clock s), di_version = Some (bu_version up)\<rparr> \<in> set (dr_items r)"
proof -
  have fresh: "seq_fresh s" using inv(1) by (rule seq_fresh_based)
  from budget_upload_Inr [OF fresh run, unfolded inv(2)] obtain w' c rs row
    where acc: "budget_accepted E cid unit_id content u (com s) = Inr (w', c, rs)"
      and up: "up = new_budget_upload E cid unit_id filename content u rs s"
      and com: "com t = (with_budget up (budget_lines_of (bu_id up) (account_ids (com s) (br_account_code ` set rs)) rs) (com s))
        \<lparr>audit_logs := audit_logs (com s) @ [row]\<rparr>" .
  have "store_inv E (snd (budget_upload_file False E cid unit_id filename content u s))"
    by (rule store_inv_run [OF stored.kept_budget(4) inv(1)])
  then have "store_inv E t" using run by simp
  then have ok: "db_ok (com t)" by (simp add: store_inv_def)
  have tables: "org_units (com t) = org_units (com s)" "budget_cycles (com t) = budget_cycles (com s)"
    "resubmit_requests (com t) = resubmit_requests (com s)" "budget_uploads (com t) = budget_uploads (com s) @ [up]"
    by (simp_all add: com with_budget_def)
  have scope: "scoped_org_units v (com t) = scoped_org_units v (com s)" unfolding scoped_org_units_def tables ..
  have latest: "budget_get_latest cid unit_id (com t) = Some up" by (rule upload_latest(1) [OF fresh run])
  have new: "bu_cycle_id up = cid" "bu_org_unit_id up = unit_id" "bu_uploaded_at up = clock s" by (simp_all add: up new_budget_upload_def)
  note cycle = budget_accepted_bounds(1,2) [OF acc]
  let ?found = "map (dashboard_row cid (com t)) (dashboard_filing_units (scoped_org_units v (com s)) (com t))"
  have "length ?found \<le> limit" using filing_units_distinct(2) [OF ok, of "scoped_org_units v (com s)"] viewer(4) by (simp add: tables)
  then have dash: "fst (get_dashboard cid None None limit 0 v t) =
      Inr \<lparr>dr_items = sort_key upload_order ?found, dr_sentinel = None, dr_stale = False, dr_summary = None\<rparr>"
    using dashboard_run [OF ok viewer(1,2), of cid c None None limit 0] cycle all_rows [of ?found limit] by (simp add: tables scope)
  have mem: "w \<in> set (org_units (com s))" "ou_id w = unit_id" using get_row_Some [OF w(1)] by simp_all
  then have "dashboard_row cid (com t) w \<in> set ?found" using w(2) viewer(3) by (auto simp: filing_units_iff tables)
  moreover have "dashboard_row cid (com t) w = \<lparr>di_unit_id = unit_id, di_unit_name = ou_name w,
        di_status = (if \<exists>q \<in> set (resubmit_requests (com s)). rr_cycle_id q = cid \<and> rr_org_unit_id q = unit_id
          then Resubmit_requested else Uploaded),
        di_uploaded_at = Some (clock s), di_version = Some (bu_version up)\<rparr>"
    using new by (auto simp: dashboard_row_def Let_def mem(2) latest filing_status_def tables)
  ultimately show ?thesis by (simp add: dash)
qed

lemma upload_on_dashboard_witness:
  "\<exists>up t r. budget_upload_file False env_book 7 2 (str ''b.xlsx'') [80, 75] admin0 (session_of accounts_db) = (Inr up, t)
     \<and> fst (get_dashboard 7 None None 100 0 admin0 t) = Inr r \<and> (\<exists>x \<in> set (dr_items r). di_unit_id x = 2 \<and> di_status x = Uploaded)"
proof -
  obtain up t where r: "budget_upload_file False env_book 7 2 (str ''b.xlsx'') [80, 75] admin0
      (session_of accounts_db) = (Inr up, t)" by (rule budget_upload_sample)
  have role: "set (role_set admin0) \<inter> set dashboard_roles \<noteq> {}" "\<not> summary_only admin0"
    by (simp_all add: dashboard_roles_def summary_only_def)
  have unit: "get_row ou_id 2 (org_units accounts_db) = Some unit1" "is_filing_unit unit1" "length (org_units accounts_db) \<le> 100"
    "in_scope (scoped_org_units admin0 accounts_db) 2" "resubmit_requests accounts_db = []"
    by (simp_all add: get_row_def accounts_db_def org_db_def unit1_def unit0_def scoped_org_units_def global_roles_def)
  from upload_on_dashboard [OF env_book_inv _ r role, unfolded session_of_simps, OF refl unit(4,3,1,2)] obtain q
    where q: "fst (get_dashboard 7 None None 100 0 admin0 t) = Inr q"
      "\<lparr>di_unit_id = 2, di_unit_name = ou_name unit1, di_status = Uploaded, di_uploaded_at = Some (clock (session_of accounts_db)),
        di_version = Some (bu_version up)\<rparr> \<in> set (dr_items q)" (is "?x \<in> _")
    unfolding unit(5) by auto
  have "di_unit_id ?x = 2 \<and> di_status ?x = Uploaded" by simp
  with q r show ?thesis by blast
qed

end
