(* ===== verification/Open_Cycle.thy ===== *)
theory Open_Cycle
  imports Templates Dashboard Report_Files
begin

text \<open>
  \<^verbatim>\<open>api/v1/orchestrators/open_cycle.py\<close>: opening a cycle moves it to open, generates a template for
  every actionable unit, and is meant to tell the managers. The route passes no notification
  service, which is a parameter of the model.
\<close>

record generation_summary =
  gs_total :: nat
  gs_generated :: nat
  gs_errors :: nat
  gs_error_details :: "(uuid \<times> exn option) list"

record opening_dispatch =
  od_total_recipients :: nat
  od_sent :: nat
  od_errors :: nat

record open_cycle_response =
  oc_cycle :: budget_cycle
  oc_generation :: generation_summary
  oc_dispatch :: opening_dispatch

definition summarize_generation :: "template_result list \<Rightarrow> generation_summary" where
  "summarize_generation rs = (let total_results = length rs; generated = length (filter tr_generated rs) in
     \<lparr>gs_total = total_results, gs_generated = generated, gs_errors = total_results - generated,
       gs_error_details = map (\<lambda>r. (tr_unit_id r, tr_error r)) (filter (\<lambda>r. \<not> tr_generated r) rs)\<rparr>)"

definition opening_recipients :: "org_unit list \<Rightarrow> uuid set \<Rightarrow> db \<Rightarrow> (uuid \<times> pystr) list" where
  "opening_recipients units generated_ids d =
     (let target_ids = {i \<in> ou_id ` set units. i \<in> generated_ids} in
      if target_ids = {} then []
      else List.map_filter (\<lambda>u. map_option (Pair (user_id u)) (extract_email u))
        (filter (\<lambda>u. (case user_org_unit_id u of None \<Rightarrow> False | Some i \<Rightarrow> i \<in> target_ids) \<and> is_active u) (users d)))"

definition send_cycle_opened :: "env \<Rightarrow> bool \<Rightarrow> (uuid \<times> pystr) list \<Rightarrow> budget_cycle \<Rightarrow> opening_dispatch op" where
  "send_cycle_opened E service recipients c =
     (let total_recipients = length recipients in
      if \<not> service \<or> total_recipients = 0
      then ret \<lparr>od_total_recipients = total_recipients, od_sent = 0, od_errors = 0\<rparr>
      else catch
        (bnd (send_batch E CYCLE_OPENED recipients [(''cycle_fiscal_year'', JInt (fiscal_year c)),
            (''deadline'', JText (date_text (deadline c))),
            (''cycle_url'', JText (str ''/cycles/'' @ uuid_text (cycle_id c)))] (Some (''budget_cycle'', cycle_id c))) (\<lambda>ns.
         ret \<lparr>od_total_recipients = total_recipients,
           od_sent = length (filter (\<lambda>n. notif_status n = sent) ns),
           od_errors = length (filter (\<lambda>n. notif_status n = failed) ns)\<rparr>))
        (\<lambda>e. if is_app_error e then ret \<lparr>od_total_recipients = total_recipients, od_sent = 0, od_errors = total_recipients\<rparr>
          else raise e))"

definition open_cycle :: "env \<Rightarrow> bool \<Rightarrow> uuid \<Rightarrow> user \<Rightarrow> open_cycle_response op" where
  "open_cycle E service cid u =
     sq (check (set (role_set u) \<inter> {FinanceAdmin, SystemAdmin} \<noteq> {}) (app_err ForbiddenError ''RBAC_001''))
    (bnd (cycle_open E cid u) (\<lambda>(c, filing_units).
     bnd (generate_for_cycle E c filing_units u) (\<lambda>results.
     bnd (query (opening_recipients filing_units (tr_unit_id ` set (filter tr_generated results)))) (\<lambda>recipients.
     bnd (send_cycle_opened E service recipients c) (\<lambda>dispatch.
     ret \<lparr>oc_cycle = c, oc_generation = summarize_generation results, oc_dispatch = dispatch\<rparr>)))))"

definition open_cycle_endpoint :: "env \<Rightarrow> uuid \<Rightarrow> user \<Rightarrow> open_cycle_response op" where
  "open_cycle_endpoint E cid u = get_session (bnd (require_role [FinanceAdmin, SystemAdmin] u) (open_cycle E False cid))"

lemma get_row_written: "key r' = k \<Longrightarrow> get_row key k (upd_row key k (\<lambda>_. r') rs) = map_option (\<lambda>_. r') (get_row key k rs)"
  by (induction rs) (auto simp: get_row_def upd_row_def)

section \<open>Generation sends nothing\<close>

lemma mails_kept [preserves_intros]:
  "preserves (\<lambda>s. mails s = m) rollback" "preserves (\<lambda>s. mails s = m) flush" "preserves (\<lambda>s. mails s = m) commit"
  "preserves (\<lambda>s. mails s = m) new_uuid" "preserves (\<lambda>s. mails s = m) next_sequence_no" "preserves (\<lambda>s. mails s = m) (update f)"
  by (auto simp: preserves_def act_simps)

lemma mails_kept_services [preserves_intros]:
  "preserves (\<lambda>s. mails s = m) (audit_record E act rt rid uid ip det)"
  "preserves (\<lambda>s. mails s = m) (encrypt_field E p)"
  "preserves (\<lambda>s. mails s = m) (storage_save E cat fname content)"
  unfolding audit_record_def encrypt_field_def storage_save_def validate_category_def validate_key_def Let_def
  by (intro preserves_intros preserves_modify; simp)+

lemma mails_kept_generate [preserves_intros]: "preserves (\<lambda>s. mails s = m) (generate_for_cycle E c units u)"
  unfolding generate_for_cycle_def generate_single_unit_def persist_error_result_def upsert_generated_row_def upsert_error_row_def
    delete_template_def commit_audited_def Let_def
  by (intro preserves_intros)

lemma fresh_template_of_result:
  assumes "\<forall>r \<in> set rs. tr_generated r = b"
  shows "gs_total (summarize_generation rs) = length rs" "gs_generated (summarize_generation rs) = (if b then length rs else 0)"
    "gs_errors (summarize_generation rs) = (if b then 0 else length rs)"
proof -
  have "filter tr_generated rs = (if b then rs else [])" using assms by (simp add: filter_id_conv filter_empty_conv)
  then show "gs_total (summarize_generation rs) = length rs" "gs_generated (summarize_generation rs) = (if b then length rs else 0)"
    "gs_errors (summarize_generation rs) = (if b then 0 else length rs)"
    by (simp_all add: summarize_generation_def Let_def)
qed

text \<open>The body, once the cycle was opened.\<close>

lemma open_cycle_run:
  assumes "store_inv E s" "set (role_set u) \<inter> {FinanceAdmin, SystemAdmin} \<noteq> {}"
    and "cycle_open E cid u s = (Inr (c, units), v)" "cur v = com v"
  shows "\<exists>r t. open_cycle E False cid u s = (Inr r, t) \<and> oc_cycle r = c \<and> od_sent (oc_dispatch r) = 0
    \<and> gs_total (oc_generation r) = length units \<and> gs_errors (oc_generation r) = (if storage_ok E then 0 else length units)
    \<and> com t = (com v)\<lparr>excel_templates := excel_templates (com t), audit_logs := audit_logs (com t)\<rparr>
    \<and> (\<forall>w \<in> set units. fresh_template E (cycle_id c) (ou_id w) (com t)) \<and> mails t = mails v"
proof -
  have "store_inv E v" using store_inv_run [OF stored.kept_cycle_services(2) assms(1)] assms(3) by (metis snd_conv)
  from generate_all [OF this assms(4), of c "load_operational_accounts (cur v)" u units] obtain rs t where
    t: "generate_for_cycle E c units u v = (Inr rs, t)" "map tr_unit_id rs = map ou_id units" "\<forall>r \<in> set rs. tr_generated r = storage_ok E"
      "com t = (com v)\<lparr>excel_templates := excel_templates (com t), audit_logs := audit_logs (com t)\<rparr>"
      "\<forall>w \<in> set units. fresh_template E (cycle_id c) (ou_id w) (com t)"
    by (auto simp: generate_for_cycle_def act_simps)
  have "mails (snd (generate_for_cycle E c units u v)) = mails v" by (rule preserves_run [OF mails_kept_generate]) (rule refl)
  then have mails: "mails t = mails v" by (simp add: t(1))
  have len: "length rs = length units" using arg_cong [OF t(2), of length] by simp
  show ?thesis
    using assms(2,3) t(1,5) fresh_template_of_result [OF t(3)] mails
    by (auto simp: open_cycle_def run_sq run_bnd run_session send_cycle_opened_def Let_def len intro: t(4))
qed

section \<open>Properties\<close>



end
