(* ===== verification/Sso.thy ===== *)
theory Sso
  imports Config
begin

text \<open>
  \<^verbatim>\<open>infra/sso\<close>: the client of the identity provider (OpenID Connect, and the fake one used when
  no provider is configured), and what the authentication code takes from outside the
  repository: the provider's HTTP answers, the JWT library and the random generators. Malformed
  URLs are not modelled.
\<close>

section \<open>The outside world\<close>

text \<open>The authentication part of \<open>Settings\<close>.\<close>

record web_settings =
  jwt_signing_key :: pystr
  session_secret :: pystr
  cookie_secure :: bool
  cookie_domain :: pystr
  sso_client_id :: pystr
  sso_client_secret :: "pystr option"
  sso_issuer :: pystr
  sso_discovery_url :: "pystr option"
  sso_redirect_uri :: pystr
  sso_scopes :: pystr
  frontend_origin :: pystr
  api_base_url :: pystr

text \<open>What httpx answers: a transport error, or a status and the body parsed as JSON, if it is JSON.\<close>

datatype http_reply = Transport_error | Reply nat "json option"

text \<open>
  \<open>jwt_encode key payload\<close> and \<open>jwt_decode now key token\<close> are PyJWT with HS256 (\<open>None\<close>: any of its
  \<open>InvalidTokenError\<close>s at that time); \<open>token_hex\<close> draws the text of 32 random bytes; \<open>json_str\<close> is
  \<open>str(...)\<close> of a JSON value that is not a text.
\<close>

record outside =
  web :: web_settings
  jwt_encode :: "pystr \<Rightarrow> json \<Rightarrow> pystr"
  jwt_decode :: "stamp \<Rightarrow> pystr \<Rightarrow> pystr \<Rightarrow> json option"
  token_hex :: "uuid \<Rightarrow> pystr"
  http_get :: "pystr \<Rightarrow> (string \<times> pystr) list \<Rightarrow> http_reply"
  http_post :: "pystr \<Rightarrow> (string \<times> pystr) list \<Rightarrow> http_reply"
  json_str :: "json \<Rightarrow> pystr"

text \<open>\<open>v.get(k)\<close>, and \<open>isinstance(v, str)\<close> for the values a provider sends.\<close>

definition dict_get :: "string \<Rightarrow> json \<Rightarrow> exn + json option" where
  "dict_get k v = (case v of JObj kvs \<Rightarrow> Inr (map_of kvs k) | _ \<Rightarrow> Inl Attribute_error)"

definition text_of :: "json option \<Rightarrow> pystr option" where
  "text_of v = (case v of Some (JText t) \<Rightarrow> Some t | _ \<Rightarrow> None)"

lemma text_of_Some: "text_of v = Some t \<longleftrightarrow> v = Some (JText t)"
  by (auto simp: text_of_def split: option.splits json.splits)

section \<open>The clients\<close>

record fake_sso =
  token_response :: json
  fake_userinfo :: json
  should_fail_auth_001 :: bool
  should_fail_auth_002 :: bool

datatype sso_client = Fake_SSO fake_sso | OIDC_client

definition default_fake :: fake_sso where
  "default_fake = \<lparr>token_response = JObj [(''access_token'', JText (str ''fake'')), (''token_type'', JText (str ''Bearer''))],
     fake_userinfo = JObj [(''sub'', JText (str ''user-1'')), (''email'', JText (str ''user@example.invalid'')),
       (''name'', JText (str ''Test User'')), (''groups'', JArr [JText (str ''BCMS_ADMIN'')])],
     should_fail_auth_001 = False, should_fail_auth_002 = False\<rparr>"

text \<open>\<open>get_sso_client\<close> of \<^verbatim>\<open>api/v1/auth.py\<close>.\<close>

definition get_sso_client :: "web_settings \<Rightarrow> sso_client" where
  "get_sso_client W =
     (if \<not> (sso_issuer W \<noteq> [] \<or> (case sso_discovery_url W of None \<Rightarrow> False | Some u \<Rightarrow> u \<noteq> []))
      then Fake_SSO default_fake else OIDC_client)"

text \<open>
  A client lives as long as the request; its state is the cached discovery document, and its
  operations may raise.
\<close>

type_synonym 'a idp = "(exn, (string \<times> json) list option, 'a) act"

abbreviation idp_error :: "string \<Rightarrow> exn" where
  "idp_error cd \<equiv> app_err InfraError cd"

definition discover :: "outside \<Rightarrow> (string \<times> json) list idp" where
  "discover X = bnd (gets (\<lambda>m. m)) (\<lambda>cached. case cached of Some m \<Rightarrow> ret m | None \<Rightarrow>
     (case sso_discovery_url (web X) of
        None \<Rightarrow> raise (idp_error ''AUTH_001'')
      | Some url \<Rightarrow>
          if url = [] then raise (idp_error ''AUTH_001'')
          else (case http_get X url [] of
            Transport_error \<Rightarrow> raise (idp_error ''AUTH_001'')
          | Reply st body \<Rightarrow>
              if \<not> (200 \<le> st \<and> st < 300) then raise (idp_error ''AUTH_001'')
              else (case body of
                Some (JObj m) \<Rightarrow> sq (modify (\<lambda>_. Some m)) (ret m)
              | _ \<Rightarrow> raise (idp_error ''AUTH_001'')))))"

text \<open>An endpoint that is no text but not empty either is one httpx refuses.\<close>

definition endpoint :: "string \<Rightarrow> (string \<times> json) list \<Rightarrow> pystr idp" where
  "endpoint k m = (case map_of m k of
     None \<Rightarrow> raise (idp_error ''AUTH_001'')
   | Some v \<Rightarrow> if \<not> truthy v then raise (idp_error ''AUTH_001'')
               else (case v of JText t \<Rightarrow> ret t | _ \<Rightarrow> raise Type_error))"

definition oidc_exchange_code :: "outside \<Rightarrow> pystr \<Rightarrow> json idp" where
  "oidc_exchange_code X auth_code =
     bnd (discover X) (\<lambda>m. bnd (endpoint ''token_endpoint'' m) (\<lambda>url.
       let W = web X;
           form = [(''grant_type'', str ''authorization_code''), (''code'', auth_code),
             (''client_id'', sso_client_id W),
             (''client_secret'', case sso_client_secret W of None \<Rightarrow> [] | Some x \<Rightarrow> x),
             (''redirect_uri'', sso_redirect_uri W)] in
       case http_post X url form of
         Transport_error \<Rightarrow> raise (idp_error ''AUTH_001'')
       | Reply st body \<Rightarrow>
           if st \<ge> 500 then raise (idp_error ''AUTH_001'')
           else if st \<ge> 400 then raise (idp_error ''AUTH_002'')
           else (case body of None \<Rightarrow> raise (idp_error ''AUTH_002'') | Some v \<Rightarrow> ret v)))"

definition oidc_fetch_userinfo :: "outside \<Rightarrow> pystr \<Rightarrow> json idp" where
  "oidc_fetch_userinfo X access =
     bnd (discover X) (\<lambda>m. bnd (endpoint ''userinfo_endpoint'' m) (\<lambda>url.
       case http_get X url [(''Authorization'', str ''Bearer '' @ access)] of
         Transport_error \<Rightarrow> raise (idp_error ''AUTH_001'')
       | Reply st body \<Rightarrow>
           if \<not> (200 \<le> st \<and> st < 300) then raise (idp_error ''AUTH_001'')
           else (case body of None \<Rightarrow> raise (idp_error ''AUTH_001'') | Some v \<Rightarrow> ret v)))"

definition exchange_code :: "outside \<Rightarrow> sso_client \<Rightarrow> pystr \<Rightarrow> json idp" where
  "exchange_code X c auth_code = (case c of
     Fake_SSO f \<Rightarrow>
       if should_fail_auth_001 f then raise (idp_error ''AUTH_001'')
       else if should_fail_auth_002 f then raise (idp_error ''AUTH_002'')
       else ret (token_response f)
   | OIDC_client \<Rightarrow> oidc_exchange_code X auth_code)"

definition fetch_userinfo :: "outside \<Rightarrow> sso_client \<Rightarrow> pystr \<Rightarrow> json idp" where
  "fetch_userinfo X c access = (case c of
     Fake_SSO f \<Rightarrow> ret (fake_userinfo f)
   | OIDC_client \<Rightarrow> oidc_fetch_userinfo X access)"

text \<open>
  The discovery document is fetched once per client: after a successful discovery the answer no
  longer depends on the provider.
\<close>

lemma discover_once: "discover X md = (Inr m, md') \<Longrightarrow> md' = Some m \<and> discover Y md' = (Inr m, md')"
  by (auto simp: discover_def act_simps split: option.splits if_splits http_reply.splits json.splits)

end
