(* ===== verification/Auth.thy ===== *)
theory Auth
  imports Rbac Storage Sso
begin

text \<open>
  \<^verbatim>\<open>core/security/jwt.py\<close>, \<^verbatim>\<open>csrf.py\<close>, \<^verbatim>\<open>sessions.py\<close>, \<^verbatim>\<open>auth_service.py\<close>, \<^verbatim>\<open>cookies.py\<close> and
  \<^verbatim>\<open>api/v1/auth.py\<close>: login through the identity provider, the rotation of refresh tokens, logout, and
  how a request's cookie is turned into a user. The column \<open>sso_id_enc\<close> of a user,
  which nothing reads, is not kept.
\<close>

section \<open>Access tokens\<close>

definition dev_signing_key :: pystr where
  "dev_signing_key = str ''bcms-dev-jwt-signing-key-insecure-do-not-use''"

definition signing_key :: "web_settings \<Rightarrow> pystr" where
  "signing_key W = (if jwt_signing_key W \<noteq> [] then jwt_signing_key W
     else if session_secret W \<noteq> [] then session_secret W else dev_signing_key)"

text \<open>\<open>int(t.timestamp())\<close> for a time after the epoch.\<close>

definition epoch_seconds :: "stamp \<Rightarrow> int" where
  "epoch_seconds t = t div 1000000"

definition access_claims :: "uuid \<Rightarrow> role option \<Rightarrow> uuid option \<Rightarrow> int \<Rightarrow> int \<Rightarrow> json" where
  "access_claims uid r ou iat ttl = JObj
     [(''sub'', JUuid uid), (''role'', case r of None \<Rightarrow> JNull | Some r \<Rightarrow> JName (role_value r)),
      (''org_unit_id'', case ou of None \<Rightarrow> JNull | Some i \<Rightarrow> JUuid i), (''iat'', JInt iat), (''exp'', JInt (iat + ttl))]"

definition encode_access_token :: "outside \<Rightarrow> uuid \<Rightarrow> role option \<Rightarrow> uuid option \<Rightarrow> int \<Rightarrow> pystr op" where
  "encode_access_token X uid r ou ttl = bnd now_utc (\<lambda>now.
     ret (jwt_encode X (signing_key (web X)) (access_claims uid r ou (epoch_seconds now) ttl)))"

definition auth_002 :: exn where
  "auth_002 = app_err UnauthenticatedError ''AUTH_002''"

definition decode_access_token :: "outside \<Rightarrow> pystr \<Rightarrow> json op" where
  "decode_access_token X token = bnd now_utc (\<lambda>now.
     case jwt_decode X now (signing_key (web X)) token of None \<Rightarrow> raise auth_002 | Some c \<Rightarrow> ret c)"

text \<open>
  What the JWT library promises: a token decodes under the key it was made with, from its issue until
  just before it expires.
\<close>

definition jwt_ok :: "outside \<Rightarrow> bool" where
  "jwt_ok X \<longleftrightarrow> (\<forall>now key uid r ou iat ttl.
     jwt_encode X key (access_claims uid r ou iat ttl) \<noteq> [] \<and>
     jwt_decode X now key (jwt_encode X key (access_claims uid r ou iat ttl)) =
       (if iat * 1000000 \<le> now \<and> now < (iat + ttl) * 1000000 then Some (access_claims uid r ou iat ttl) else None))"

section \<open>CSRF tokens\<close>

definition issue_csrf_token :: "outside \<Rightarrow> pystr op" where
  "issue_csrf_token X = bnd new_uuid (\<lambda>i. ret (token_hex X i))"

definition csrf_protected_methods :: "pystr list" where
  "csrf_protected_methods = [str ''POST'', str ''PUT'', str ''PATCH'', str ''DELETE'']"

definition ascii_text :: "pystr \<Rightarrow> bool" where
  "ascii_text s \<longleftrightarrow> list_all (\<lambda>c. c < 128) s"

text \<open>\<open>compare_digest\<close> refuses texts with other than ASCII characters.\<close>

definition verify_csrf_token :: "pystr option \<Rightarrow> pystr option \<Rightarrow> unit op" where
  "verify_csrf_token cookie header = (case (cookie, header) of
     (Some a, Some b) \<Rightarrow>
       if a = [] \<or> b = [] then raise (app_err ForbiddenError ''RBAC_001'')
       else if \<not> (ascii_text a \<and> ascii_text b) then raise Type_error
       else check (a = b) (app_err ForbiddenError ''RBAC_001'')
   | _ \<Rightarrow> raise (app_err ForbiddenError ''RBAC_001''))"

text \<open>HTTP methods are ASCII texts.\<close>

definition upper_ascii :: "pystr \<Rightarrow> pystr" where
  "upper_ascii s = map (\<lambda>c. if 97 \<le> c \<and> c \<le> 122 then c - 32 else c) s"

definition verify_csrf :: "pystr \<Rightarrow> pystr option \<Rightarrow> pystr option \<Rightarrow> pystr option \<Rightarrow> unit op" where
  "verify_csrf http_method request_cookie header cookie_arg =
     (if upper_ascii http_method \<notin> set csrf_protected_methods then ret ()
      else verify_csrf_token (case cookie_arg of Some c \<Rightarrow> Some c | None \<Rightarrow> request_cookie) header)"

section \<open>Sessions\<close>

record session_tokens =
  access_token :: pystr
  refresh_token :: pystr
  tok_csrf :: pystr
  tok_session_id :: uuid
  tok_user_id :: uuid
  expires_at :: stamp

abbreviation micros :: "int \<Rightarrow> int" where
  "micros seconds \<equiv> seconds * 1000000"

text \<open>The lookup hash of a text.\<close>

definition text_hash :: "env \<Rightarrow> pystr \<Rightarrow> bytes" where
  "text_hash E t = lookup_hmac E (utf8_encode t)"

definition session_create :: "env \<Rightarrow> outside \<Rightarrow> user \<Rightarrow> pystr option \<Rightarrow> pystr option \<Rightarrow> session_tokens op" where
  "session_create E X u ip agent =
     bnd new_uuid (\<lambda>i. let raw_refresh = random_token E i in
     bnd (issue_csrf_token X) (\<lambda>csrf.
     bnd now_utc (\<lambda>now. let expires = now + micros (refresh_ttl_seconds (cfg E)) in
     bnd new_uuid (\<lambda>sid.
     sq (update (\<lambda>d. d\<lparr>auth_sessions := auth_sessions d @ [\<lparr>sess_id = sid, sess_user_id = user_id u,
           refresh_token_hash = text_hash E raw_refresh, csrf_token = csrf, sess_ip = ip, sess_agent = agent,
           last_activity_at = now, absolute_expires_at = expires, revoked_at = None, sess_created_at = now\<rparr>]\<rparr>))
    (sq flush
    (bnd (encode_access_token X (user_id u) (primary_role u) (user_org_unit_id u) (session_ttl_seconds (cfg E))) (\<lambda>at.
     ret \<lparr>access_token = at, refresh_token = raw_refresh, tok_csrf = csrf, tok_session_id = sid,
          tok_user_id = user_id u, expires_at = expires\<rparr>)))))))"

definition session_by_hash :: "bytes \<Rightarrow> db \<Rightarrow> auth_session option" where
  "session_by_hash h d = find (\<lambda>r. refresh_token_hash r = h) (auth_sessions d)"

definition revoke_row :: "uuid \<Rightarrow> stamp \<Rightarrow> db \<Rightarrow> db" where
  "revoke_row sid now d = d\<lparr>auth_sessions := upd_row sess_id sid (\<lambda>r. r\<lparr>revoked_at := Some now\<rparr>) (auth_sessions d)\<rparr>"

definition session_refresh :: "env \<Rightarrow> outside \<Rightarrow> pystr \<Rightarrow> session_tokens op" where
  "session_refresh E X token =
     bnd (query (session_by_hash (text_hash E token))) (\<lambda>row. case row of
       None \<Rightarrow> raise auth_002
     | Some r \<Rightarrow> bnd now_utc (\<lambda>now.
         sq (check (revoked_at r = None) auth_002)
        (sq (check (\<not> absolute_expires_at r \<le> now) auth_002)
        (bnd (query (\<lambda>d. get_row user_id (sess_user_id r) (users d))) (\<lambda>u. case u of
           None \<Rightarrow> raise auth_002
         | Some u \<Rightarrow>
             sq (check (is_active u) auth_002)
            (sq (update (revoke_row (sess_id r) now))
            (sq flush
            (session_create E X u (sess_ip r) (sess_agent r)))))))))"

definition session_revoke :: "uuid \<Rightarrow> unit op" where
  "session_revoke sid =
     bnd (query (\<lambda>d. get_row sess_id sid (auth_sessions d))) (\<lambda>row. case row of
       None \<Rightarrow> raise auth_002
     | Some r \<Rightarrow> if revoked_at r = None then bnd now_utc (\<lambda>now. sq (update (revoke_row sid now)) flush) else ret ())"

definition session_get_active :: "uuid \<Rightarrow> auth_session option op" where
  "session_get_active sid =
     bnd (query (\<lambda>d. get_row sess_id sid (auth_sessions d))) (\<lambda>row. bnd now_utc (\<lambda>now.
       ret (case row of None \<Rightarrow> None
         | Some r \<Rightarrow> if revoked_at r \<noteq> None then None
                     else if absolute_expires_at r \<le> now then None else Some r)))"

definition session_touch :: "uuid \<Rightarrow> unit op" where
  "session_touch sid =
     bnd (query (\<lambda>d. get_row sess_id sid (auth_sessions d))) (\<lambda>row. case row of
       None \<Rightarrow> ret ()
     | Some r \<Rightarrow> if revoked_at r = None
         then bnd now_utc (\<lambda>now. sq (update (\<lambda>d. d\<lparr>auth_sessions :=
                upd_row sess_id sid (\<lambda>r. r\<lparr>last_activity_at := now\<rparr>) (auth_sessions d)\<rparr>)) flush)
         else ret ())"

section \<open>The service\<close>

text \<open>\<open>_record_audit_side_session\<close>.\<close>

definition side_audit :: "env \<Rightarrow> audit_action \<Rightarrow> string \<Rightarrow> uuid option \<Rightarrow> uuid option \<Rightarrow> pystr option \<Rightarrow> json \<Rightarrow> unit op" where
  "side_audit E act rt rid uid ip det = own_session (bnd (audit_record E act rt rid uid ip det) (\<lambda>_. commit))"

record sso_user_info =
  sso_id :: pystr
  sso_email :: pystr
  sso_display_name :: pystr
  raw_groups :: "pystr list"

definition nonempty_text :: "json option \<Rightarrow> pystr option" where
  "nonempty_text v = (case text_of v of Some (c # cs) \<Rightarrow> Some (c # cs) | _ \<Rightarrow> None)"

text \<open>\<open>raw.get('name') or email.split('@', 1)[0]\<close>, as a text.\<close>

definition display_name_of :: "outside \<Rightarrow> json option \<Rightarrow> pystr \<Rightarrow> pystr" where
  "display_name_of X v email = (case v of
     None \<Rightarrow> takeWhile (\<lambda>c. c \<noteq> 64) email
   | Some v \<Rightarrow> if \<not> truthy v then takeWhile (\<lambda>c. c \<noteq> 64) email
               else (case v of JText t \<Rightarrow> t | _ \<Rightarrow> json_str X v))"

definition group_texts :: "json option \<Rightarrow> pystr list" where
  "group_texts v = (case v of Some (JArr gs) \<Rightarrow> List.map_filter (\<lambda>g. text_of (Some g)) gs | _ \<Rightarrow> [])"

definition normalize_userinfo :: "outside \<Rightarrow> json \<Rightarrow> exn + sso_user_info" where
  "normalize_userinfo X raw = (case raw of
     JObj m \<Rightarrow> (case nonempty_text (map_of m ''sub'') of
         None \<Rightarrow> Inl (idp_error ''AUTH_001'')
       | Some sub \<Rightarrow> (case nonempty_text (map_of m ''email'') of
           None \<Rightarrow> Inl (idp_error ''AUTH_001'')
         | Some email \<Rightarrow> Inr \<lparr>sso_id = sub, sso_email = email,
             sso_display_name = display_name_of X (map_of m ''name'') email,
             raw_groups = group_texts (map_of m ''groups'')\<rparr>))
   | _ \<Rightarrow> Inl Attribute_error)"

fun map_groups_to_role :: "(pystr \<times> string) list \<Rightarrow> pystr list \<Rightarrow> role option" where
  "map_groups_to_role mapping [] = None"
| "map_groups_to_role mapping (g # gs) = (case map_of mapping g of
     None \<Rightarrow> map_groups_to_role mapping gs
   | Some name \<Rightarrow> (case role_of_value name of Some r \<Rightarrow> Some r | None \<Rightarrow> map_groups_to_role mapping gs))"

text \<open>\<open>t.encode('utf-8')\<close> of a text from JSON, which may hold lone surrogates.\<close>

definition encoded :: "pystr \<Rightarrow> exn + bytes" where
  "encoded t = (if list_all scalar_value t then Inr (utf8_encode t) else Inl Value_error)"

definition updated_user :: "env \<Rightarrow> sso_user_info \<Rightarrow> role \<Rightarrow> stamp \<Rightarrow> bytes \<Rightarrow> bytes \<Rightarrow> user \<Rightarrow> user" where
  "updated_user E info r now email enc u = u\<lparr>user_name := sso_display_name info, email_enc := enc,
     email_hash := lookup_hmac E email, user_roles := [role_value r], is_active := True, user_updated_at := now\<rparr>"

definition upsert_user :: "env \<Rightarrow> sso_user_info \<Rightarrow> role \<Rightarrow> user op" where
  "upsert_user E info r =
     bnd (lift (encoded (sso_id info))) (\<lambda>sub.
     bnd (query (\<lambda>d. find (\<lambda>u. sso_id_hash u = lookup_hmac E sub) (users d))) (\<lambda>found.
     bnd now_utc (\<lambda>now. case found of
       None \<Rightarrow>
         bnd (encrypt_field E sub) (\<lambda>_.
         bnd (lift (encoded (sso_email info))) (\<lambda>email.
         bnd (encrypt_field E email) (\<lambda>enc.
         bnd new_uuid (\<lambda>i. let u = \<lparr>user_id = i, sso_id_hash = lookup_hmac E sub, user_name = sso_display_name info,
                email_enc = enc, email_hash = lookup_hmac E email, user_roles = [role_value r],
                user_org_unit_id = None, is_active = True, user_created_at = now, user_updated_at = now\<rparr> in
         sq (update (\<lambda>d. d\<lparr>users := users d @ [u]\<rparr>))
        (sq flush (ret u))))))
     | Some u \<Rightarrow>
         bnd (lift (encoded (sso_email info))) (\<lambda>email.
         bnd (encrypt_field E email) (\<lambda>enc. let u' = updated_user E info r now email enc u in
         sq (update (\<lambda>d. d\<lparr>users := upd_row user_id (user_id u) (\<lambda>_. u') (users d)\<rparr>))
        (sq flush (ret u')))))))"

text \<open>The exchange with the provider: what \<open>fetch_userinfo\<close> answers for the code.\<close>

definition idp_userinfo :: "outside \<Rightarrow> sso_client \<Rightarrow> pystr \<Rightarrow> exn + json" where
  "idp_userinfo X c auth_code = fst (bnd (exchange_code X c auth_code) (\<lambda>v.
     case dict_get ''access_token'' v of
       Inl e \<Rightarrow> raise e
     | Inr t \<Rightarrow> (case text_of t of None \<Rightarrow> raise (idp_error ''AUTH_001'') | Some access \<Rightarrow> fetch_userinfo X c access)) None)"

definition handle_sso_callback ::
  "env \<Rightarrow> outside \<Rightarrow> sso_client option \<Rightarrow> pystr \<Rightarrow> pystr option \<Rightarrow> pystr option \<Rightarrow> session_tokens op" where
  "handle_sso_callback E X client auth_code ip agent = (case client of
     None \<Rightarrow> raise (idp_error ''AUTH_001'')
   | Some c \<Rightarrow>
       sq (check (auth_code \<noteq> []) (idp_error ''AUTH_001''))
      (bnd (lift (idp_userinfo X c auth_code)) (\<lambda>raw.
       bnd (lift (normalize_userinfo X raw)) (\<lambda>info.
       case map_groups_to_role (sso_role_mapping (cfg E)) (raw_groups info) of
         None \<Rightarrow>
           sq (side_audit E AUTH_FAILED ''user'' None None ip
                (JObj [(''reason'', JName ''no_role_mapping''), (''sso_id'', JText (sso_id info))]))
          (raise (app_err UnauthenticatedError ''AUTH_003''))
       | Some r \<Rightarrow>
           bnd (upsert_user E info r) (\<lambda>u.
           bnd (session_create E X u ip agent) (\<lambda>tokens.
           sq commit
          (sq (side_audit E LOGIN_SUCCESS ''user'' (Some (user_id u)) (Some (user_id u)) ip
                (JObj [(''role'', JName (role_value r)), (''session_id'', JUuid (tok_session_id tokens))]))
          (ret tokens))))))))"

definition refresh_session :: "env \<Rightarrow> outside \<Rightarrow> pystr \<Rightarrow> session_tokens op" where
  "refresh_session E X token =
     bnd (session_refresh E X token) (\<lambda>tokens.
     sq commit
    (sq (side_audit E LOGIN_SUCCESS ''session'' (Some (tok_session_id tokens)) (Some (tok_user_id tokens)) None
          (JObj [(''kind'', JName ''refresh'')]))
    (ret tokens)))"

definition service_logout :: "env \<Rightarrow> uuid \<Rightarrow> unit op" where
  "service_logout E sid =
     sq (session_revoke sid) (sq commit (side_audit E LOGOUT ''session'' (Some sid) None None (JObj [])))"

text \<open>A \<open>sub\<close> claim that is not the text of an identifier is refused with the same code.\<close>

definition sub_claim :: "json \<Rightarrow> uuid option" where
  "sub_claim claims = (case claims of
     JObj kvs \<Rightarrow> (case map_of kvs ''sub'' of Some (JUuid i) \<Rightarrow> Some i | _ \<Rightarrow> None) | _ \<Rightarrow> None)"

definition current_user :: "outside \<Rightarrow> pystr option \<Rightarrow> user op" where
  "current_user X cookie = (case cookie of
     None \<Rightarrow> raise auth_002
   | Some c \<Rightarrow>
       sq (check (c \<noteq> []) auth_002)
      (bnd (decode_access_token X c) (\<lambda>claims. case sub_claim claims of
         None \<Rightarrow> raise auth_002
       | Some uid \<Rightarrow> bnd (query (\<lambda>d. get_row user_id uid (users d))) (\<lambda>u. case u of
             None \<Rightarrow> raise auth_002
           | Some u \<Rightarrow> sq (check (is_active u) auth_002) (ret u)))))"

text \<open>\<open>require_scope\<close> of \<^verbatim>\<open>rbac.py\<close>: the path parameter, if it is the text of an identifier, must be in scope.\<close>

definition require_scope :: "outside \<Rightarrow> json option \<Rightarrow> pystr option \<Rightarrow> unit op" where
  "require_scope X raw_value ck = bnd (current_user X ck) (\<lambda>u. case raw_value of
     Some (JUuid target_id) \<Rightarrow> bnd (query (scoped_org_units u)) (\<lambda>sc.
       check (in_scope sc target_id) (app_err ForbiddenError ''RBAC_002''))
   | _ \<Rightarrow> raise (app_err ForbiddenError ''RBAC_002''))"

section \<open>Cookies\<close>

record cookie =
  ck_name :: string
  ck_value :: pystr
  max_age :: int
  http_only :: bool
  secure :: bool
  same_site :: string
  ck_path :: string
  ck_domain :: "pystr option"

definition SESSION_COOKIE_NAME :: string where "SESSION_COOKIE_NAME = ''bc_session''"
definition REFRESH_COOKIE_NAME :: string where "REFRESH_COOKIE_NAME = ''bc_refresh''"
definition CSRF_COOKIE_NAME :: string where "CSRF_COOKIE_NAME = ''bc_csrf''"
definition refresh_cookie_path :: string where "refresh_cookie_path = ''/api/v1/auth''"

definition domain_of :: "web_settings \<Rightarrow> pystr option" where
  "domain_of W = (if cookie_domain W = [] then None else Some (cookie_domain W))"

definition set_session_cookies :: "env \<Rightarrow> outside \<Rightarrow> session_tokens \<Rightarrow> cookie list" where
  "set_session_cookies E X tok = (let W = web X; S = cfg E in
     [\<lparr>ck_name = SESSION_COOKIE_NAME, ck_value = access_token tok, max_age = session_ttl_seconds S,
       http_only = True, secure = cookie_secure W, same_site = ''lax'', ck_path = ''/'', ck_domain = domain_of W\<rparr>,
      \<lparr>ck_name = REFRESH_COOKIE_NAME, ck_value = refresh_token tok, max_age = refresh_ttl_seconds S,
       http_only = True, secure = cookie_secure W, same_site = ''strict'', ck_path = refresh_cookie_path, ck_domain = domain_of W\<rparr>,
      \<lparr>ck_name = CSRF_COOKIE_NAME, ck_value = tok_csrf tok, max_age = refresh_ttl_seconds S,
       http_only = False, secure = cookie_secure W, same_site = ''strict'', ck_path = ''/'', ck_domain = domain_of W\<rparr>])"

text \<open>\<open>delete_cookie\<close> sets an empty cookie that expires at once.\<close>

definition delete_cookie :: "string \<Rightarrow> string \<Rightarrow> pystr option \<Rightarrow> cookie" where
  "delete_cookie name path dm = \<lparr>ck_name = name, ck_value = [], max_age = 0, http_only = False,
     secure = False, same_site = ''lax'', ck_path = path, ck_domain = dm\<rparr>"

definition clear_session_cookies :: "outside \<Rightarrow> cookie list" where
  "clear_session_cookies X = (let dm = domain_of (web X) in
     [delete_cookie SESSION_COOKIE_NAME ''/'' dm, delete_cookie REFRESH_COOKIE_NAME refresh_cookie_path dm,
      delete_cookie CSRF_COOKIE_NAME ''/'' dm])"

definition cookie_value :: "string \<Rightarrow> cookie list \<Rightarrow> pystr option" where
  "cookie_value name cs = map_of (map (\<lambda>c. (ck_name c, ck_value c)) cs) name"

section \<open>Routes\<close>

text \<open>\<open>s.rstrip('/')\<close> and \<open>urlencode\<close>.\<close>

definition rstrip_slash :: "pystr \<Rightarrow> pystr" where
  "rstrip_slash s = rev (dropWhile (\<lambda>c. c = 47) (rev s))"

definition upper_hex :: "nat \<Rightarrow> nat" where
  "upper_hex d = (if d < 10 then 48 + d else 55 + d)"

definition quote_plus_byte :: "nat \<Rightarrow> pystr" where
  "quote_plus_byte b = (if (48 \<le> b \<and> b \<le> 57) \<or> (65 \<le> b \<and> b \<le> 90) \<or> (97 \<le> b \<and> b \<le> 122)
       \<or> b \<in> {45, 46, 95, 126} then [b]
     else if b = 32 then [43] else [37, upper_hex (b div 16), upper_hex (b mod 16)])"

definition quote_plus :: "pystr \<Rightarrow> pystr" where
  "quote_plus s = concat (map quote_plus_byte (utf8_encode s))"

fun urlencode :: "(string \<times> pystr) list \<Rightarrow> pystr" where
  "urlencode [] = []"
| "urlencode [(k, v)] = quote_plus (str k) @ [61] @ quote_plus v"
| "urlencode ((k, v) # kvs) = quote_plus (str k) @ [61] @ quote_plus v @ [38] @ urlencode kvs"

definition sso_login :: "outside \<Rightarrow> pystr \<Rightarrow> pystr" where
  "sso_login X return_to = (let W = web X;
     base = (if sso_issuer W \<noteq> [] then sso_issuer W else case sso_discovery_url W of None \<Rightarrow> [] | Some u \<Rightarrow> u) in
     if base \<noteq> [] then rstrip_slash base @ str ''/authorize?'' @ urlencode
       [(''client_id'', sso_client_id W), (''redirect_uri'', sso_redirect_uri W), (''response_type'', str ''code''),
        (''scope'', sso_scopes W), (''state'', return_to)]
     else api_base_url W @ str ''/api/v1/auth/sso/callback?'' @ urlencode [(''code'', str ''dev''), (''state'', return_to)])"

text \<open>The address a login ends at: \<open>state\<close> is the query parameter of the callback.\<close>

definition login_target :: "web_settings \<Rightarrow> pystr \<Rightarrow> pystr" where
  "login_target W state = (let path = (if state \<noteq> [] then state else str ''/'') in
     if frontend_origin W \<noteq> [] then rstrip_slash (frontend_origin W) @ path else path)"

definition sso_callback :: "env \<Rightarrow> outside \<Rightarrow> pystr \<Rightarrow> pystr \<Rightarrow> pystr option \<Rightarrow> pystr option \<Rightarrow> (pystr \<times> cookie list) op" where
  "sso_callback E X auth_code state ip agent = get_session (
     bnd (handle_sso_callback E X (Some (get_sso_client (web X))) auth_code ip agent) (\<lambda>tokens.
     ret (login_target (web X) state, set_session_cookies E X tokens)))"

definition refresh_route :: "env \<Rightarrow> outside \<Rightarrow> pystr option \<Rightarrow> cookie list op" where
  "refresh_route E X raw = get_session (case raw of
     None \<Rightarrow> raise auth_002
   | Some token \<Rightarrow>
       sq (check (token \<noteq> []) auth_002)
      (bnd (refresh_session E X token) (\<lambda>tokens. ret (set_session_cookies E X tokens))))"

definition is_unauthenticated :: "exn \<Rightarrow> bool" where
  "is_unauthenticated e = (case e of App a \<Rightarrow> cls a = UnauthenticatedError | _ \<Rightarrow> False)"

definition open_sessions :: "uuid \<Rightarrow> db \<Rightarrow> auth_session list" where
  "open_sessions uid d = filter (\<lambda>r. sess_user_id r = uid \<and> revoked_at r = None) (auth_sessions d)"

definition logout_route :: "env \<Rightarrow> outside \<Rightarrow> pystr option \<Rightarrow> cookie list op" where
  "logout_route E X cookie = get_session (
     bnd (catch (bnd (current_user X cookie) (\<lambda>u. ret (Some u)))
                (\<lambda>e. if is_unauthenticated e then ret None else raise e)) (\<lambda>found. case found of
       None \<Rightarrow> ret (clear_session_cookies X)
     | Some u \<Rightarrow>
         bnd (query (open_sessions (user_id u))) (\<lambda>rs.
         bnd (mapA (\<lambda>r. service_logout E (sess_id r)) rs) (\<lambda>_.
         ret (clear_session_cookies X)))))"

record who_am_i =
  me_user_id :: uuid
  me_role :: "string option"
  me_roles :: "string list"
  me_org_unit_id :: "uuid option"
  me_display_name :: pystr

text \<open>\<open>role_set()\<close> is a set: the order of \<open>roles\<close> in the answer is not determined.\<close>

definition whoami :: "outside \<Rightarrow> pystr option \<Rightarrow> who_am_i op" where
  "whoami X cookie = get_session (bnd (current_user X cookie) (\<lambda>u.
     ret \<lparr>me_user_id = user_id u, me_role = map_option role_value (primary_role u),
          me_roles = map role_value (remdups (role_set u)), me_org_unit_id = user_org_unit_id u,
          me_display_name = user_name u\<rparr>))"

section \<open>What the operations do\<close>

definition new_session :: "env \<Rightarrow> outside \<Rightarrow> user \<Rightarrow> pystr option \<Rightarrow> pystr option \<Rightarrow> session \<Rightarrow> auth_session" where
  "new_session E X u ip agent s = \<lparr>sess_id = uid_next s + 2, sess_user_id = user_id u,
     refresh_token_hash = text_hash E (random_token E (uid_next s)), csrf_token = token_hex X (uid_next s + 1),
     sess_ip = ip, sess_agent = agent, last_activity_at = clock s,
     absolute_expires_at = clock s + micros (refresh_ttl_seconds (cfg E)), revoked_at = None, sess_created_at = clock s\<rparr>"

definition minted :: "env \<Rightarrow> outside \<Rightarrow> user \<Rightarrow> session \<Rightarrow> session_tokens" where
  "minted E X u s = \<lparr>access_token = jwt_encode X (signing_key (web X))
       (access_claims (user_id u) (primary_role u) (user_org_unit_id u) (epoch_seconds (clock s)) (session_ttl_seconds (cfg E))),
     refresh_token = random_token E (uid_next s), tok_csrf = token_hex X (uid_next s + 1),
     tok_session_id = uid_next s + 2, tok_user_id = user_id u,
     expires_at = clock s + micros (refresh_ttl_seconds (cfg E))\<rparr>"

lemma session_create_run:
  "session_create E X u ip agent s =
     (let d = (cur s)\<lparr>auth_sessions := auth_sessions (cur s) @ [new_session E X u ip agent s]\<rparr> in
      if db_ok d then (Inr (minted E X u s), s\<lparr>cur := d, uid_next := uid_next s + 3\<rparr>)
      else (Inl Integrity_error, s\<lparr>cur := com s, uid_next := uid_next s + 3\<rparr>))"
  by (simp add: session_create_def issue_csrf_token_def encode_access_token_def act_simps Let_def new_session_def
      minted_def numeral_2_eq_2 numeral_3_eq_3)

lemma audit_row_ip [simp]: "ip_address (audit_row E act rt rid uid ip det s) = ip"
  by (simp add: audit_row_def Let_def)

definition side_audited :: "env \<Rightarrow> audit_action \<Rightarrow> string \<Rightarrow> uuid option \<Rightarrow> uuid option \<Rightarrow> pystr option \<Rightarrow> json
    \<Rightarrow> session \<Rightarrow> session" where
  "side_audited E act rt rid uid ip det s =
     (let d = (com s)\<lparr>audit_logs := audit_logs (com s) @ [audit_row E act rt rid uid ip det (s\<lparr>cur := com s\<rparr>)]\<rparr>
      in s\<lparr>cur := d, com := d, seq_next := Suc (seq_next s), uid_next := Suc (uid_next s)\<rparr>)"

lemma run_side_audit:
  assumes "store_inv E s"
  shows "side_audit E act rt rid uid ip det s = (Inr (), side_audited E act rt rid uid ip det s)"
proof -
  let ?b = "s\<lparr>cur := com s\<rparr>"
  let ?r = "audit_row E act rt rid uid ip det ?b"
  have fresh: "seq_fresh ?b" using assms by (rule seq_fresh_rebase)
  then have below: "\<forall>r \<in> set (audit_logs (cur ?b)). sequence_no r < seq_next ?b"
    by (simp add: seq_fresh_def)
  have ok: "db_ok (com s)" using assms by (simp add: store_inv_def)
  have "db_ok ((com s)\<lparr>audit_logs := audit_logs (com s) @ [?r]\<rparr>)"
    using db_ok_audit [OF fresh, of ?r] ok by simp
  with ok show ?thesis
    by (simp add: side_audit_def act_simps audit_record_cases [OF below] side_audited_def Let_def)
qed

lemma side_audited_simps [simp]:
  "auth_sessions (com (side_audited E act rt rid uid ip det s)) = auth_sessions (com s)"
  "users (com (side_audited E act rt rid uid ip det s)) = users (com s)"
  "cur (side_audited E act rt rid uid ip det s) = com (side_audited E act rt rid uid ip det s)"
  "clock (side_audited E act rt rid uid ip det s) = clock s"
  "audit_logs (com (side_audited E act rt rid uid ip det s)) =
     audit_logs (com s) @ [audit_row E act rt rid uid ip det (s\<lparr>cur := com s\<rparr>)]"
  by (simp_all add: side_audited_def Let_def)

subsection \<open>The common invariant\<close>

context audited_inv
begin

lemma kept_side_audit [preserves_intros]: "preserves P (side_audit E act rt rid uid ip det)"
  unfolding side_audit_def
  by (rule preserves_own_session) (intro preserves_intros, rule kept_rebase)

lemma kept_sessions [preserves_intros]:
  "preserves P (session_create E X u ip agent)"
  "preserves P (session_revoke sid)"
  unfolding session_create_def session_revoke_def issue_csrf_token_def encode_access_token_def revoke_row_def Let_def
  by (intro preserves_intros; simp)+

lemma kept_refresh [preserves_intros]: "preserves P (session_refresh E X token)"
  unfolding session_refresh_def revoke_row_def by (intro preserves_intros; simp)

lemma kept_upsert [preserves_intros]: "preserves P (upsert_user E info r)"
  unfolding upsert_user_def Let_def by (intro preserves_intros; simp)

lemma kept_service [preserves_intros]:
  "preserves P (handle_sso_callback E X client auth_code ip agent)"
  "preserves P (refresh_session E X token)"
  "preserves P (service_logout E sid)"
  "preserves P (current_user X cookie)"
  unfolding handle_sso_callback_def refresh_session_def service_logout_def current_user_def decode_access_token_def
  by (intro preserves_intros; simp)+

lemma kept_auth_routes [preserves_intros]:
  "preserves P (sso_callback E X auth_code state ip agent)"
  "preserves P (refresh_route E X raw)"
  "preserves P (logout_route E X cookie)"
  unfolding sso_callback_def refresh_route_def logout_route_def by (intro preserves_intros; simp)+

end

section \<open>What holds of the pending and of the committed tables\<close>

definition both :: "(db \<Rightarrow> bool) \<Rightarrow> session \<Rightarrow> bool" where
  "both P s \<longleftrightarrow> P (cur s) \<and> P (com s)"

lemma both_basic [preserves_intros]:
  "preserves (both P) rollback"
  "preserves (both P) flush"
  "preserves (both P) commit"
  "preserves (both P) new_uuid"
  "preserves (both P) next_sequence_no"
  "(\<And>d. P d \<Longrightarrow> P (f d)) \<Longrightarrow> preserves (both P) (update f)"
  by (auto simp: preserves_def both_def act_simps)

lemma both_record [preserves_intros]:
  "(\<And>d ls. P (d\<lparr>audit_logs := ls\<rparr>) = P d) \<Longrightarrow> preserves (both P) (audit_record E act rt rid uid ip det)"
  unfolding audit_record_def Let_def by (intro preserves_intros; simp)

lemma both_side_audit [preserves_intros]:
  "(\<And>d ls. P (d\<lparr>audit_logs := ls\<rparr>) = P d) \<Longrightarrow> preserves (both P) (side_audit E act rt rid uid ip det)"
  unfolding side_audit_def by (rule preserves_own_session) (intro preserves_intros, simp_all add: both_def)

lemma both_storage [preserves_intros]: "preserves (both P) (encrypt_field E p)"
  unfolding encrypt_field_def by (intro preserves_intros)

section \<open>A refresh token is used once\<close>

text \<open>The row of a token that was exchanged, or logged out.\<close>

definition retired :: "bytes \<Rightarrow> db \<Rightarrow> bool" where
  "retired h d \<longleftrightarrow> (\<exists>r \<in> set (auth_sessions d). refresh_token_hash r = h \<and> revoked_at r \<noteq> None)"

lemma retired_append: "retired h d \<Longrightarrow> retired h (d\<lparr>auth_sessions := auth_sessions d @ rs\<rparr>)"
  by (auto simp: retired_def)

lemma retired_upd:
  assumes "retired h d" "\<And>r. refresh_token_hash (f r) = refresh_token_hash r"
    "\<And>r. revoked_at r \<noteq> None \<Longrightarrow> revoked_at (f r) \<noteq> None"
  shows "retired h (d\<lparr>auth_sessions := upd_row sess_id i f (auth_sessions d)\<rparr>)"
proof -
  from assms(1) obtain r where r: "r \<in> set (auth_sessions d)" "refresh_token_hash r = h" "revoked_at r \<noteq> None"
    by (auto simp: retired_def)
  let ?r = "if sess_id r = i then f r else r"
  have "?r \<in> set (upd_row sess_id i f (auth_sessions d))" using r(1) by (simp add: upd_row_def)
  moreover have "refresh_token_hash ?r = h \<and> revoked_at ?r \<noteq> None" using r assms(2,3) by simp
  ultimately show ?thesis by (auto simp: retired_def)
qed

lemma retired_revoke: "retired h d \<Longrightarrow> retired h (revoke_row i now d)"
  unfolding revoke_row_def by (rule retired_upd) simp_all

lemma retired_other [simp]: "auth_sessions d = auth_sessions e \<Longrightarrow> retired h d \<Longrightarrow> retired h e"
  by (simp add: retired_def)

lemma retired_log [simp]: "retired h (d\<lparr>audit_logs := ls\<rparr>) = retired h d"
  by (simp add: retired_def)

lemma retired_sessions [preserves_intros]:
  "preserves (both (retired h)) (session_create E X u ip agent)"
  "preserves (both (retired h)) (session_revoke sid)"
  unfolding session_create_def session_revoke_def issue_csrf_token_def encode_access_token_def Let_def
  by (intro preserves_intros; simp add: retired_append retired_revoke)+

lemma retired_refresh [preserves_intros]: "preserves (both (retired h)) (session_refresh E X token)"
  unfolding session_refresh_def by (intro preserves_intros; simp add: retired_revoke)

lemma retired_users [simp]: "retired h (d\<lparr>users := us\<rparr>) = retired h d"
  by (simp add: retired_def)

lemma retired_upsert [preserves_intros]: "preserves (both (retired h)) (upsert_user E info r)"
  unfolding upsert_user_def Let_def by (intro preserves_intros; simp)

lemma retired_services [preserves_intros]:
  "preserves (both (retired h)) (service_logout E sid)"
  "preserves (both (retired h)) (current_user X cookie)"
  unfolding service_logout_def current_user_def decode_access_token_def by (intro preserves_intros; simp)+

lemma retired_callback [preserves_intros]:
  "preserves (both (retired h)) (handle_sso_callback E X client auth_code ip agent)"
  "preserves (both (retired h)) (refresh_session E X token)"
  unfolding handle_sso_callback_def refresh_session_def by (intro preserves_intros; simp)+

lemma retired_routes [preserves_intros]:
  "preserves (both (retired h)) (sso_callback E X auth_code state ip agent)"
  "preserves (both (retired h)) (refresh_route E X raw)"
  "preserves (both (retired h)) (logout_route E X cookie)"
  unfolding sso_callback_def refresh_route_def logout_route_def
  by (rule preserves_get_session, intro preserves_intros, simp add: both_def)+

text \<open>
  What can happen between two requests: other logins, refreshes and logouts, any request that
  leaves the table of sessions alone, and time.
\<close>

inductive auth_step :: "env \<Rightarrow> outside \<Rightarrow> session \<Rightarrow> session \<Rightarrow> bool" for E X where
  login: "auth_step E X s (snd (sso_callback E X auth_code state ip agent s))"
| refresh: "auth_step E X s (snd (refresh_route E X raw s))"
| logout: "auth_step E X s (snd (logout_route E X cookie s))"
| other_request: "store_inv E t \<Longrightarrow> cur t = com t \<Longrightarrow> auth_sessions (com t) = auth_sessions (com s) \<Longrightarrow> auth_step E X s t"
| time_passes: "auth_step E X s (s\<lparr>clock := now\<rparr>)"

lemma cur_get_session: "cur (snd (get_session m s)) = com (snd (get_session m s))"
  by (simp add: snd_get_session)

definition between :: "env \<Rightarrow> bytes \<Rightarrow> session \<Rightarrow> bool" where
  "between E h s \<longleftrightarrow> store_inv E s \<and> cur s = com s \<and> retired h (com s)"

lemma between_route:
  assumes "between E h s" "preserves (store_inv E) (get_session m)" "preserves (both (retired h)) (get_session m)"
  shows "between E h (snd (get_session m s))"
proof -
  from assms(1) have s: "store_inv E s" "both (retired h) s"
    by (simp_all add: between_def both_def)
  from preserves_run [OF assms(2) s(1)] preserves_run [OF assms(3) s(2)] show ?thesis
    by (simp add: between_def both_def cur_get_session)
qed

lemma between_step: "auth_step E X s t \<Longrightarrow> between E h s \<Longrightarrow> between E h t"
proof (induction rule: auth_step.induct)
  case (login s auth_code state ip agent)
  then show ?case
    using between_route [OF _ stored.kept_auth_routes(1) [unfolded sso_callback_def] retired_routes(1) [unfolded sso_callback_def]]
    by (simp add: sso_callback_def)
next
  case (refresh s raw)
  then show ?case
    using between_route [OF _ stored.kept_auth_routes(2) [unfolded refresh_route_def] retired_routes(2) [unfolded refresh_route_def]]
    by (simp add: refresh_route_def)
next
  case (logout s cookie)
  then show ?case
    using between_route [OF _ stored.kept_auth_routes(3) [unfolded logout_route_def] retired_routes(3) [unfolded logout_route_def]]
    by (simp add: logout_route_def)
next
  case (other_request t s)
  then show ?case by (simp add: between_def retired_def)
next
  case (time_passes s now)
  then show ?case by (simp add: between_def)
qed

lemma between_steps: "(auth_step E X)\<^sup>*\<^sup>* s t \<Longrightarrow> between E h s \<Longrightarrow> between E h t"
  by (induction rule: rtranclp_induct) (auto intro: between_step)

lemma session_by_hash_Some: "session_by_hash h d = Some r \<Longrightarrow> r \<in> set (auth_sessions d) \<and> refresh_token_hash r = h"
  by (auto simp: session_by_hash_def find_Some_iff)

lemma session_by_hash_eq:
  assumes "db_ok d" "r \<in> set (auth_sessions d)"
  shows "session_by_hash (refresh_token_hash r) d = Some r"
proof (cases "session_by_hash (refresh_token_hash r) d")
  case None
  with assms(2) show ?thesis by (auto simp: session_by_hash_def find_None_iff)
next
  case (Some q)
  then have "q \<in> set (auth_sessions d)" "refresh_token_hash q = refresh_token_hash r"
    by (simp_all add: session_by_hash_Some)
  moreover have "distinct (map refresh_token_hash (auth_sessions d))"
    using assms(1) by (simp add: db_ok_def auth_sessions_ok_def)
  ultimately have "q = r" using assms(2) by (metis distinct_map_eq)
  with Some show ?thesis by simp
qed

lemma retired_refused:
  assumes "between E (text_hash E raw) s"
  shows "refresh_route E X (Some raw) s = (Inl auth_002, s)"
proof -
  from assms have ok: "db_ok (com s)" and cur: "cur s = com s" by (simp_all add: between_def store_inv_def)
  from assms obtain r where r: "r \<in> set (auth_sessions (com s))" "refresh_token_hash r = text_hash E raw"
      "revoked_at r \<noteq> None" by (auto simp: between_def retired_def)
  have "session_by_hash (text_hash E raw) (com s) = Some r"
    using session_by_hash_eq [OF ok r(1)] r(2) by simp
  moreover from r(3) obtain at where "revoked_at r = Some at" by auto
  ultimately have "session_refresh E X raw s = (Inl auth_002, s)"
    by (simp add: session_refresh_def act_simps cur)
  then show ?thesis
    by (simp add: refresh_route_def refresh_session_def act_simps session_base [OF cur] auth_002_def app_error_init_def)
qed

section \<open>Turning a cookie into a user\<close>

lemma current_user_Inr: "current_user X ck s = (Inr u, t) \<longleftrightarrow> t = s \<and> is_active u \<and>
    (\<exists>c claims uid. ck = Some c \<and> c \<noteq> [] \<and> jwt_decode X (clock s) (signing_key (web X)) c = Some claims \<and>
       sub_claim claims = Some uid \<and> get_row user_id uid (users (cur s)) = Some u)"
  by (auto simp: current_user_def decode_access_token_def act_simps split: option.splits)

lemma sub_access_claims [simp]: "sub_claim (access_claims uid r ou iat ttl) = Some uid"
  by (simp add: sub_claim_def access_claims_def)

lemma minted_token_authenticates:
  assumes "jwt_ok X" "0 < session_ttl_seconds (cfg E)" "clock s = clock t"
    "get_row user_id (user_id u) (users (com t)) = Some u" "is_active u"
  shows "get_session (current_user X (Some (access_token (minted E X u s)))) t = (Inr u, t\<lparr>cur := com t\<rparr>)"
proof -
  let ?ttl = "session_ttl_seconds (cfg E)"
  let ?c = "access_claims (user_id u) (primary_role u) (user_org_unit_id u) (epoch_seconds (clock s)) ?ttl"
  have "epoch_seconds (clock s) * 1000000 \<le> clock t" "clock t < (epoch_seconds (clock s) + ?ttl) * 1000000"
    using assms(2,3) by (simp_all add: epoch_seconds_def)
  with assms(1) have "jwt_decode X (clock t) (signing_key (web X)) (access_token (minted E X u s)) = Some ?c"
      "access_token (minted E X u s) \<noteq> []"
    by (simp_all add: jwt_ok_def minted_def)
  then have "current_user X (Some (access_token (minted E X u s))) (t\<lparr>cur := com t\<rparr>) = (Inr u, t\<lparr>cur := com t\<rparr>)"
    using assms(4,5) by (simp add: current_user_Inr)
  then show ?thesis by (simp add: get_session_simp)
qed

section \<open>Login\<close>

text \<open>The rows of users a login can leave.\<close>

definition login_row :: "env \<Rightarrow> sso_user_info \<Rightarrow> role \<Rightarrow> user \<Rightarrow> bool" where
  "login_row E info r u \<longleftrightarrow> sso_id_hash u = text_hash E (sso_id info) \<and> user_name u = sso_display_name info
     \<and> email_hash u = text_hash E (sso_email info) \<and> user_roles u = [role_value r] \<and> is_active u"

lemma find_mem: "find P xs = Some x \<Longrightarrow> x \<in> set xs \<and> P x"
  by (auto simp: find_Some_iff)

lemma upd_row_mem: "x \<in> set xs \<Longrightarrow> y \<in> set (upd_row key (key x) (\<lambda>_. y) xs)"
  by (auto simp: upd_row_def image_iff)

lemma upsert_user_Inr:
  assumes "upsert_user E info r s = (Inr u, t)"
  shows "login_row E info r u" "u \<in> set (users (cur t))" "db_ok (cur t)" "com t = com s" "clock t = clock s"
    "audit_logs (cur t) = audit_logs (cur s)" "auth_sessions (cur t) = auth_sessions (cur s)"
proof -
  show "login_row E info r u" "u \<in> set (users (cur t))" "db_ok (cur t)" "com t = com s" "clock t = clock s"
    "audit_logs (cur t) = audit_logs (cur s)" "auth_sessions (cur t) = auth_sessions (cur s)"
    using assms
    by (auto simp: upsert_user_def act_simps encrypt_field_run Let_def encoded_def login_row_def text_hash_def
        updated_user_def dest!: find_mem intro!: upd_row_mem
        split: option.splits if_splits)
qed

lemma get_session_Inr: "get_session m s = (Inr r, t) \<longleftrightarrow>
    (\<exists>v. m (s\<lparr>cur := com s\<rparr>) = (Inr r, v) \<and> t = v\<lparr>cur := com v\<rparr>)"
  by (auto simp: get_session_def split: prod.splits sum.splits exn.splits)

text \<open>How a callback that answered came about: the identity, the user, the session, the record.\<close>

lemma callback_Inr:
  assumes "store_inv E s" "sso_callback E X c st ip ag s = (Inr (target, cookies), t)"
  obtains raw info r u v where
    "idp_userinfo X (get_sso_client (web X)) c = Inr raw" "normalize_userinfo X raw = Inr info"
    "map_groups_to_role (sso_role_mapping (cfg E)) (raw_groups info) = Some r"
    "login_row E info r u" "u \<in> set (users (cur v))" "clock v = clock s"
    "audit_logs (cur v) = audit_logs (com s)" "auth_sessions (cur v) = auth_sessions (com s)"
    "cookies = set_session_cookies E X (minted E X u v)" "target = login_target (web X) st"
    "db_ok ((cur v)\<lparr>auth_sessions := auth_sessions (com s) @ [new_session E X u ip ag v]\<rparr>)"
    "users (com t) = users (cur v)" "clock t = clock s" "cur t = com t"
    "auth_sessions (com t) = auth_sessions (com s) @ [new_session E X u ip ag v]"
    "\<exists>row. audit_logs (com t) = audit_logs (com s) @ [row] \<and> action row = LOGIN_SUCCESS
       \<and> al_user_id row = Some (user_id u) \<and> ip_address row = ip"
proof -
  define b where "b = s\<lparr>cur := com s\<rparr>"
  have b: "store_inv E b" "cur b = com s" "com b = com s" "clock b = clock s"
    using assms(1) by (simp_all add: b_def store_inv_rebase)
  from assms(2) obtain tok w where h: "handle_sso_callback E X (Some (get_sso_client (web X))) c ip ag b = (Inr tok, w)"
      and ans: "target = login_target (web X) st" "cookies = set_session_cookies E X tok" "t = w\<lparr>cur := com w\<rparr>"
    by (auto simp: sso_callback_def get_session_Inr act_inv b_def)
  from h obtain raw info where idp: "idp_userinfo X (get_sso_client (web X)) c = Inr raw" "normalize_userinfo X raw = Inr info"
    by (auto simp: handle_sso_callback_def act_inv lift_def)
  show thesis
  proof (cases "map_groups_to_role (sso_role_mapping (cfg E)) (raw_groups info)")
    case None
    with h idp show thesis by (simp add: handle_sso_callback_def act_inv lift_def)
  next
    case (Some r)
    from h idp Some obtain u v x y z where up: "upsert_user E info r b = (Inr u, v)"
        and mk: "session_create E X u ip ag v = (Inr tok, x)" and cm: "commit x = (Inr (), y)"
        and sa: "side_audit E LOGIN_SUCCESS ''user'' (Some (user_id u)) (Some (user_id u)) ip
                (JObj [(''role'', JName (role_value r)), (''session_id'', JUuid (tok_session_id tok))]) y = (Inr (), w)"
      by (auto simp: handle_sso_callback_def act_inv lift_def split: if_splits)
    note u = upsert_user_Inr [OF up]
    from mk have x: "x = v\<lparr>cur := (cur v)\<lparr>auth_sessions := auth_sessions (cur v) @ [new_session E X u ip ag v]\<rparr>, uid_next := uid_next v + 3\<rparr>"
        "db_ok ((cur v)\<lparr>auth_sessions := auth_sessions (cur v) @ [new_session E X u ip ag v]\<rparr>)"
        "tok = minted E X u v"
      by (auto simp: session_create_run Let_def split: if_splits)
    have y: "y = x\<lparr>com := cur x\<rparr>" using cm by (simp add: commit_Inr)
    have inv: "store_inv E y"
    proof -
      have "store_inv E v" using preserves_run [OF stored.kept_upsert b(1), of info r] up by simp
      then have "store_inv E x" using preserves_run [OF stored.kept_sessions(1), of E v X u ip ag] mk by simp
      then show ?thesis using preserves_run [OF stored.kept_basic(3), of E x] cm by simp
    qed
    note w = run_side_audit [OF inv, of LOGIN_SUCCESS "''user''" "Some (user_id u)" "Some (user_id u)" ip
        "JObj [(''role'', JName (role_value r)), (''session_id'', JUuid (tok_session_id tok))]", unfolded sa]
    show thesis
      by (rule that [OF idp Some u(1,2)]) (use u b x y w ans in auto)
  qed
qed

section \<open>Refresh and logout\<close>

lemma map_upd_row: "(\<And>r. g (f r) = g r) \<Longrightarrow> map g (upd_row key k f xs) = map g xs"
  by (simp add: upd_row_def)

lemma db_ok_revoke [simp]: "db_ok (revoke_row i now d) = db_ok d"
  by (simp add: revoke_row_def db_ok_def auth_sessions_ok_def map_upd_row)

lemma revoke_row_tables [simp]:
  "users (revoke_row i now d) = users d" "audit_logs (revoke_row i now d) = audit_logs d"
  "auth_sessions (revoke_row i now d) = upd_row sess_id i (\<lambda>r. r\<lparr>revoked_at := Some now\<rparr>) (auth_sessions d)"
  by (simp_all add: revoke_row_def)

lemma session_refresh_Inr:
  assumes "session_refresh E X token s = (Inr tok, t)"
  obtains r u where "session_by_hash (text_hash E token) (cur s) = Some r" "revoked_at r = None"
    "clock s < absolute_expires_at r" "get_row user_id (sess_user_id r) (users (cur s)) = Some u" "is_active u"
    "tok = minted E X u s" "db_ok (cur t)"
    "auth_sessions (cur t) = upd_row sess_id (sess_id r) (\<lambda>r. r\<lparr>revoked_at := Some (clock s)\<rparr>) (auth_sessions (cur s))
       @ [new_session E X u (sess_ip r) (sess_agent r) s]"
  using assms
  by (auto simp: session_refresh_def act_simps session_create_run Let_def minted_def new_session_def
      split: option.splits if_splits)

lemma refresh_Inr:
  assumes "store_inv E s" "refresh_route E X (Some token) s = (Inr cookies, t)"
  obtains r u where "session_by_hash (text_hash E token) (com s) = Some r" "revoked_at r = None"
    "clock s < absolute_expires_at r" "get_row user_id (sess_user_id r) (users (com s)) = Some u" "is_active u"
    "cookies = set_session_cookies E X (minted E X u s)" "store_inv E t" "cur t = com t"
    "auth_sessions (com t) = upd_row sess_id (sess_id r) (\<lambda>r. r\<lparr>revoked_at := Some (clock s)\<rparr>) (auth_sessions (com s))
       @ [new_session E X u (sess_ip r) (sess_agent r) s]"
proof -
  define b where "b = s\<lparr>cur := com s\<rparr>"
  have b: "store_inv E b" "cur b = com s" "clock b = clock s" "uid_next b = uid_next s"
    using assms(1) by (simp_all add: b_def store_inv_rebase)
  from assms(2) obtain tok x y w where mk: "session_refresh E X token b = (Inr tok, x)" and cm: "commit x = (Inr (), y)"
      and sa: "side_audit E LOGIN_SUCCESS ''session'' (Some (tok_session_id tok)) (Some (tok_user_id tok)) None
          (JObj [(''kind'', JName ''refresh'')]) y = (Inr (), w)"
      and ans: "cookies = set_session_cookies E X tok" "t = w\<lparr>cur := com w\<rparr>"
    by (auto simp: refresh_route_def refresh_session_def get_session_Inr act_inv b_def split: if_splits)
  have inv: "store_inv E y"
    using preserves_run [OF stored.kept_refresh b(1), of X token] mk preserves_run [OF stored.kept_basic(3), of E x] cm by simp
  have y: "y = x\<lparr>com := cur x\<rparr>" using cm by (simp add: commit_Inr)
  note w = run_side_audit [OF inv, of LOGIN_SUCCESS "''session''" "Some (tok_session_id tok)" "Some (tok_user_id tok)" None
      "JObj [(''kind'', JName ''refresh'')]", unfolded sa]
  have t: "store_inv E t"
    using preserves_run [OF stored.kept_auth_routes(2) assms(1), of X "Some token"] assms(2) by simp
  have eq: "minted E X u b = minted E X u s" "new_session E X u i ag b = new_session E X u i ag s" for u i ag
    by (simp_all add: minted_def new_session_def b)
  from mk show thesis
    by (rule session_refresh_Inr) (rule that, use b y w ans t in \<open>simp_all add: eq\<close>)
qed

lemma upd_row_image:
  "distinct (map key rs) \<Longrightarrow> x \<in> set rs \<Longrightarrow> f x \<in> set (upd_row key (key x) f rs)"
  by (auto simp: upd_row_def image_iff)

text \<open>One round of the loop of the logout route, and the whole loop.\<close>

definition revoke_all :: "uuid set \<Rightarrow> stamp \<Rightarrow> auth_session list \<Rightarrow> auth_session list" where
  "revoke_all ids now rs = map (\<lambda>r. if sess_id r \<in> ids then r\<lparr>revoked_at := Some now\<rparr> else r) rs"

lemma service_logout_run:
  assumes inv: "store_inv E s" and cur: "cur s = com s" and row: "get_row sess_id sid (auth_sessions (com s)) = Some r"
    and live: "revoked_at r = None"
  shows "\<exists>t. service_logout E sid s = (Inr (), t) \<and> store_inv E t \<and> cur t = com t \<and> clock t = clock s
    \<and> users (com t) = users (com s) \<and> auth_sessions (com t) = revoke_all {sid} (clock s) (auth_sessions (com s))"
proof -
  define v where "v = s\<lparr>cur := revoke_row sid (clock s) (com s), com := revoke_row sid (clock s) (com s)\<rparr>"
  have ok: "db_ok (com s)" using inv by (simp add: store_inv_def)
  have rv: "session_revoke sid s = (Inr (), s\<lparr>cur := revoke_row sid (clock s) (com s)\<rparr>)"
    using row live ok by (simp add: session_revoke_def act_simps cur)
  have cm: "commit (s\<lparr>cur := revoke_row sid (clock s) (com s)\<rparr>) = (Inr (), v)"
    using ok by (simp add: run_commit v_def)
  have "store_inv E v"
    using preserves_run [OF stored.kept_sessions(2) inv, of sid] rv
      preserves_run [OF stored.kept_basic(3), of E "s\<lparr>cur := revoke_row sid (clock s) (com s)\<rparr>"] cm by simp
  note sa = run_side_audit [OF this, of LOGOUT "''session''" "Some sid" None None "JObj []"]
  have run: "service_logout E sid s = (Inr (), side_audited E LOGOUT ''session'' (Some sid) None None (JObj []) v)"
    by (simp add: service_logout_def run_sq rv cm sa)
  moreover have "store_inv E (side_audited E LOGOUT ''session'' (Some sid) None None (JObj []) v)"
    using preserves_run [OF stored.kept_service(3) inv, of sid] run by simp
  ultimately show ?thesis
    by (simp add: v_def revoke_all_def upd_row_def)
qed

lemma revoke_all_ids [simp]: "map sess_id (revoke_all ids now rs) = map sess_id rs"
  by (simp add: revoke_all_def)

lemma revoke_all_twice: "revoke_all B now (revoke_all A now rs) = revoke_all (A \<union> B) now rs"
  by (simp add: revoke_all_def)

lemma logout_loop:
  assumes "store_inv E s" "cur s = com s" "distinct (map sess_id rs)"
    "\<And>r. r \<in> set rs \<Longrightarrow> get_row sess_id (sess_id r) (auth_sessions (com s)) = Some r \<and> revoked_at r = None"
  shows "\<exists>us t. mapA (\<lambda>r. service_logout E (sess_id r)) rs s = (Inr us, t) \<and> cur t = com t \<and> clock t = clock s
    \<and> users (com t) = users (com s) \<and> auth_sessions (com t) = revoke_all (sess_id ` set rs) (clock s) (auth_sessions (com s))"
  using assms
proof (induction rs arbitrary: s)
  case Nil
  then show ?case by (simp add: revoke_all_def)
next
  case (Cons r rs)
  from service_logout_run [OF Cons.prems(1,2), of "sess_id r" r] Cons.prems(4) [of r] obtain t where
    t: "service_logout E (sess_id r) s = (Inr (), t)" "store_inv E t" "cur t = com t" "clock t = clock s"
      "users (com t) = users (com s)" "auth_sessions (com t) = revoke_all {sess_id r} (clock s) (auth_sessions (com s))"
    by auto
  have still: "get_row sess_id (sess_id q) (auth_sessions (com t)) = Some q \<and> revoked_at q = None" if "q \<in> set rs" for q
  proof -
    have q: "get_row sess_id (sess_id q) (auth_sessions (com s)) = Some q" "revoked_at q = None"
      using Cons.prems(4) [of q] that by simp_all
    have "sess_id q \<noteq> sess_id r" using Cons.prems(3) that by (metis distinct.simps(2) image_eqI list.set_map list.simps(9))
    then show ?thesis using q
      by (simp add: t(6) revoke_all_def flip: upd_row_def) (simp add: get_upd_row)
  qed
  from Cons.prems(3) have "distinct (map sess_id rs)" by simp
  note ih = Cons.IH [OF t(2,3) this still]
  obtain us v where
    v: "mapA (\<lambda>r. service_logout E (sess_id r)) rs t = (Inr us, v)" "cur v = com v" "clock v = clock t"
      "users (com v) = users (com t)" "auth_sessions (com v) = revoke_all (sess_id ` set rs) (clock t) (auth_sessions (com t))"
    using ih by auto
  have "mapA (\<lambda>r. service_logout E (sess_id r)) (r # rs) s = (Inr (() # us), v)"
    by (simp add: run_bnd t(1) v(1))
  with t v show ?case by (simp add: revoke_all_twice)
qed

section \<open>A concrete outside world\<close>

text \<open>
  Tokens that carry the claims in the clear, with the key at the end: enough to be a codec. The
  provider is the fake client, and its group is mapped to a role.
\<close>

definition int_code :: "int \<Rightarrow> pystr" where
  "int_code i = [if i < 0 then 1 else 0, nat \<bar>i\<bar>]"

definition code_int :: "nat \<Rightarrow> nat \<Rightarrow> int" where
  "code_int sign n = (if sign = 0 then int n else - int n)"

definition role_code :: "json \<Rightarrow> nat" where
  "role_code v = (case v of JName n \<Rightarrow> Suc (length (takeWhile (\<lambda>r. role_value r \<noteq> n) all_roles)) | _ \<Rightarrow> 0)"

fun encode_claims :: "pystr \<Rightarrow> json \<Rightarrow> pystr" where
  "encode_claims key (JObj [(_, JUuid u), (_, r), (_, ou), (_, JInt i), (_, JInt e)]) =
     [u, role_code r, case ou of JUuid j \<Rightarrow> Suc j | _ \<Rightarrow> 0] @ int_code i @ int_code e @ key"
| "encode_claims key _ = []"

fun decode_claims :: "stamp \<Rightarrow> pystr \<Rightarrow> pystr \<Rightarrow> json option" where
  "decode_claims now key (u # r # ou # si # i # se # e # k) =
     (if k = key \<and> code_int si i * 1000000 \<le> now \<and> now < code_int se e * 1000000
      then Some (JObj [(''sub'', JUuid u), (''role'', if r = 0 then JNull else JName (role_value (all_roles ! (r - 1)))),
        (''org_unit_id'', if ou = 0 then JNull else JUuid (ou - 1)), (''iat'', JInt (code_int si i)), (''exp'', JInt (code_int se e))])
      else None)"
| "decode_claims now key _ = None"

definition outside0 :: outside where
  "outside0 = \<lparr>web = \<lparr>jwt_signing_key = str ''key'', session_secret = [], cookie_secure = True, cookie_domain = [],
       sso_client_id = [], sso_client_secret = None, sso_issuer = [], sso_discovery_url = None, sso_redirect_uri = [],
       sso_scopes = [], frontend_origin = [], api_base_url = []\<rparr>,
     jwt_encode = encode_claims, jwt_decode = decode_claims, token_hex = (\<lambda>i. [i]),
     http_get = (\<lambda>url h. Transport_error), http_post = (\<lambda>url f. Transport_error), json_str = (\<lambda>v. [])\<rparr>"

definition sso_env :: env where
  "sso_env = env0\<lparr>cfg := default_settings\<lparr>sso_role_mapping := [(str ''BCMS_ADMIN'', ''SystemAdmin'')]\<rparr>\<rparr>"

lemma code_int_code [simp]: "code_int (if i < 0 then 1 else 0) (nat \<bar>i\<bar>) = i"
  by (simp add: code_int_def)

lemma role_code_value: "JName (role_value (all_roles ! (role_code (JName (role_value r)) - 1))) = JName (role_value r)"
  by (cases r) (simp_all add: role_code_def all_roles_def)

lemma outside0_jwt: "jwt_ok outside0"
proof -
  have pos: "role_code (JName (role_value r)) \<noteq> 0" for r by (simp add: role_code_def)
  have "decode_claims now key (encode_claims key (access_claims uid r ou iat ttl)) =
      (if iat * 1000000 \<le> now \<and> now < (iat + ttl) * 1000000 then Some (access_claims uid r ou iat ttl) else None)"
    for now key uid r ou iat ttl
    using role_code_value pos
    by (cases r; cases ou) (auto simp: access_claims_def int_code_def role_code_def)
  moreover have "encode_claims key (access_claims uid r ou iat ttl) \<noteq> []" for key uid r ou iat ttl
    by (simp add: access_claims_def)
  ultimately show ?thesis by (simp add: jwt_ok_def outside0_def)
qed

definition auth_row :: auth_session where
  "auth_row = \<lparr>sess_id = 7, sess_user_id = user_id manager0, refresh_token_hash = str ''r7'', csrf_token = str ''c7'',
     sess_ip = None, sess_agent = None, last_activity_at = 0, absolute_expires_at = 86400000001, revoked_at = None,
     sess_created_at = 0\<rparr>"

definition auth_db :: db where
  "auth_db = empty_db\<lparr>users := [manager0], auth_sessions := [auth_row]\<rparr>"

lemma auth_db_inv: "store_inv E (session_of auth_db)"
  by (simp add: store_inv_def chain_inv_def log_ok_def auth_db_def db_ok_def constraint_defs)

lemma empty_store_inv: "store_inv E (session_of empty_db)"
  by (simp add: store_inv_def chain_inv_def log_ok_def empty_db_ok)

definition fake_identity :: sso_user_info where
  "fake_identity = \<lparr>sso_id = str ''user-1'', sso_email = str ''user@example.invalid'', sso_display_name = str ''Test User'',
     raw_groups = [str ''BCMS_ADMIN'']\<rparr>"

lemma fake_login:
  "idp_userinfo X (Fake_SSO default_fake) c = Inr (fake_userinfo default_fake)"
  "normalize_userinfo X (fake_userinfo default_fake) = Inr fake_identity"
  "map_groups_to_role (sso_role_mapping (cfg sso_env)) (raw_groups fake_identity) = Some SystemAdmin"
  by (simp_all add: idp_userinfo_def default_fake_def exchange_code_def fetch_userinfo_def act_simps dict_get_def text_of_def
      normalize_userinfo_def nonempty_text_def display_name_of_def truthy_def group_texts_def List.map_filter_def
      fake_identity_def sso_env_def role_of_value_def all_roles_def)

lemma first_login:
  "\<exists>tok v. handle_sso_callback sso_env X (Some (Fake_SSO default_fake)) (str ''dev'') None None (session_of empty_db) = (Inr tok, v)"
proof -
  let ?s = "session_of empty_db"
  have texts: "list_all scalar_value (sso_id fake_identity)" "list_all scalar_value (sso_email fake_identity)"
    by (simp_all add: fake_identity_def scalar_value_def)
  have "\<exists>u v. upsert_user sso_env fake_identity SystemAdmin ?s = (Inr u, v)"
    by (simp add: upsert_user_def act_simps encoded_def texts encrypt_field_run Let_def db_ok_def constraint_defs
        del: str_simps)
  then obtain u v where up: "upsert_user sso_env fake_identity SystemAdmin ?s = (Inr u, v)" by blast
  define x where "x = v\<lparr>cur := (cur v)\<lparr>auth_sessions := auth_sessions (cur v) @ [new_session sso_env X u None None v]\<rparr>, uid_next := uid_next v + 3\<rparr>"
  have ok: "db_ok (cur x)"
    using upsert_user_Inr(3,7) [OF up] by (simp add: x_def db_ok_def auth_sessions_ok_def)
  have mk: "session_create sso_env X u None None v = (Inr (minted sso_env X u v), x)"
    using ok by (simp add: session_create_run x_def Let_def)
  have cm: "commit x = (Inr (), x\<lparr>com := cur x\<rparr>)" using ok by (simp add: run_commit)
  have "store_inv sso_env v" using preserves_run [OF stored.kept_upsert empty_store_inv, of sso_env fake_identity SystemAdmin] up by simp
  then have "store_inv sso_env x" using preserves_run [OF stored.kept_sessions(1), of sso_env v X u None None] mk by simp
  then have "store_inv sso_env (x\<lparr>com := cur x\<rparr>)" using preserves_run [OF stored.kept_basic(3), of sso_env x] cm by simp
  note run_side_audit [OF this]
  then show ?thesis
    by (simp add: handle_sso_callback_def run_bnd run_sq fake_login up mk cm)
qed

section \<open>Properties\<close>

definition identity_of :: "outside \<Rightarrow> pystr \<Rightarrow> exn + sso_user_info" where
  "identity_of X c = (case idp_userinfo X (get_sso_client (web X)) c of Inl e \<Rightarrow> Inl e | Inr raw \<Rightarrow> normalize_userinfo X raw)"




text \<open>
  Logging out revokes every open session of the user, but not the access token. While the
  token still decodes, the cookie of the logged-out browser authenticates the same user, at any
  later time: \<open>current_user\<close> never looks at the table of sessions.
\<close>

theorem logout_keeps_access:
  assumes inv: "store_inv E s" and cur: "cur s = com s"
    and user: "fst (get_session (current_user X (Some token)) s) = Inr u"
    and decodes: "jwt_decode X now (signing_key (web X)) token = jwt_decode X (clock s) (signing_key (web X)) token"
  shows "\<exists>t. logout_route E X (Some token) s = (Inr (clear_session_cookies X), t)
    \<and> open_sessions (user_id u) (com t) = []
    \<and> fst (get_session (current_user X (Some token)) (t\<lparr>clock := now\<rparr>)) = Inr u"
proof -
  have cu: "current_user X (Some token) s = (Inr u, s)"
  proof -
    obtain r v where rv: "current_user X (Some token) s = (r, v)" by fastforce
    from user obtain w where "get_session (current_user X (Some token)) s = (Inr u, w)"
      by (metis fst_conv surj_pair)
    then have "current_user X (Some token) s = (Inr u, v)"
      using rv by (auto simp: get_session_Inr session_base [OF cur])
    moreover from this have "v = s" by (simp add: current_user_Inr)
    ultimately show ?thesis by simp
  qed
  then obtain claims uid where c: "is_active u" "token \<noteq> []"
      "jwt_decode X (clock s) (signing_key (web X)) token = Some claims" "sub_claim claims = Some uid"
      "get_row user_id uid (users (com s)) = Some u"
    by (auto simp: current_user_Inr cur)
  let ?rs = "open_sessions (user_id u) (com s)"
  have ids: "distinct (map sess_id (auth_sessions (com s)))"
    using inv by (simp add: store_inv_def db_ok_def auth_sessions_ok_def)
  have dist: "distinct (map sess_id ?rs)" using ids by (simp add: open_sessions_def distinct_map_filter)
  have rows: "get_row sess_id (sess_id r) (auth_sessions (com s)) = Some r \<and> revoked_at r = None" if "r \<in> set ?rs" for r
    using that get_row_distinct [OF ids, of r] by (simp add: open_sessions_def)
  from logout_loop [OF inv cur dist rows] obtain us t where
    loop: "mapA (\<lambda>r. service_logout E (sess_id r)) ?rs s = (Inr us, t)" "cur t = com t" "users (com t) = users (com s)"
      "auth_sessions (com t) = revoke_all (sess_id ` set ?rs) (clock s) (auth_sessions (com s))" by auto
  have "logout_route E X (Some token) s = (Inr (clear_session_cookies X), t)"
    using cu loop(1,2) by (simp add: logout_route_def get_session_simp session_base [OF cur] session_base act_simps cur)
  moreover have "open_sessions (user_id u) (com t) = []"
    by (auto simp: open_sessions_def loop(4) revoke_all_def filter_empty_conv split: if_splits)
  moreover have "fst (get_session (current_user X (Some token)) (t\<lparr>clock := now\<rparr>)) = Inr u"
  proof -
    have "current_user X (Some token) (t\<lparr>clock := now, cur := com t\<rparr>) = (Inr u, t\<lparr>clock := now, cur := com t\<rparr>)"
      using c decodes loop(3) by (simp add: current_user_Inr)
    then show ?thesis by (simp add: fst_get_session)
  qed
  ultimately show ?thesis by blast
qed


lemma logout_keeps_access_witness:
  "\<exists>t token. logout_route env0 outside0 (Some token) (session_of auth_db) = (Inr (clear_session_cookies outside0), t)
     \<and> fst (get_session (current_user outside0 (Some token)) (t\<lparr>clock := 86400000010\<rparr>)) = Inr manager0"
proof -
  define token where "token = encode_claims (str ''key'') (access_claims 50 None None 86400 1800)"
  have dec: "jwt_decode outside0 now (signing_key (web outside0)) token =
      (if 86400000000 \<le> now \<and> now < 88200000000 then Some (access_claims 50 None None 86400 1800) else None)" for now
    using outside0_jwt by (simp add: jwt_ok_def token_def outside0_def signing_key_def)
  have user: "fst (get_session (current_user outside0 (Some token)) (session_of auth_db)) = Inr manager0"
    using dec [of 86400000000]
    by (simp add: fst_get_session current_user_def decode_access_token_def act_simps auth_db_def get_row_def)
      (simp add: token_def access_claims_def manager0_def)
  have "cur (session_of auth_db) = com (session_of auth_db)" by simp
  from logout_keeps_access [OF auth_db_inv [of env0] this user, of 86400000010] dec show ?thesis by (simp del: fst_conv) blast
qed

end
