(* ===== verification/Admin.thy ===== *)
theory Admin
  imports Auth Cycles
begin

text \<open>
  \<^verbatim>\<open>api/v1/admin/users.py\<close> and \<^verbatim>\<open>api/v1/admin/org_units.py\<close>: listing and changing users and org
  units. Each change is committed and recorded in a session of its own. A route's \<open>actor\<close> is the user
  its cookie was resolved to.
\<close>

section \<open>Users\<close>

record user_read =
  ur_id :: uuid
  ur_name :: pystr
  ur_roles :: "string list"
  ur_org_unit_id :: "uuid option"
  ur_is_active :: bool

definition user_read_of :: "user \<Rightarrow> user_read" where
  "user_read_of u = \<lparr>ur_id = user_id u, ur_name = user_name u, ur_roles = user_roles u,
     ur_org_unit_id = user_org_unit_id u, ur_is_active = is_active u\<rparr>"

definition unprocessable :: exn where
  "unprocessable = Http_error 422 ''''"

text \<open>\<open>Query(1, ge=1)\<close> and \<open>Query(50, ge=1, le=200)\<close>.\<close>

definition check_paging :: "int \<Rightarrow> int \<Rightarrow> unit op" where
  "check_paging page_n size_n = check (1 \<le> page_n \<and> 1 \<le> size_n \<and> size_n \<le> 200) unprocessable"

definition list_users :: "int \<Rightarrow> int \<Rightarrow> user \<Rightarrow> user_read page op" where
  "list_users page_n size_n actor = get_session (bnd (require_role [SystemAdmin] actor) (\<lambda>_.
     sq (check_paging page_n size_n)
    (bnd (query users) (\<lambda>us.
     ret \<lparr>items = map user_read_of (take (nat size_n) (drop (nat ((page_n - 1) * size_n)) (order_desc user_created_at us))),
          total_rows = length us, page_no = page_n, page_size = size_n\<rparr>))))"

definition user_not_found :: exn where
  "user_not_found = Http_error 404 ''USER_NOT_FOUND''"

definition audit_user_role_change :: "env \<Rightarrow> uuid \<Rightarrow> uuid \<Rightarrow> json \<Rightarrow> json \<Rightarrow> unit op" where
  "audit_user_role_change E actor_id target_id before after =
     side_audit E USER_ROLE_UPDATED ''user'' (Some target_id) (Some actor_id) None
       (JObj [(''before'', before), (''after'', after)])"

definition roles_snapshot :: "user \<Rightarrow> json" where
  "roles_snapshot u = JObj [(''roles'', JArr (map JName (user_roles u))),
     (''org_unit_id'', case user_org_unit_id u of None \<Rightarrow> JNull | Some i \<Rightarrow> JUuid i)]"

text \<open>Unknown role names are dropped; an org unit that is not given stays.\<close>

definition valid_role_names :: "string list \<Rightarrow> string list" where
  "valid_role_names names = map role_value (List.map_filter role_of_value names)"

definition patched_user :: "string list option \<Rightarrow> uuid option \<Rightarrow> stamp \<Rightarrow> user \<Rightarrow> user" where
  "patched_user names ou now u = u\<lparr>
     user_roles := (case names of None \<Rightarrow> user_roles u | Some ns \<Rightarrow> valid_role_names ns),
     user_org_unit_id := (case ou of None \<Rightarrow> user_org_unit_id u | Some i \<Rightarrow> Some i), user_updated_at := now\<rparr>"

definition put_user :: "user \<Rightarrow> unit op" where
  "put_user u = update (\<lambda>d. d\<lparr>users := upd_row user_id (user_id u) (\<lambda>_. u) (users d)\<rparr>)"

text \<open>The foreign key of the column: the flush fails if no such unit exists.\<close>

definition unit_exists :: "uuid option \<Rightarrow> db \<Rightarrow> bool" where
  "unit_exists ou d = (case ou of None \<Rightarrow> True | Some i \<Rightarrow> i \<in> set (map ou_id (org_units d)))"

definition patch_user_body :: "env \<Rightarrow> uuid \<Rightarrow> string list option \<Rightarrow> uuid option \<Rightarrow> user \<Rightarrow> user_read op" where
  "patch_user_body E uid names ou actor =
     bnd (query (\<lambda>d. get_row user_id uid (users d))) (\<lambda>row. case row of
       None \<Rightarrow> raise user_not_found
     | Some u \<Rightarrow> bnd now_utc (\<lambda>now. let u' = patched_user names ou now u in
         sq (put_user u')
        (bnd (query (unit_exists ou)) (\<lambda>fk.
         sq (check fk Integrity_error)
        (sq flush
        (sq commit
        (sq (audit_user_role_change E (user_id actor) uid (roles_snapshot u) (roles_snapshot u'))
        (ret (user_read_of u')))))))))"

definition patch_user :: "env \<Rightarrow> uuid \<Rightarrow> string list option \<Rightarrow> uuid option \<Rightarrow> user \<Rightarrow> user_read op" where
  "patch_user E uid names ou actor = get_session (bnd (require_role [SystemAdmin] actor) (patch_user_body E uid names ou))"

definition deactivate_user_body :: "env \<Rightarrow> uuid \<Rightarrow> user \<Rightarrow> user_read op" where
  "deactivate_user_body E uid actor =
     bnd (query (\<lambda>d. get_row user_id uid (users d))) (\<lambda>row. case row of
       None \<Rightarrow> raise user_not_found
     | Some u \<Rightarrow> bnd now_utc (\<lambda>now. let u' = u\<lparr>is_active := False, user_updated_at := now\<rparr> in
         sq (put_user u')
        (sq flush
        (sq commit
        (sq (audit_user_role_change E (user_id actor) uid
              (JObj [(''is_active'', JBool (is_active u))]) (JObj [(''is_active'', JBool False)]))
        (ret (user_read_of u')))))))"

definition deactivate_user :: "env \<Rightarrow> uuid \<Rightarrow> user \<Rightarrow> user_read op" where
  "deactivate_user E uid actor = get_session (bnd (require_role [SystemAdmin] actor) (deactivate_user_body E uid))"

section \<open>Org units\<close>

definition org_unit_roles :: "role list" where
  "org_unit_roles = [SystemAdmin, FinanceAdmin]"

text \<open>The answer shows every column of the row but its time stamps.\<close>

definition list_org_units :: "user \<Rightarrow> org_unit list op" where
  "list_org_units actor = get_session (bnd (require_role org_unit_roles actor) (\<lambda>_.
     query (\<lambda>d. order_asc ou_code (org_units d))))"

definition audit_org_unit_updated :: "env \<Rightarrow> uuid \<Rightarrow> uuid \<Rightarrow> uuid list \<Rightarrow> uuid list \<Rightarrow> unit op" where
  "audit_org_unit_updated E actor_id target_id before after =
     side_audit E ORG_UNIT_UPDATED ''org_unit'' (Some target_id) (Some actor_id) None
       (JObj [(''excluded_for_cycle_ids'', JObj [(''before'', JArr (map JUuid before)), (''after'', JArr (map JUuid after))])])"

text \<open>The body lists texts; one that is no identifier equals no cycle's and is left out of the model.\<close>

definition patch_org_unit_body :: "env \<Rightarrow> uuid \<Rightarrow> uuid list option \<Rightarrow> user \<Rightarrow> org_unit op" where
  "patch_org_unit_body E i excl actor =
     bnd (query (\<lambda>d. get_row ou_id i (org_units d))) (\<lambda>row. case row of
       None \<Rightarrow> raise (Http_error 404 ''ORG_UNIT_NOT_FOUND'')
     | Some w \<Rightarrow> bnd now_utc (\<lambda>now.
         let w' = w\<lparr>excluded_for_cycle_ids := (case excl of None \<Rightarrow> excluded_for_cycle_ids w | Some xs \<Rightarrow> xs),
                    ou_updated_at := now\<rparr> in
         sq (update (\<lambda>d. d\<lparr>org_units := upd_row ou_id i (\<lambda>_. w') (org_units d)\<rparr>))
        (sq flush
        (sq commit
        (sq (audit_org_unit_updated E (user_id actor) i (excluded_for_cycle_ids w) (excluded_for_cycle_ids w'))
        (ret w'))))))"

definition patch_org_unit :: "env \<Rightarrow> uuid \<Rightarrow> uuid list option \<Rightarrow> user \<Rightarrow> org_unit op" where
  "patch_org_unit E i excl actor = get_session (bnd (require_role org_unit_roles actor) (patch_org_unit_body E i excl))"

section \<open>The common invariant\<close>

context audited_inv
begin

lemma kept_put_user [preserves_intros]: "preserves P (put_user u)"
  unfolding put_user_def by (intro preserves_intros; simp)

lemma kept_admin [preserves_intros]:
  "preserves P (patch_user E uid names ou actor)"
  "preserves P (deactivate_user E uid actor)"
  "preserves P (patch_org_unit E i excl actor)"
  unfolding patch_user_def deactivate_user_def patch_org_unit_def patch_user_body_def deactivate_user_body_def
    patch_org_unit_body_def require_role_def audit_user_role_change_def
    audit_org_unit_updated_def Let_def
  by (intro preserves_intros; simp)+

end

section \<open>Roles are typed\<close>

definition roles_known :: "db \<Rightarrow> bool" where
  "roles_known d \<longleftrightarrow> (\<forall>u \<in> set (users d). set (user_roles u) \<subseteq> range role_value)"

lemma roles_known_other [simp]:
  "roles_known (d\<lparr>audit_logs := ls\<rparr>) = roles_known d" "roles_known (d\<lparr>auth_sessions := xs\<rparr>) = roles_known d"
  by (simp_all add: roles_known_def)

lemma roles_known_append: "roles_known d \<Longrightarrow> set (user_roles u) \<subseteq> range role_value \<Longrightarrow> roles_known (d\<lparr>users := users d @ [u]\<rparr>)"
  by (auto simp: roles_known_def)

lemma roles_known_upd: "roles_known d \<Longrightarrow> set (user_roles u) \<subseteq> range role_value
    \<Longrightarrow> roles_known (d\<lparr>users := upd_row user_id i (\<lambda>_. u) (users d)\<rparr>)"
  by (auto simp: roles_known_def upd_row_def split: if_splits)

lemma valid_role_names_known: "set (valid_role_names names) \<subseteq> range role_value"
  by (auto simp: valid_role_names_def)

lemma roles_known_auth [preserves_intros]:
  "preserves (both roles_known) (upsert_user E info r)"
  "preserves (both roles_known) (session_create E X u ip agent)"
  unfolding upsert_user_def updated_user_def session_create_def issue_csrf_token_def encode_access_token_def Let_def
  by (intro preserves_intros; simp add: roles_known_append roles_known_upd)+

lemma roles_known_callback [preserves_intros]:
  "preserves (both roles_known) (handle_sso_callback E X client auth_code ip agent)"
  unfolding handle_sso_callback_def by (intro preserves_intros; simp)

lemma both_get_session: "preserves (both P) m \<Longrightarrow> preserves (both P) (get_session m)"
  by (rule preserves_get_session) (simp_all add: both_def)

section \<open>What the changes do\<close>

lemma upd_row_const:
  assumes "distinct (map key xs)" "get_row key k xs = Some x"
  shows "upd_row key k (\<lambda>_. f x) xs = upd_row key k f xs"
proof -
  have "r = x" if "r \<in> set xs" "key r = k" for r
    using get_row_distinct [OF assms(1) that(1)] that(2) assms(2) by simp
  then show ?thesis by (auto simp: upd_row_def)
qed

lemma db_ok_users:
  assumes "db_ok d" "get_row user_id uid (users d) = Some u"
    "\<And>u. user_id (f u) = user_id u" "\<And>u. sso_id_hash (f u) = sso_id_hash u" "\<And>u. email_hash (f u) = email_hash u"
  shows "db_ok (d\<lparr>users := upd_row user_id uid (\<lambda>_. f u) (users d)\<rparr>)"
proof -
  have "distinct (map user_id (users d))" using assms(1) by (simp add: db_ok_def users_ok_def)
  from upd_row_const [OF this assms(2), of f] show ?thesis
    using assms(1,3-) by (simp add: db_ok_def users_ok_def map_upd_row)
qed

lemma store_inv_change:
  "store_inv E s \<Longrightarrow> db_ok d \<Longrightarrow> audit_logs d = audit_logs (com s) \<Longrightarrow> store_inv E (s\<lparr>cur := d, com := d\<rparr>)"
  by (simp add: store_inv_def chain_inv_def)

text \<open>A change that is committed and then recorded.\<close>

definition changed :: "env \<Rightarrow> audit_action \<Rightarrow> string \<Rightarrow> uuid \<Rightarrow> uuid \<Rightarrow> json \<Rightarrow> db \<Rightarrow> session \<Rightarrow> session" where
  "changed E act rt target actor_id det d s = side_audited E act rt (Some target) (Some actor_id) None det (s\<lparr>cur := d, com := d\<rparr>)"

lemma run_change:
  assumes "store_inv E s" "db_ok d" "audit_logs d = audit_logs (com s)"
  shows "sq (update (\<lambda>_. d)) (sq flush (sq commit (sq (side_audit E act rt (Some i) (Some a) None det) (ret r)))) s =
    (Inr r, changed E act rt i a det d s)"
  using assms by (simp add: run_sq run_session run_flush run_commit run_side_audit [OF store_inv_change] changed_def)

lemma changed_simps [simp]:
  "users (com (changed E act rt i a det d s)) = users d"
  "org_units (com (changed E act rt i a det d s)) = org_units d"
  "auth_sessions (com (changed E act rt i a det d s)) = auth_sessions d"
  "cur (changed E act rt i a det d s) = com (changed E act rt i a det d s)"
  "clock (changed E act rt i a det d s) = clock s"
  by (simp_all add: changed_def side_audited_def Let_def)

lemma changed_log:
  "\<exists>row. audit_logs (com (changed E act rt i a det d s)) = audit_logs d @ [row] \<and> action row = act
     \<and> resource_id row = Some i \<and> al_user_id row = Some a \<and> al_details row = det"
  by (simp add: changed_def)

lemma patch_user_body_run:
  assumes inv: "store_inv E s" and cur: "cur s = com s"
  shows "patch_user_body E uid names ou actor s = (case get_row user_id uid (users (com s)) of
      None \<Rightarrow> (Inl user_not_found, s)
    | Some u \<Rightarrow> let u' = patched_user names ou (clock s) u;
          d = (com s)\<lparr>users := upd_row user_id uid (\<lambda>_. u') (users (com s))\<rparr> in
        if \<not> unit_exists ou (com s) then (Inl Integrity_error, s\<lparr>cur := d\<rparr>)
        else (Inr (user_read_of u'), changed E USER_ROLE_UPDATED ''user'' uid (user_id actor)
                (JObj [(''before'', roles_snapshot u), (''after'', roles_snapshot u')]) d s))"
proof (cases "get_row user_id uid (users (com s))")
  case None
  then show ?thesis by (simp add: patch_user_body_def run_bnd run_session cur)
next
  case (Some u)
  let ?u = "patched_user names ou (clock s) u"
  let ?d = "(com s)\<lparr>users := upd_row user_id uid (\<lambda>_. ?u) (users (com s))\<rparr>"
  have uid: "user_id u = uid" "user_id ?u = uid" using get_row_Some [OF Some] by (simp_all add: patched_user_def)
  have ok: "db_ok (com s)" using inv by (simp add: store_inv_def)
  have dok: "db_ok ?d" by (rule db_ok_users [OF ok Some]) (simp_all add: patched_user_def)
  have fk: "unit_exists ou ?d = unit_exists ou (com s)" by (simp add: unit_exists_def split: option.splits)
  from Some uid dok show ?thesis
    using run_side_audit [OF store_inv_change [OF inv dok]]
    by (simp add: patch_user_body_def run_bnd run_sq run_session run_flush run_commit cur put_user_def fk Let_def
        audit_user_role_change_def changed_def)
qed

lemma deactivate_user_body_run:
  assumes inv: "store_inv E s" and cur: "cur s = com s"
  shows "deactivate_user_body E uid actor s = (case get_row user_id uid (users (com s)) of
      None \<Rightarrow> (Inl user_not_found, s)
    | Some u \<Rightarrow> let u' = u\<lparr>is_active := False, user_updated_at := clock s\<rparr>;
          d = (com s)\<lparr>users := upd_row user_id uid (\<lambda>_. u') (users (com s))\<rparr> in
        (Inr (user_read_of u'), changed E USER_ROLE_UPDATED ''user'' uid (user_id actor)
           (JObj [(''before'', JObj [(''is_active'', JBool (is_active u))]), (''after'', JObj [(''is_active'', JBool False)])]) d s))"
proof (cases "get_row user_id uid (users (com s))")
  case None
  then show ?thesis by (simp add: deactivate_user_body_def run_bnd run_session cur)
next
  case (Some u)
  let ?d = "(com s)\<lparr>users := upd_row user_id uid (\<lambda>_. u\<lparr>is_active := False, user_updated_at := clock s\<rparr>) (users (com s))\<rparr>"
  have uid: "user_id u = uid" using get_row_Some [OF Some] by simp
  have ok: "db_ok (com s)" using inv by (simp add: store_inv_def)
  have dok: "db_ok ?d" by (rule db_ok_users [OF ok Some]) simp_all
  from Some uid dok show ?thesis
    using run_side_audit [OF store_inv_change [OF inv dok]]
    by (simp add: deactivate_user_body_def run_bnd run_sq run_session run_flush run_commit cur put_user_def Let_def
        audit_user_role_change_def changed_def)
qed

lemma patch_org_unit_body_run:
  assumes inv: "store_inv E s" and cur: "cur s = com s"
  shows "patch_org_unit_body E i excl actor s = (case get_row ou_id i (org_units (com s)) of
      None \<Rightarrow> (Inl (Http_error 404 ''ORG_UNIT_NOT_FOUND''), s)
    | Some w \<Rightarrow> let xs = (case excl of None \<Rightarrow> excluded_for_cycle_ids w | Some xs \<Rightarrow> xs);
          w' = w\<lparr>excluded_for_cycle_ids := xs, ou_updated_at := clock s\<rparr>;
          d = (com s)\<lparr>org_units := upd_row ou_id i (\<lambda>_. w') (org_units (com s))\<rparr> in
        (Inr w', changed E ORG_UNIT_UPDATED ''org_unit'' i (user_id actor)
           (JObj [(''excluded_for_cycle_ids'', JObj [(''before'', JArr (map JUuid (excluded_for_cycle_ids w))),
              (''after'', JArr (map JUuid xs))])]) d s))"
proof (cases "get_row ou_id i (org_units (com s))")
  case None
  then show ?thesis by (simp add: patch_org_unit_body_def run_bnd run_session cur)
next
  case (Some w)
  let ?f = "\<lambda>w. w\<lparr>excluded_for_cycle_ids := (case excl of None \<Rightarrow> excluded_for_cycle_ids w | Some xs \<Rightarrow> xs), ou_updated_at := clock s\<rparr>"
  let ?d = "(com s)\<lparr>org_units := upd_row ou_id i (\<lambda>_. ?f w) (org_units (com s))\<rparr>"
  have ok: "db_ok (com s)" using inv by (simp add: store_inv_def)
  then have "distinct (map ou_id (org_units (com s)))" by (simp add: db_ok_def org_units_ok_def)
  note eq = upd_row_const [OF this Some, of ?f]
  have "list_all (\<lambda>u. \<not> (is_filing_unit u \<and> is_reviewer_only u)) (upd_row ou_id i ?f (org_units (com s)))"
    using ok by (auto simp: db_ok_def org_units_ok_def list_all_iff upd_row_def)
  then have dok: "db_ok ?d" using ok
    unfolding eq by (simp add: db_ok_def org_units_ok_def map_upd_row)
  from Some dok show ?thesis
    using run_side_audit [OF store_inv_change [OF inv dok]]
    by (simp add: patch_org_unit_body_def run_bnd run_sq run_session run_flush run_commit cur Let_def
        audit_org_unit_updated_def changed_def)
qed

section \<open>Histories of the table of users\<close>

inductive user_step :: "env \<Rightarrow> outside \<Rightarrow> session \<Rightarrow> session \<Rightarrow> bool" for E X where
  login: "user_step E X s (snd (sso_callback E X auth_code state ip agent s))"
| patch: "user_step E X s (snd (patch_user E uid names ou actor s))"
| deactivate: "user_step E X s (snd (deactivate_user E uid actor s))"
| other_request: "store_inv E t \<Longrightarrow> cur t = com t \<Longrightarrow> users (com t) = users (com s) \<Longrightarrow> user_step E X s t"

definition typed_users :: "env \<Rightarrow> session \<Rightarrow> bool" where
  "typed_users E s \<longleftrightarrow> store_inv E s \<and> cur s = com s \<and> roles_known (com s)"

lemma known_row: "roles_known d \<Longrightarrow> get_row user_id i (users d) = Some u \<Longrightarrow> set (user_roles u) \<subseteq> range role_value"
  using get_row_Some [of user_id i "users d" u] by (auto simp: roles_known_def)

lemma known_changed [simp]: "roles_known (com (changed E act rt i a det d s)) = roles_known d"
  by (simp add: roles_known_def)

lemma patched_known: "set (user_roles u) \<subseteq> range role_value \<Longrightarrow> set (user_roles (patched_user names ou now u)) \<subseteq> range role_value"
  by (cases names) (simp_all add: patched_user_def valid_role_names_known)

lemma role_of_role_value [simp]: "role_of_value (role_value r) = Some r"
  by (simp add: role_of_value_Some)

lemma typed_route:
  assumes "typed_users E s" "preserves (store_inv E) (get_session m)" "roles_known (com (snd (m s)))"
  shows "typed_users E (snd (get_session m s))"
proof -
  have "store_inv E (snd (get_session m s))"
    using preserves_run [OF assms(2)] assms(1) by (simp add: typed_users_def)
  moreover have "s\<lparr>cur := com s\<rparr> = s" using assms(1) by (simp add: typed_users_def session_base)
  ultimately show ?thesis using assms(3) by (simp add: typed_users_def snd_get_session)
qed

lemma role_body: "snd (bnd (require_role allowed u) f s) = s \<or> snd (bnd (require_role allowed u) f s) = snd (f u s)"
  by (simp add: require_role_def run_bnd)

lemma typed_step: "user_step E X s t \<Longrightarrow> typed_users E s \<Longrightarrow> typed_users E t"
proof (induction rule: user_step.induct)
  case (login s auth_code state ip agent)
  then have "both roles_known s" by (simp add: typed_users_def both_def)
  from preserves_run [OF both_get_session this]
  have "both roles_known (snd (sso_callback E X auth_code state ip agent s))"
    unfolding sso_callback_def by (metis preserves_basic(1) preserves_bnd roles_known_callback)
  moreover have "store_inv E (snd (sso_callback E X auth_code state ip agent s))"
    using login by (intro preserves_run [OF stored.kept_auth_routes(1)]) (simp add: typed_users_def)
  ultimately show ?case by (simp add: typed_users_def both_def sso_callback_def cur_get_session)
next
  case (patch s uid names ou actor)
  then have s: "store_inv E s" "cur s = com s" "roles_known (com s)" by (simp_all add: typed_users_def)
  have "roles_known (com (snd (patch_user_body E uid names ou actor s)))"
  proof (cases "get_row user_id uid (users (com s))")
    case (Some u)
    have "set (user_roles (patched_user names ou (clock s) u)) \<subseteq> range role_value"
      by (rule patched_known [OF known_row [OF s(3) Some]])
    with Some s(3) show ?thesis by (simp add: patch_user_body_run [OF s(1,2)] Let_def roles_known_upd)
  qed (simp add: patch_user_body_run [OF s(1,2)] s(3))
  then have "roles_known (com (snd (bnd (require_role [SystemAdmin] actor) (patch_user_body E uid names ou) s)))"
    using role_body [of "[SystemAdmin]" actor "patch_user_body E uid names ou" s] s(3) by metis
  with typed_route [OF patch stored.kept_admin(1) [unfolded patch_user_def]] show ?case
    by (simp add: patch_user_def)
next
  case (deactivate s uid actor)
  then have s: "store_inv E s" "cur s = com s" "roles_known (com s)" by (simp_all add: typed_users_def)
  have "roles_known (com (snd (deactivate_user_body E uid actor s)))"
  proof (cases "get_row user_id uid (users (com s))")
    case (Some u)
    with s(3) known_row [OF s(3) Some] show ?thesis by (simp add: deactivate_user_body_run [OF s(1,2)] Let_def roles_known_upd)
  qed (simp add: deactivate_user_body_run [OF s(1,2)] s(3))
  then have "roles_known (com (snd (bnd (require_role [SystemAdmin] actor) (deactivate_user_body E uid) s)))"
    using role_body [of "[SystemAdmin]" actor "deactivate_user_body E uid" s] s(3) by metis
  with typed_route [OF deactivate stored.kept_admin(2) [unfolded deactivate_user_def]] show ?case
    by (simp add: deactivate_user_def)
next
  case (other_request t s)
  then show ?case by (simp add: typed_users_def roles_known_def)
qed

section \<open>Properties\<close>

text \<open>
  Claim C36: the roles of users are typed. Whatever logins, role changes and deactivations happen, with
  any role names in the requests and any groups from the provider, every name in the column \<open>roles\<close>
  is the value of a \<open>Role\<close>, so that no role is ever silently dropped when the column is read.
\<close>

theorem roles_stay_typed:
  assumes "store_inv E s" "cur s = com s" "roles_known (com s)" "(user_step E X)\<^sup>*\<^sup>* s t" "u \<in> set (users (com t))"
  shows "set (user_roles u) \<subseteq> range role_value \<and> length (role_set u) = length (user_roles u)"
proof -
  from assms(4) have "typed_users E t"
    by (induction rule: rtranclp_induct) (use assms(1-3) in \<open>auto simp: typed_users_def [of E s] intro: typed_step\<close>)
  with assms(5) have known: "set (user_roles u) \<subseteq> range role_value" by (simp add: typed_users_def roles_known_def)
  have "length (List.map_filter role_of_value ns) = length ns" if "set ns \<subseteq> range role_value" for ns
    using that by (induction ns) (auto simp: List.map_filter_simps role_of_value_Some)
  with known show ?thesis by (simp add: role_set_def)
qed

lemma roles_stay_typed_witness:
  "\<exists>t u. fst (patch_user env0 50 (Some [''HRAdmin'', ''Root'']) None admin0 (session_of org_db)) = Inr u
     \<and> t = snd (patch_user env0 50 (Some [''HRAdmin'', ''Root'']) None admin0 (session_of org_db))
     \<and> users (com t) \<noteq> [] \<and> ur_roles u = [''HRAdmin''] \<and> set (user_roles (hd (users (com t)))) \<subseteq> range role_value"
proof -
  let ?s = "session_of org_db"
  let ?p = "patch_user env0 50 (Some [''HRAdmin'', ''Root'']) None admin0 ?s"
  have inv: "store_inv env0 ?s"
    by (simp add: store_inv_def chain_inv_def log_ok_def org_db_ok) (simp add: org_db_def)
  have base: "?s\<lparr>cur := org_db\<rparr> = ?s" by (simp add: session_of_def)
  have row: "get_row user_id 50 (users org_db) = Some manager0" by (simp add: org_db_def get_row_def manager0_def)
  have roles: "valid_role_names [''HRAdmin'', ''Root''] = [''HRAdmin'']"
    by (simp add: valid_role_names_def List.map_filter_simps role_of_value_def all_roles_def)
  have run: "fst ?p = Inr (user_read_of (patched_user (Some [''HRAdmin'', ''Root'']) None 86400000000 manager0))"
      "users (com (snd ?p)) = upd_row user_id 50 (\<lambda>_. patched_user (Some [''HRAdmin'', ''Root'']) None 86400000000 manager0) (users org_db)"
    using row by (simp_all add: patch_user_def role_session fst_get_session snd_get_session base
        patch_user_body_run [OF inv] Let_def unit_exists_def)
  have known: "roles_known (com ?s)"
    by (simp add: roles_known_def org_db_def manager0_def admin0_def) (metis rangeI role_value.simps(1,4))
  have step: "(user_step env0 outside0)\<^sup>*\<^sup>* ?s (snd ?p)" by (rule r_into_rtranclp) (rule user_step.patch)
  have ne: "users (com (snd ?p)) \<noteq> []" unfolding run(2) by (simp add: org_db_def upd_row_def)
  have "set (user_roles (hd (users (com (snd ?p))))) \<subseteq> range role_value"
    using roles_stay_typed [OF inv _ known step hd_in_set [OF ne]] by simp
  with run(1) ne roles show ?thesis by (simp add: user_read_of_def patched_user_def)
qed



definition with_exclusion :: "uuid \<Rightarrow> bool \<Rightarrow> filing_unit_info \<Rightarrow> filing_unit_info" where
  "with_exclusion i b f = (if fu_org_unit_id f = i
     then f\<lparr>excluded := b, fu_warnings := (if \<not> has_manager f \<and> \<not> b then [''missing-manager''] else [])\<rparr> else f)"

lemma order_asc_map: "(\<And>x. e (g x) = e x) \<Longrightarrow> order_asc e (map g xs) = map g (order_asc e xs)"
proof (induction xs)
  case (Cons x xs)
  have "insort_key e (g x) (map g ys) = map g (insort_key e x ys)" for ys
    by (induction ys) (simp_all add: Cons.prems)
  with Cons show ?case by (simp add: order_asc_def)
qed (simp add: order_asc_def)

lemma filing_units_upd:
  fixes d :: db
  assumes "org_units e = upd_row ou_id i (\<lambda>w. w\<lparr>excluded_for_cycle_ids := xs, ou_updated_at := now\<rparr>) (org_units d)"
    "users e = users d"
  shows "list_filing_units e cid = map (with_exclusion i (cid \<in> set xs)) (list_filing_units d cid)"
proof -
  define g where "g = (\<lambda>w :: org_unit. if ou_id w = i then w\<lparr>excluded_for_cycle_ids := xs, ou_updated_at := now\<rparr> else w)"
  have g: "ou_id (g w) = ou_id w" "ou_code (g w) = ou_code w" "ou_name (g w) = ou_name w"
      "is_filing_unit (g w) = is_filing_unit w" "level_code (g w) = level_code w" for w
    by (simp_all add: g_def)
  have rows: "org_units e = map g (org_units d)" by (simp add: assms(1) upd_row_def g_def)
  have flt: "filter (\<lambda>w. is_filing_unit w \<and> level_code w \<noteq> str ''0000'') (org_units e) =
      map g (filter (\<lambda>w. is_filing_unit w \<and> level_code w \<noteq> str ''0000'') (org_units d))"
    by (simp add: rows filter_map comp_def g)
  have srt: "order_asc ou_code (map g ws) = map g (order_asc ou_code ws)" for ws
    by (rule order_asc_map) (simp add: g)
  have ids: "ou_id ` set (map g ws) = ou_id ` set ws" for ws by (simp add: g image_image)
  show ?thesis
    unfolding list_filing_units_def flt srt Let_def ids assms(2)
    by (simp add: comp_def g with_exclusion_def) (simp add: g_def)
qed

text \<open>
  What an administrator sets as exclusions is what the cycles see: after the change, the
  filing units listed for any cycle are those listed before, this unit being excluded exactly if the
  cycle is in the list that was sent. Only a SystemAdmin or a FinanceAdmin can do it, and it is
  recorded.
\<close>

theorem exclusions_seen_by_cycles:
  assumes inv: "store_inv E s" and cur: "cur s = com s" and run: "patch_org_unit E i (Some xs) actor s = (Inr w, t)"
  shows "set (role_set actor) \<inter> {SystemAdmin, FinanceAdmin} \<noteq> {}
    \<and> list_filing_units (com t) cid = map (with_exclusion i (cid \<in> set xs)) (list_filing_units (com s) cid)
    \<and> (\<exists>row. audit_logs (com t) = audit_logs (com s) @ [row] \<and> action row = ORG_UNIT_UPDATED
         \<and> resource_id row = Some i \<and> al_user_id row = Some (user_id actor))"
proof -
  have adm: "set (role_set actor) \<inter> {SystemAdmin, FinanceAdmin} \<noteq> {}"
    using run by (auto simp: patch_org_unit_def role_session org_unit_roles_def split: if_splits)
  with run obtain v where v: "patch_org_unit_body E i (Some xs) actor s = (Inr w, v)" "t = v\<lparr>cur := com v\<rparr>"
    by (auto simp: patch_org_unit_def role_session org_unit_roles_def get_session_Inr session_base [OF cur] split: if_splits)
  then obtain q where q: "get_row ou_id i (org_units (com s)) = Some q"
    by (auto simp: patch_org_unit_body_run [OF inv cur] split: option.splits)
  let ?f = "\<lambda>w. w\<lparr>excluded_for_cycle_ids := xs, ou_updated_at := clock s\<rparr>"
  let ?d = "(com s)\<lparr>org_units := upd_row ou_id i (\<lambda>_. ?f q) (org_units (com s))\<rparr>"
  from v q obtain det where t: "com t = com (changed E ORG_UNIT_UPDATED ''org_unit'' i (user_id actor) det ?d s)"
    by (auto simp: patch_org_unit_body_run [OF inv cur] Let_def)
  have "distinct (map ou_id (org_units (com s)))" using inv by (simp add: store_inv_def db_ok_def org_units_ok_def)
  from upd_row_const [OF this q, of ?f] have "org_units (com t) = upd_row ou_id i ?f (org_units (com s))"
    by (simp add: t)
  from filing_units_upd [OF this] have units: "list_filing_units (com t) cid = map (with_exclusion i (cid \<in> set xs)) (list_filing_units (com s) cid)"
    by (simp add: t)
  have log: "\<exists>row. audit_logs (com t) = audit_logs (com s) @ [row] \<and> action row = ORG_UNIT_UPDATED
       \<and> resource_id row = Some i \<and> al_user_id row = Some (user_id actor)"
    using changed_log [of E ORG_UNIT_UPDATED "''org_unit''" i "user_id actor" det ?d s] unfolding t by auto
  show ?thesis using adm units log by blast
qed

lemma exclusions_seen_by_cycles_witness:
  "\<exists>w t. patch_org_unit env0 2 (Some [7]) admin0 (session_of org_db) = (Inr w, t)
     \<and> map excluded (list_filing_units (com t) 7) = [True] \<and> map excluded (list_filing_units (com t) 8) = [False]"
proof -
  let ?s = "session_of org_db"
  have inv: "store_inv env0 ?s"
    by (simp add: store_inv_def chain_inv_def log_ok_def org_db_ok) (simp add: org_db_def)
  have base: "?s\<lparr>cur := org_db\<rparr> = ?s" by (simp add: session_of_def)
  have row: "get_row ou_id 2 (org_units org_db) = Some unit1" by (simp add: org_db_def get_row_def unit0_def unit1_def)
  obtain w v where "patch_org_unit_body env0 2 (Some [7]) admin0 ?s = (Inr w, v)"
    using row by (simp add: patch_org_unit_body_run [OF inv] Let_def)
  then have run: "patch_org_unit env0 2 (Some [7]) admin0 ?s = (Inr w, v\<lparr>cur := com v\<rparr>)"
    by (simp add: patch_org_unit_def role_session org_unit_roles_def get_session_Inr base)
  have units: "map (\<lambda>f. (fu_org_unit_id f, excluded f)) (list_filing_units org_db cid) = [(2, False)]" for cid
    by (simp add: list_filing_units_def Let_def org_db_def unit0_def unit1_def order_asc_def)
  have "map excluded (list_filing_units (com (v\<lparr>cur := com v\<rparr>)) cid) = [cid \<in> set [7]]" for cid
  proof -
    have "list_filing_units (com (v\<lparr>cur := com v\<rparr>)) cid = map (with_exclusion 2 (cid \<in> set [7])) (list_filing_units org_db cid)"
      using exclusions_seen_by_cycles [OF inv _ run, of cid] by simp
    with units [of cid] show ?thesis by (auto simp: with_exclusion_def)
  qed
  then show ?thesis using run by auto
qed

end
