(* ===== verification/Routes.thy ===== *)
theory Routes
  imports Admin
begin

text \<open>
  \<^verbatim>\<open>api/v1/cycles.py\<close> and \<^verbatim>\<open>api/v1/audit.py\<close>: the routes on cycles (opening is in its own
  theory) and on the audit log. A body that does not fit its schema is answered with 422 after the
  role check. Time stamps stay numbers where the answer has their ISO text.
\<close>

section \<open>Cycles\<close>

record cycle_read =
  cr_id :: uuid
  cr_fiscal_year :: int
  cr_deadline :: day
  cr_reporting_currency :: pystr
  cr_status :: cycle_state
  cr_opened_at :: "stamp option"
  cr_closed_at :: "stamp option"
  cr_reopened_at :: "stamp option"

definition cycle_read_of :: "budget_cycle \<Rightarrow> cycle_read" where
  "cycle_read_of c = \<lparr>cr_id = cycle_id c, cr_fiscal_year = fiscal_year c, cr_deadline = deadline c,
     cr_reporting_currency = reporting_currency c, cr_status = cycle_status c, cr_opened_at = opened_at c,
     cr_closed_at = closed_at c, cr_reopened_at = reopened_at c\<rparr>"

definition cycle_roles :: "role list" where
  "cycle_roles = [SystemAdmin, FinanceAdmin]"

definition cycle_reader_roles :: "role list" where
  "cycle_reader_roles = [SystemAdmin, FinanceAdmin, HRAdmin, UplineReviewer, CompanyReviewer, FilingUnitManager,
     ITSecurityAuditor]"

text \<open>\<open>CycleCreateBody\<close> and \<open>CycleReopenBody\<close>.\<close>

definition create_body_ok :: "int \<Rightarrow> pystr \<Rightarrow> bool" where
  "create_body_ok fy currency \<longleftrightarrow> 2000 \<le> fy \<and> fy \<le> 2999 \<and> length currency = 3"

definition reopen_body_ok :: "pystr \<Rightarrow> bool" where
  "reopen_body_ok reason \<longleftrightarrow> 1 \<le> length reason \<and> length reason \<le> 500"

definition create_cycle :: "env \<Rightarrow> int \<Rightarrow> day \<Rightarrow> pystr \<Rightarrow> user \<Rightarrow> cycle_read op" where
  "create_cycle E fy dl currency u = get_session (bnd (require_role cycle_roles u) (\<lambda>u.
     sq (check (create_body_ok fy currency) unprocessable)
    (bnd (cycle_create E fy dl currency u) (\<lambda>c. ret (cycle_read_of c)))))"

definition list_cycles :: "int option \<Rightarrow> user \<Rightarrow> cycle_read list op" where
  "list_cycles fy u = get_session (bnd (require_role cycle_reader_roles u) (\<lambda>_.
     bnd (cycle_list fy) (\<lambda>cs. ret (map cycle_read_of cs))))"

definition get_cycle :: "uuid \<Rightarrow> user \<Rightarrow> cycle_read op" where
  "get_cycle cid u = get_session (bnd (require_role cycle_reader_roles u) (\<lambda>_.
     bnd (cycle_get cid) (\<lambda>c. ret (cycle_read_of c))))"

definition close_cycle :: "env \<Rightarrow> uuid \<Rightarrow> user \<Rightarrow> cycle_read op" where
  "close_cycle E cid u = get_session (bnd (require_role cycle_roles u) (\<lambda>u.
     bnd (cycle_close E cid u) (\<lambda>c. ret (cycle_read_of c))))"

definition reopen_cycle :: "env \<Rightarrow> uuid \<Rightarrow> pystr \<Rightarrow> user \<Rightarrow> cycle_read op" where
  "reopen_cycle E cid reason u = get_session (bnd (require_role [SystemAdmin] u) (\<lambda>u.
     sq (check (reopen_body_ok reason) unprocessable)
    (bnd (cycle_reopen E cid reason u) (\<lambda>c. ret (cycle_read_of c)))))"

definition set_reminder_schedule_route :: "env \<Rightarrow> uuid \<Rightarrow> int list \<Rightarrow> user \<Rightarrow> (uuid \<times> uuid \<times> int) list op" where
  "set_reminder_schedule_route E cid days u = get_session (bnd (require_role cycle_roles u) (\<lambda>u.
     bnd (cycle_set_reminder_schedule E cid days u) (\<lambda>rs. ret (map (\<lambda>r. (rs_id r, rs_cycle_id r, days_before r)) rs))))"

definition get_filing_units :: "uuid \<Rightarrow> user \<Rightarrow> filing_unit_info list op" where
  "get_filing_units cid u = get_session (bnd (require_role cycle_roles u) (\<lambda>_.
     query (\<lambda>d. list_filing_units d cid)))"

section \<open>The audit log\<close>

definition list_audit_logs :: "audit_filters \<Rightarrow> user \<Rightarrow> audit_log page op" where
  "list_audit_logs f u = get_session (bnd (require_role [ITSecurityAuditor] u) (\<lambda>_.
     sq (check_paging (f_page f) (f_size f)) (fetch_page f)))"

definition verify_audit_chain :: "env \<Rightarrow> stamp option \<Rightarrow> stamp option \<Rightarrow> user \<Rightarrow> chain_verification op" where
  "verify_audit_chain E a b u = get_session (bnd (require_role [ITSecurityAuditor] u) (\<lambda>_. verify_chain E a b))"

text \<open>The cells of the exported CSV; their texts and quoting are the CSV writer's.\<close>

definition export_header :: "string list" where
  "export_header = [''sequence_no'', ''occurred_at'', ''user_id'', ''action'', ''resource_type'', ''resource_id'',
     ''ip_address'', ''details'']"

definition export_cells :: "audit_log \<Rightarrow> json list" where
  "export_cells r = [JInt (int (sequence_no r)), JTime (occurred_at r),
     case al_user_id r of None \<Rightarrow> JText [] | Some i \<Rightarrow> JUuid i, JAction (action r), JName (resource_type r),
     case resource_id r of None \<Rightarrow> JText [] | Some i \<Rightarrow> JUuid i,
     case ip_address r of None \<Rightarrow> JText [] | Some a \<Rightarrow> JText a, al_details r]"

definition export_audit_logs :: "stamp option \<Rightarrow> stamp option \<Rightarrow> user \<Rightarrow> (string list \<times> json list list) op" where
  "export_audit_logs a b u = get_session (bnd (require_role [ITSecurityAuditor] u) (\<lambda>_.
     bnd (fetch_range a b) (\<lambda>rs. ret (export_header, map export_cells rs))))"

section \<open>Properties\<close>

lemma role_get_session:
  "set (role_set u) \<inter> set allowed \<noteq> {} \<Longrightarrow> get_session (bnd (require_role allowed u) f) s = get_session (f u) s"
  by (simp add: role_session)

lemma insort_key_last: "\<forall>y \<in> set ys. f y < f x \<Longrightarrow> insort_key f x ys = ys @ [x]"
  by (induction ys) (auto simp: not_le)

lemma order_desc_rev: "sorted_wrt (<) (map e xs) \<Longrightarrow> order_desc e xs = rev xs"
  by (induction xs) (simp_all add: order_desc_def insort_key_last)

text \<open>
  Claim C37: paging through the audit log and exporting it show the same rows. For an auditor, any
  range and any page size the API admits, the pages taken one after the other are the exported rows in
  reverse order: each row once, the newest first; the total of every page is their number.
\<close>

theorem audit_pages_are_export:
  assumes inv: "store_inv E s" and u: "ITSecurityAuditor \<in> set (role_set u)"
    and size: "1 \<le> k" "k \<le> 200" "\<not> range_inverted a b" "length (audit_logs (com s)) \<le> n * k"
  defines "f \<equiv> \<lambda>p. \<lparr>f_user_id = None, f_action = None, f_resource_type = None, f_resource_id = None,
      f_from_dt = a, f_to_dt = b, f_page = int p + 1, f_size = int k\<rparr>"
  shows "\<exists>rs pages. fst (export_audit_logs a b u s) = Inr (export_header, map export_cells rs)
    \<and> (\<forall>p < n. fst (list_audit_logs (f p) u s) = Inr (pages p) \<and> total_rows (pages p) = length rs)
    \<and> concat (map (\<lambda>p. items (pages p)) [0..<n]) = rev rs
    \<and> rs = filter (in_range a b) (audit_logs (com s))"
proof -
  let ?log = "audit_logs (com s)" and ?rs = "filter (in_range a b) (audit_logs (com s))"
  have role: "set (role_set u) \<inter> set [ITSecurityAuditor] \<noteq> {}" using u by auto
  have "log_ok E (seq_next s) ?log" using inv by (simp add: store_inv_def chain_inv_def)
  then have strict: "sorted_wrt (<) (map sequence_no ?log)" by (simp add: log_ok_def)
  then have strict_rs: "sorted_wrt (<) (map sequence_no ?rs)" by (simp add: sorted_wrt_map sorted_wrt_filter)
  have asc: "order_asc sequence_no ?rs = ?rs"
    using strict_rs by (simp add: order_asc_sorted strict_sorted_imp_sorted)
  have desc: "order_desc (\<lambda>r. int (sequence_no r)) ?rs = rev ?rs"
    using strict_rs by (intro order_desc_rev) (simp add: sorted_wrt_map)
  have export: "fst (export_audit_logs a b u s) = Inr (export_header, map export_cells ?rs)"
    unfolding export_audit_logs_def role_get_session [OF role]
    using size(3) by (simp add: fst_get_session fetch_range_def act_simps asc)
  define pages where "pages = (\<lambda>p. \<lparr>items = take k (drop (p * k) (rev ?rs)), total_rows = length ?rs,
      page_no = int p + 1, page_size = int k\<rparr>)"
  have page: "fst (list_audit_logs (f p) u s) = Inr (pages p)" for p
  proof -
    have "filter (matches (f p)) ?log = ?rs" by (rule filter_cong) (simp_all add: f_def matches_def)
    moreover have "nat (int p * int k) = p * k" by (simp add: nat_mult_distrib)
    ultimately show ?thesis
      unfolding list_audit_logs_def role_get_session [OF role]
      using size(1-3) by (simp add: fst_get_session check_paging_def fetch_page_def validate_filters_def act_simps
          f_def pages_def desc)
  qed
  have "length ?rs \<le> n * k" by (rule order_trans [OF length_filter_le size(4)])
  then have "concat (map (\<lambda>p. items (pages p)) [0..<n]) = rev ?rs"
    by (simp add: pages_def pages_concat)
  with export page show ?thesis by (intro exI [of _ ?rs] exI [of _ pages]) (simp add: pages_def)
qed

definition auditor0 :: user where
  "auditor0 = manager0\<lparr>user_roles := [''ITSecurityAuditor'']\<rparr>"

lemma role_auditor0 [simp]: "role_set auditor0 = [ITSecurityAuditor]"
  by (simp add: auditor0_def role_set_def List.map_filter_def role_of_value_def all_roles_def)

lemma audit_pages_are_export_witness:
  "\<exists>rs. fst (export_audit_logs (Some 15) None auditor0 (session_of log_db)) = Inr (export_header, map export_cells rs)
     \<and> map sequence_no rs = [1]"
proof -
  have inv: "store_inv env0 (session_of log_db)"
    using sample_chain log_db_ok by (simp add: store_inv_def)
  have "length (audit_logs (com (session_of log_db))) \<le> 2 * 1" by (simp add: log_db_def)
  from audit_pages_are_export [OF inv _ _ _ _ this, of auditor0 "Some 15" None]
  show ?thesis by (auto simp: range_inverted_def log_db_def in_range_def row0_def row1_def)
qed

text \<open>
  A created cycle reads back. The route answers only for a SystemAdmin or FinanceAdmin, a
  fiscal year from 2000 to 2999 and a currency of three letters; then every user with a role sees the
  draft under its identifier and in the list of its year.
\<close>

theorem created_cycle_reads_back:
  assumes inv: "store_inv E s" and run: "create_cycle E fy dl ccy u s = (Inr r, t)"
    and reader: "set (role_set v) \<noteq> {}"
  shows "set (role_set u) \<inter> set cycle_roles \<noteq> {} \<and> 2000 \<le> fy \<and> fy \<le> 2999
    \<and> cr_fiscal_year r = fy \<and> cr_deadline r = dl \<and> cr_status r = draft
    \<and> length (cr_reporting_currency r) = 3 \<and> list_all (\<lambda>c. 65 \<le> c \<and> c \<le> 90) (cr_reporting_currency r)
    \<and> fst (get_cycle (cr_id r) v t) = Inr r
    \<and> (\<exists>rs. fst (list_cycles (Some fy) v t) = Inr rs \<and> r \<in> set rs)"
proof -
  let ?b = "s\<lparr>cur := com s\<rparr>"
  have adm: "set (role_set u) \<inter> set cycle_roles \<noteq> {}"
    using run by (auto simp: create_cycle_def role_session split: if_splits)
  from run obtain c w where body: "create_body_ok fy ccy" "cycle_create E fy dl ccy u ?b = (Inr c, w)"
      "r = cycle_read_of c" "t = w\<lparr>cur := com w\<rparr>"
    unfolding create_cycle_def role_get_session [OF adm] by (auto simp: get_session_Inr act_inv split: if_splits)
  have "store_inv E w"
    using preserves_run [OF stored.kept_cycle_services(1) store_inv_rebase [OF inv], of fy dl ccy u] body(2) by simp
  then have ok: "db_ok (com w)" by (simp add: store_inv_def)
  obtain currency where cy: "validate_currency ccy = Inr currency" "c = new_cycle fy dl currency u ?b"
      "budget_cycles (com w) = budget_cycles (com s) @ [c]"
    using body(2) by (auto simp: cycle_create_run [OF seq_fresh_rebase(2) [OF inv]] Let_def split: sum.splits if_splits)
  have three: "length currency = 3" "list_all (\<lambda>c. 65 \<le> c \<and> c \<le> 90) currency"
    using cy(1) by (auto simp: validate_currency_def Let_def split: if_splits)
  have "get_row cycle_id (cycle_id c) (budget_cycles (com w)) = Some c"
    using cy(3) ok by (intro get_row_distinct) (simp_all add: db_ok_def cycles_ok_def)
  moreover have all: "set (role_set v) \<inter> set cycle_reader_roles \<noteq> {}"
  proof -
    obtain x where "x \<in> set (role_set v)" using reader by (meson ex_in_conv)
    moreover have "x \<in> set cycle_reader_roles" by (cases x) (simp_all add: cycle_reader_roles_def)
    ultimately show ?thesis by blast
  qed
  ultimately have "fst (get_cycle (cr_id r) v t) = Inr r"
    unfolding get_cycle_def role_get_session [OF all]
    by (simp add: fst_get_session cycle_get_def act_simps body(3,4) cycle_read_of_def)
  moreover have "\<exists>rs. fst (list_cycles (Some fy) v t) = Inr rs \<and> r \<in> set rs"
    unfolding list_cycles_def role_get_session [OF all]
    by (simp add: fst_get_session cycle_list_def act_simps body(3,4) cy(2,3) new_cycle_def)
  ultimately show ?thesis
    using adm body(1) three by (simp add: body(3) cy(2) new_cycle_def cycle_read_of_def create_body_ok_def)
qed

lemma created_cycle_reads_back_witness:
  "\<exists>r t. create_cycle env0 2031 738000 (str ''twd'') admin0 (session_of cycle_db) = (Inr r, t)
     \<and> cr_reporting_currency r \<noteq> [] \<and> fst (get_cycle (cr_id r) manager0 t) = Inr r"
proof -
  let ?s = "session_of cycle_db"
  have inv: "store_inv env0 ?s" using cycle_db_inv by (simp add: cycles_inv_def)
  have base: "?s\<lparr>cur := cycle_db\<rparr> = ?s" by (simp add: session_of_def)
  have val: "validate_currency (str ''twd'') = Inr (str ''TWD'')"
    by (simp add: validate_currency_def strip_def is_space_def upper_char_def Let_def)
  let ?d = "cycle_db\<lparr>budget_cycles := budget_cycles cycle_db @ [new_cycle 2031 738000 (str ''TWD'') admin0 ?s]\<rparr>"
  have fresh: "active_for 2031 (budget_cycles cycle_db) = []"
    by (simp add: active_for_def cycle_db_def cycle0_def)
  have ok: "db_ok ?d"
    using cycle_db_ok by (simp add: db_ok_def cycles_ok_def cycle_db_def cycle0_def new_cycle_def)
  obtain c w where "cycle_create env0 2031 738000 (str ''twd'') admin0 ?s = (Inr c, w)"
    using val fresh ok by (simp add: cycle_create_run [OF seq_fresh_based [OF inv]] Let_def del: str_simps)
  then obtain r t where run: "create_cycle env0 2031 738000 (str ''twd'') admin0 ?s = (Inr r, t)"
    by (simp add: create_cycle_def role_session cycle_roles_def get_session_Inr base act_inv create_body_ok_def del: str_simps)
  from created_cycle_reads_back [OF inv run, of manager0] run show ?thesis by auto
qed

end
