(* ===== verification/Application.thy ===== *)
theory Application
  imports Exports Open_Cycle Routes "HOL-Library.Sublist"
begin

text \<open>
  The application as a whole: \<^verbatim>\<open>api/v1/router.py\<close> with every route it mounts, the roles each
  route asks for, \<^verbatim>\<open>get_current_user\<close> of \<^verbatim>\<open>deps.py\<close> in front of them, and the processes beside the API. What a
  client can ask is a \<open>api_call\<close>; \<open>serve\<close> is the handler it reaches. A state of the system is a
  session between two requests, and \<open>app_step\<close> is one request, one round of a worker, one run of the
  reminder job or the passing of time. Requests run one after the other.
\<close>

section \<open>The routes\<close>

datatype api_call =
    List_users int int
  | Patch_user uuid "string list option" "uuid option"
  | Deactivate_user uuid
  | List_org_units
  | Patch_org_unit uuid "uuid list option"
  | Create_cycle int day pystr
  | List_cycles "int option"
  | Get_cycle uuid
  | Open_cycle uuid
  | Close_cycle uuid
  | Reopen_cycle uuid pystr
  | Set_reminder_schedule uuid "int list"
  | Get_filing_units uuid
  | List_audit_logs audit_filters
  | Verify_audit_chain "stamp option" "stamp option"
  | Export_audit_logs "stamp option" "stamp option"
  | List_accounts "account_category option"
  | Get_account pystr
  | Upsert_account account_write
  | Import_actuals uuid "pystr option" bytes
  | Upload_budget uuid uuid "pystr option" bytes
  | List_upload_versions uuid uuid
  | Get_upload uuid
  | Import_personnel uuid "pystr option" bytes
  | List_personnel_versions uuid
  | Get_personnel_import uuid
  | Import_shared_costs uuid "pystr option" bytes
  | List_shared_cost_imports uuid
  | Get_shared_cost_import uuid
  | Regenerate_template uuid uuid
  | Download_template uuid uuid
  | Resend_notification uuid pystr
  | List_failed_notifications
  | Create_resubmit_request uuid uuid uuid pystr uuid pystr "int option"
  | List_resubmit_requests uuid uuid
  | Get_dashboard uuid "dashboard_status option" "uuid option" nat nat
  | Get_consolidated_report uuid
  | Start_report_export uuid export_format
  | Get_export_status uuid
  | Download_export_file uuid

text \<open>The answers, by the response model of the route.\<close>

datatype answer =
    A_users "user_read page" | A_user user_read | A_units "org_unit list" | A_unit org_unit
  | A_cycle cycle_read | A_cycles "cycle_read list" | A_opened open_cycle_response
  | A_reminders "(uuid \<times> uuid \<times> int) list" | A_filing "filing_unit_info list"
  | A_log "audit_log page" | A_verified chain_verification | A_log_csv "string list \<times> json list list"
  | A_accounts "account_code list" | A_account account_code | A_actuals import_summary
  | A_upload budget_upload | A_uploads "budget_upload list"
  | A_import import_upload | A_imports "import_upload list"
  | A_generated template_result | A_file "pystr \<times> bytes"
  | A_notification notification | A_notifications "notification list"
  | A_resubmit resubmit_request | A_resubmits "resubmit_request list"
  | A_dashboard dashboard_response | A_report report
  | A_export "nat \<times> export_result" | A_job job_run | A_exported "bytes \<times> string"

definition answer_with :: "('a \<Rightarrow> answer) \<Rightarrow> 'a op \<Rightarrow> answer op" where
  "answer_with K m = bnd m (\<lambda>x. ret (K x))"

primrec serve :: "env \<Rightarrow> api_call \<Rightarrow> user \<Rightarrow> answer op" where
  "serve E (List_users page_n size_n) u = answer_with A_users (list_users page_n size_n u)"
| "serve E (Patch_user uid names ou) u = answer_with A_user (patch_user E uid names ou u)"
| "serve E (Deactivate_user uid) u = answer_with A_user (deactivate_user E uid u)"
| "serve E List_org_units u = answer_with A_units (list_org_units u)"
| "serve E (Patch_org_unit i excl) u = answer_with A_unit (patch_org_unit E i excl u)"
| "serve E (Create_cycle fy dl currency) u = answer_with A_cycle (create_cycle E fy dl currency u)"
| "serve E (List_cycles fy) u = answer_with A_cycles (list_cycles fy u)"
| "serve E (Get_cycle cid) u = answer_with A_cycle (get_cycle cid u)"
| "serve E (Open_cycle cid) u = answer_with A_opened (open_cycle_endpoint E cid u)"
| "serve E (Close_cycle cid) u = answer_with A_cycle (close_cycle E cid u)"
| "serve E (Reopen_cycle cid reason) u = answer_with A_cycle (reopen_cycle E cid reason u)"
| "serve E (Set_reminder_schedule cid days) u = answer_with A_reminders (set_reminder_schedule_route E cid days u)"
| "serve E (Get_filing_units cid) u = answer_with A_filing (get_filing_units cid u)"
| "serve E (List_audit_logs f) u = answer_with A_log (list_audit_logs f u)"
| "serve E (Verify_audit_chain a b) u = answer_with A_verified (verify_audit_chain E a b u)"
| "serve E (Export_audit_logs a b) u = answer_with A_log_csv (export_audit_logs a b u)"
| "serve E (List_accounts c) u = answer_with A_accounts (list_accounts_route c u)"
| "serve E (Get_account c) u = answer_with A_account (get_account c u)"
| "serve E (Upsert_account w) u = answer_with A_account (upsert_account E w u)"
| "serve E (Import_actuals cid filename content) u = answer_with A_actuals (import_actuals_route E cid filename content u)"
| "serve E (Upload_budget cid i filename content) u = answer_with A_upload (upload_budget E cid i filename content u)"
| "serve E (List_upload_versions cid i) u = answer_with A_uploads (list_upload_versions cid i u)"
| "serve E (Get_upload i) u = answer_with A_upload (get_upload i u)"
| "serve E (Import_personnel cid filename content) u = answer_with A_import (import_personnel E cid filename content u)"
| "serve E (List_personnel_versions cid) u = answer_with A_imports (list_personnel_versions cid u)"
| "serve E (Get_personnel_import i) u = answer_with A_import (get_personnel_import i u)"
| "serve E (Import_shared_costs cid filename content) u = answer_with A_import (import_shared_costs E cid filename content u)"
| "serve E (List_shared_cost_imports cid) u = answer_with A_imports (list_shared_cost_imports cid u)"
| "serve E (Get_shared_cost_import i) u = answer_with A_import (get_shared_cost_import i u)"
| "serve E (Regenerate_template cid i) u = answer_with A_generated (regenerate_template E cid i u)"
| "serve E (Download_template cid i) u = answer_with A_file (download_template E cid i u)"
| "serve E (Resend_notification i email) u = answer_with A_notification (resend_notification E i email u)"
| "serve E List_failed_notifications u = answer_with A_notifications (list_failed_notifications u)"
| "serve E (Create_resubmit_request cid i requester reason recipient email target) u =
     answer_with A_resubmit (create_resubmit_request E cid i requester reason recipient email target u)"
| "serve E (List_resubmit_requests cid i) u = answer_with A_resubmits (list_resubmit_requests cid i u)"
| "serve E (Get_dashboard cid st i limit offset) u = answer_with A_dashboard (get_dashboard cid st i limit offset u)"
| "serve E (Get_consolidated_report cid) u = answer_with A_report (get_consolidated_report cid u)"
| "serve E (Start_report_export cid f) u = answer_with A_export (start_report_export E cid f u)"
| "serve E (Get_export_status i) u = answer_with A_job (get_export_status i u)"
| "serve E (Download_export_file i) u = answer_with A_exported (download_export_file i u)"

text \<open>
  The dependency resolves the user of the session cookie first; the route's own role check
  follows inside \<open>serve\<close>. Reading the user changes nothing, so it makes no difference that the code
  does both in one session.
\<close>

definition get_current_user :: "outside \<Rightarrow> pystr option \<Rightarrow> user op" where
  "get_current_user X ck = get_session (current_user X ck)"

definition api_request :: "env \<Rightarrow> outside \<Rightarrow> pystr option \<Rightarrow> api_call \<Rightarrow> answer op" where
  "api_request E X ck c = bnd (get_current_user X ck) (serve E c)"

section \<open>Who may call what\<close>

text \<open>The access matrix of the routes: the arguments of \<open>require_role\<close> at each of them.\<close>

primrec call_roles :: "api_call \<Rightarrow> role list" where
  "call_roles (List_users page_n size_n) = [SystemAdmin]"
| "call_roles (Patch_user uid names ou) = [SystemAdmin]"
| "call_roles (Deactivate_user uid) = [SystemAdmin]"
| "call_roles List_org_units = [SystemAdmin, FinanceAdmin]"
| "call_roles (Patch_org_unit i excl) = [SystemAdmin, FinanceAdmin]"
| "call_roles (Create_cycle fy dl currency) = [SystemAdmin, FinanceAdmin]"
| "call_roles (List_cycles fy) = all_roles"
| "call_roles (Get_cycle cid) = all_roles"
| "call_roles (Open_cycle cid) = [FinanceAdmin, SystemAdmin]"
| "call_roles (Close_cycle cid) = [SystemAdmin, FinanceAdmin]"
| "call_roles (Reopen_cycle cid reason) = [SystemAdmin]"
| "call_roles (Set_reminder_schedule cid days) = [SystemAdmin, FinanceAdmin]"
| "call_roles (Get_filing_units cid) = [SystemAdmin, FinanceAdmin]"
| "call_roles (List_audit_logs f) = [ITSecurityAuditor]"
| "call_roles (Verify_audit_chain a b) = [ITSecurityAuditor]"
| "call_roles (Export_audit_logs a b) = [ITSecurityAuditor]"
| "call_roles (List_accounts c) = [FinanceAdmin, SystemAdmin, HRAdmin]"
| "call_roles (Get_account c) = [FinanceAdmin, SystemAdmin, HRAdmin]"
| "call_roles (Upsert_account w) = [FinanceAdmin, SystemAdmin]"
| "call_roles (Import_actuals cid filename content) = [FinanceAdmin, SystemAdmin]"
| "call_roles (Upload_budget cid i filename content) = [FilingUnitManager, FinanceAdmin, SystemAdmin]"
| "call_roles (List_upload_versions cid i) = [FilingUnitManager, FinanceAdmin, SystemAdmin, UplineReviewer, CompanyReviewer]"
| "call_roles (Get_upload i) = [FilingUnitManager, FinanceAdmin, SystemAdmin, UplineReviewer, CompanyReviewer, ITSecurityAuditor]"
| "call_roles (Import_personnel cid filename content) = [HRAdmin, SystemAdmin]"
| "call_roles (List_personnel_versions cid) = [HRAdmin, FinanceAdmin, SystemAdmin, CompanyReviewer, ITSecurityAuditor]"
| "call_roles (Get_personnel_import i) = [HRAdmin, FinanceAdmin, SystemAdmin, CompanyReviewer, ITSecurityAuditor]"
| "call_roles (Import_shared_costs cid filename content) = [FinanceAdmin, SystemAdmin]"
| "call_roles (List_shared_cost_imports cid) = [FinanceAdmin, SystemAdmin, CompanyReviewer, UplineReviewer, ITSecurityAuditor]"
| "call_roles (Get_shared_cost_import i) = [FinanceAdmin, SystemAdmin, CompanyReviewer, UplineReviewer, ITSecurityAuditor]"
| "call_roles (Regenerate_template cid i) = [FinanceAdmin, SystemAdmin]"
| "call_roles (Download_template cid i) = [SystemAdmin, FinanceAdmin, HRAdmin, UplineReviewer, FilingUnitManager, CompanyReviewer]"
| "call_roles (Resend_notification i email) = [FinanceAdmin, SystemAdmin]"
| "call_roles List_failed_notifications = [FinanceAdmin, SystemAdmin]"
| "call_roles (Create_resubmit_request cid i requester reason recipient email target) = [FinanceAdmin, UplineReviewer, CompanyReviewer]"
| "call_roles (List_resubmit_requests cid i) = [FinanceAdmin, UplineReviewer, CompanyReviewer]"
| "call_roles (Get_dashboard cid st i limit offset) = dashboard_roles"
| "call_roles (Get_consolidated_report cid) = [SystemAdmin, FinanceAdmin, UplineReviewer, CompanyReviewer]"
| "call_roles (Start_report_export cid f) = report_roles"
| "call_roles (Get_export_status i) = report_roles"
| "call_roles (Download_export_file i) = report_roles"

lemma answer_with_fst: "fst (m s) = Inl e \<Longrightarrow> answer_with K m s = (Inl e, snd (m s))"
  by (cases "m s") (simp add: answer_with_def bnd_def)

lemma set_all_roles [simp]: "set cycle_reader_roles = set all_roles"
  by (auto simp: cycle_reader_roles_def all_roles_def)

lemma denied_route: "set (role_set u) \<inter> set rs = {} \<Longrightarrow>
    answer_with K (get_session (bnd (require_role rs u) f)) s = (Inl (app_err ForbiddenError ''RBAC_001''), s\<lparr>cur := com s\<rparr>)"
  by (simp add: answer_with_def run_bnd role_session)

lemmas route_defs = list_users_def patch_user_def deactivate_user_def list_org_units_def patch_org_unit_def create_cycle_def
  list_cycles_def get_cycle_def open_cycle_endpoint_def close_cycle_def reopen_cycle_def set_reminder_schedule_route_def
  get_filing_units_def list_audit_logs_def verify_audit_chain_def export_audit_logs_def list_accounts_route_def
  get_account_def upsert_account_def import_actuals_route_def upload_budget_def list_upload_versions_def get_upload_def
  import_personnel_def list_personnel_versions_def get_personnel_import_def import_shared_costs_def
  list_shared_cost_imports_def get_shared_cost_import_def regenerate_template_def download_template_def
  resend_notification_def list_failed_notifications_def create_resubmit_request_def list_resubmit_requests_def
  get_dashboard_def get_consolidated_report_def start_report_export_def get_export_status_def download_export_file_def

lemma serve_denied:
  "set (role_set u) \<inter> set (call_roles c) = {} \<Longrightarrow>
    serve E c u s = (Inl (app_err ForbiddenError ''RBAC_001''), s\<lparr>cur := com s\<rparr>)"
  by (cases c; simp only: serve.simps route_defs call_roles.simps;
      rule denied_route; simp add: cycle_roles_def org_unit_roles_def notification_roles_def resubmit_roles_def)

lemma current_user_fails: "fst (current_user X ck s) = Inl e \<Longrightarrow> e = auth_002"
  by (auto simp: current_user_def decode_access_token_def act_simps split: option.splits if_splits)

lemma get_current_user_run:
  "snd (get_current_user X ck s) = s\<lparr>cur := com s\<rparr>"
  "case fst (get_current_user X ck s) of Inl e \<Rightarrow> e = auth_002 | Inr u \<Rightarrow> u \<in> set (users (com s)) \<and> is_active u"
proof -
  have "preserves (\<lambda>t. t = s\<lparr>cur := com s\<rparr>) (current_user X ck)"
    unfolding current_user_def decode_access_token_def by (intro preserves_intros; simp)
  then have "snd (current_user X ck (s\<lparr>cur := com s\<rparr>)) = s\<lparr>cur := com s\<rparr>"
    by (auto dest: preserves_run)
  then show "snd (get_current_user X ck s) = s\<lparr>cur := com s\<rparr>"
    by (simp add: get_current_user_def snd_get_session)
  show "case fst (get_current_user X ck s) of Inl e \<Rightarrow> e = auth_002 | Inr u \<Rightarrow> u \<in> set (users (com s)) \<and> is_active u"
  proof (cases "fst (current_user X ck (s\<lparr>cur := com s\<rparr>))")
    case (Inl e)
    with current_user_fails [OF Inl] show ?thesis
      by (simp add: get_current_user_def fst_get_session auth_002_def app_error_init_def)
  next
    case (Inr u)
    then obtain t where "current_user X ck (s\<lparr>cur := com s\<rparr>) = (Inr u, t)" by (metis prod.collapse)
    then have "u \<in> set (users (com s)) \<and> is_active u" by (auto simp: current_user_Inr dest: get_row_Some)
    with Inr show ?thesis by (simp add: get_current_user_def fst_get_session)
  qed
qed

text \<open>
  Claim C4: every route is guarded. Whatever a client asks, without a session of an active user it
  is refused with \<open>AUTH_002\<close>, and a user none of whose roles the route asks for is refused with
  \<open>RBAC_001\<close>; in both cases nothing is changed, stored or mailed, and nothing is written to the audit log. All other
  requests run the handler of the route for that user.
\<close>

theorem calls_guarded:
  "(case fst (get_current_user X ck s) of Inl e \<Rightarrow> e = auth_002 | Inr u \<Rightarrow> u \<in> set (users (com s)) \<and> is_active u)
    \<and> api_request E X ck c s = (case fst (get_current_user X ck s) of
        Inl e \<Rightarrow> (Inl (app_err UnauthenticatedError ''AUTH_002''), s\<lparr>cur := com s\<rparr>)
      | Inr u \<Rightarrow> if set (role_set u) \<inter> set (call_roles c) = {}
          then (Inl (app_err ForbiddenError ''RBAC_001''), s\<lparr>cur := com s\<rparr>)
          else serve E c u (s\<lparr>cur := com s\<rparr>))"
proof -
  note run = get_current_user_run [where X = X and ck = ck and s = s]
  obtain r t where g: "get_current_user X ck s = (r, t)" by fastforce
  with run(1) have t: "t = s\<lparr>cur := com s\<rparr>" by simp
  have "serve E c u t = (Inl (app_err ForbiddenError ''RBAC_001''), t)" if "set (role_set u) \<inter> set (call_roles c) = {}" for u
    using serve_denied [OF that, of E t] by (simp add: t)
  then show ?thesis
    using run(2) by (auto simp: api_request_def run_bnd g t auth_002_def split: sum.splits)
qed

section \<open>The route table\<close>

text \<open>
  The routes in the order the router mounts them, with the method and the path of each, below
  \<^verbatim>\<open>/api/v1\<close>, and the name of the handler. A path parameter stands for one segment that is not empty.
\<close>

datatype http_method = Get | Post | Patch

datatype segment = Fixed string | Param

definition route_table :: "(http_method \<times> segment list \<times> string) list" where
  "route_table =
    [(Get, [Fixed ''auth'', Fixed ''sso'', Fixed ''login''], ''sso_login''),
     (Get, [Fixed ''auth'', Fixed ''sso'', Fixed ''callback''], ''sso_callback''),
     (Post, [Fixed ''auth'', Fixed ''refresh''], ''refresh''),
     (Post, [Fixed ''auth'', Fixed ''logout''], ''logout''),
     (Get, [Fixed ''auth'', Fixed ''me''], ''whoami''),
     (Post, [Fixed ''cycles''], ''create_cycle''),
     (Get, [Fixed ''cycles''], ''list_cycles''),
     (Get, [Fixed ''cycles'', Param], ''get_cycle''),
     (Post, [Fixed ''cycles'', Param, Fixed ''close''], ''close_cycle''),
     (Post, [Fixed ''cycles'', Param, Fixed ''reopen''], ''reopen_cycle''),
     (Patch, [Fixed ''cycles'', Param, Fixed ''reminders''], ''set_reminder_schedule_route''),
     (Get, [Fixed ''cycles'', Param, Fixed ''filing-units''], ''get_filing_units''),
     (Post, [Fixed ''cycles'', Param, Fixed ''open''], ''open_cycle_endpoint''),
     (Post, [Fixed ''cycles'', Param, Fixed ''templates'', Param, Fixed ''regenerate''], ''regenerate_template''),
     (Get, [Fixed ''cycles'', Param, Fixed ''templates'', Param, Fixed ''download''], ''download_template''),
     (Get, [Fixed ''accounts''], ''list_accounts''),
     (Get, [Fixed ''accounts'', Param], ''get_account''),
     (Post, [Fixed ''accounts''], ''upsert_account''),
     (Post, [Fixed ''cycles'', Param, Fixed ''actuals''], ''import_actuals''),
     (Post, [Fixed ''cycles'', Param, Fixed ''uploads'', Param], ''upload_budget''),
     (Get, [Fixed ''cycles'', Param, Fixed ''uploads'', Param], ''list_upload_versions''),
     (Get, [Fixed ''uploads'', Param], ''get_upload''),
     (Post, [Fixed ''cycles'', Param, Fixed ''personnel-imports''], ''import_personnel''),
     (Get, [Fixed ''cycles'', Param, Fixed ''personnel-imports''], ''list_personnel_versions''),
     (Get, [Fixed ''personnel-imports'', Param], ''get_personnel_import''),
     (Post, [Fixed ''cycles'', Param, Fixed ''shared-cost-imports''], ''import_shared_costs''),
     (Get, [Fixed ''cycles'', Param, Fixed ''shared-cost-imports''], ''list_shared_cost_imports''),
     (Get, [Fixed ''shared-cost-imports'', Param], ''get_shared_cost_import''),
     (Get, [Fixed ''cycles'', Param, Fixed ''dashboard''], ''get_dashboard''),
     (Get, [Fixed ''cycles'', Param, Fixed ''reports'', Fixed ''consolidated''], ''get_consolidated_report''),
     (Post, [Fixed ''cycles'', Param, Fixed ''reports'', Fixed ''exports''], ''start_report_export''),
     (Get, [Fixed ''exports'', Param], ''get_export_status''),
     (Get, [Fixed ''exports'', Param, Fixed ''file''], ''download_export_file''),
     (Get, [Fixed ''notifications'', Fixed ''failed''], ''list_failed_notifications''),
     (Post, [Fixed ''notifications'', Param, Fixed ''resend''], ''resend_notification''),
     (Post, [Fixed ''resubmit-requests''], ''create_resubmit_request''),
     (Get, [Fixed ''resubmit-requests''], ''list_resubmit_requests''),
     (Get, [Fixed ''audit-logs''], ''list_audit_logs''),
     (Get, [Fixed ''audit-logs'', Fixed ''verify''], ''verify_audit_chain''),
     (Get, [Fixed ''audit-logs'', Fixed ''export''], ''export_audit_logs''),
     (Get, [Fixed ''admin'', Fixed ''org-units''], ''list_org_units''),
     (Patch, [Fixed ''admin'', Fixed ''org-units'', Param], ''patch_org_unit''),
     (Get, [Fixed ''admin'', Fixed ''users''], ''list_users''),
     (Patch, [Fixed ''admin'', Fixed ''users'', Param], ''patch_user''),
     (Post, [Fixed ''admin'', Fixed ''users'', Param, Fixed ''deactivate''], ''deactivate_user'')]"

fun path_matches :: "segment list \<Rightarrow> string list \<Rightarrow> bool" where
  "path_matches [] [] = True"
| "path_matches (Fixed t # ps) (x # xs) = (x = t \<and> path_matches ps xs)"
| "path_matches (Param # ps) (x # xs) = (x \<noteq> [] \<and> path_matches ps xs)"
| "path_matches ps xs = False"

definition handlers_for :: "http_method \<Rightarrow> string list \<Rightarrow> string list" where
  "handlers_for m path = map (\<lambda>(_, _, n). n) (filter (\<lambda>(m', ps, n). m' = m \<and> path_matches ps path) route_table)"

text \<open>Two paths a request could match both.\<close>

fun overlap :: "segment list \<Rightarrow> segment list \<Rightarrow> bool" where
  "overlap [] [] = True"
| "overlap (Fixed a # ps) (Fixed b # qs) = (a = b \<and> overlap ps qs)"
| "overlap (Fixed a # ps) (Param # qs) = (a \<noteq> [] \<and> overlap ps qs)"
| "overlap (Param # ps) (Fixed b # qs) = (b \<noteq> [] \<and> overlap ps qs)"
| "overlap (Param # ps) (Param # qs) = overlap ps qs"
| "overlap ps qs = False"

lemma overlap_both: "path_matches ps xs \<Longrightarrow> path_matches qs xs \<Longrightarrow> overlap ps qs"
  by (induction ps qs arbitrary: xs rule: overlap.induct; case_tac xs; auto)

lemma apart_table: "sorted_wrt (\<lambda>(m, ps, n) (m', qs, n'). m \<noteq> m' \<or> \<not> overlap ps qs) route_table"
  by code_simp

lemma apart_matches:
  "sorted_wrt (\<lambda>(m, ps, n) (m', qs, n'). m \<noteq> m' \<or> \<not> overlap ps qs) rs \<Longrightarrow>
    length (filter (\<lambda>(m', ps, n). m' = m \<and> path_matches ps path) rs) \<le> 1"
proof (induction rs)
  case (Cons r rs)
  obtain m1 ps n where r: "r = (m1, ps, n)" by (cases r)
  have "filter (\<lambda>(m', ps, n). m' = m \<and> path_matches ps path) rs = []" if "m1 = m" "path_matches ps path"
    using Cons.prems r that overlap_both by (fastforce simp: filter_empty_conv)
  with Cons show ?case by (auto simp: r)
qed simp

text \<open>
  No route shadows another: for every method and path there is at most one handler, so the order in which the
  routers are mounted does not matter.
\<close>

theorem one_handler: "length (handlers_for m path) \<le> 1"
  unfolding handlers_for_def length_map by (rule apart_matches [OF apart_table])

section \<open>What every request keeps\<close>

text \<open>Operations that only read keep everything.\<close>

lemma preserves_reads [preserves_intros]:
  "preserves P (require_role rs u)"
  "preserves P (fetch_page f)"
  "preserves P (fetch_range a b)"
  "preserves P (verify_chain E a b)"
  "preserves P (check_paging page_n size_n)"
  "preserves P (cycle_list fy)"
  "preserves P (get_by_code cd)"
  "preserves P (budget_get i)"
  "preserves P (personnel_get i)"
  "preserves P (shared_get i)"
  "preserves P (storage_read k)"
  "preserves P (get_status i)"
  "preserves P (status_for_user cid u flt)"
  unfolding require_role_def fetch_page_def fetch_range_def verify_chain_def check_paging_def cycle_list_def get_by_code_def
    budget_get_def personnel_get_def shared_get_def storage_read_def validate_key_def get_status_def status_for_user_def
    validate_filters_def Let_def
  by (intro preserves_intros; simp)+

context audited_inv
begin

lemma kept_templates_routes [preserves_intros]:
  "preserves P (generate_for_cycle E c units u)"
  "preserves P (regenerate E c w u)"
  "preserves P (template_download E cid i u)"
  unfolding generate_for_cycle_def regenerate_def template_download_def by (intro preserves_intros; simp)+

lemma kept_open_cycle [preserves_intros]:
  "preserves P (send_cycle_opened E service recipients c)"
  "preserves P (open_cycle E service cid u)"
  unfolding send_cycle_opened_def open_cycle_def Let_def by (intro preserves_intros; simp)+

lemma kept_exports [preserves_intros]:
  "preserves P (render_and_save E cid sc f)"
  "preserves P (enqueue hs ty p uid)"
  "preserves P (export_async E hs cid sc f u)"
  "preserves P (send_export_notification E service i cid url n until)"
  "preserves P (handler_run E service p)"
  unfolding render_and_save_def enqueue_def export_async_def run_sync_def enqueue_async_def send_export_notification_def
    handler_run_def Let_def
  by (intro preserves_intros; simp)+

lemma kept_bodies [preserves_intros]:
  "preserves P (patch_user_body E uid names ou actor)"
  "preserves P (deactivate_user_body E uid actor)"
  "preserves P (patch_org_unit_body E i excl actor)"
  unfolding patch_user_body_def deactivate_user_body_def patch_org_unit_body_def audit_user_role_change_def
    audit_org_unit_updated_def Let_def
  by (intro preserves_intros; simp)+

lemma kept_route: "(\<And>v. preserves P (f v)) \<Longrightarrow> preserves P (answer_with K (get_session (bnd (require_role rs u) f)))"
  unfolding answer_with_def by (intro preserves_intros)

lemma kept_serve [preserves_intros]: "preserves P (serve E c u)"
proof (cases c)
  case Download_export_file
  show ?thesis
    unfolding Download_export_file serve.simps download_export_file_def
    by (rule kept_route) (auto intro!: preserves_intros split: json.splits)
qed (simp only: serve.simps route_defs; rule kept_route; intro preserves_intros; fail)+

lemma kept_request: "preserves P (api_request E X ck c)"
  unfolding api_request_def get_current_user_def by (intro preserves_intros)

text \<open>The jobs: a round keeps what its handlers keep.\<close>

lemma kept_claim [preserves_intros]: "preserves P claim_job"
proof -
  have reported: "preserves P (case e of Integrity_error \<Rightarrow> sq rollback (raise (app_err InfraError ''SYS_001'')) | _ \<Rightarrow> raise e)"
    for e :: exn by (cases e; simp; intro preserves_intros)
  show ?thesis unfolding claim_job_def by (intro preserves_intros reported; simp)
qed

lemma kept_settle [preserves_intros]: "preserves P (settle_job E c out)"
  unfolding settle_job_def by (intro preserves_intros; simp)

lemma kept_round:
  assumes "\<And>ty h p. hs ty = Some h \<Longrightarrow> preserves P (h p)"
  shows "preserves P (process_once E hs)"
  unfolding process_once_def by (intro preserves_intros; rule assms)

lemma kept_api_round: "preserves P (process_once E (api_handlers E))"
  by (rule kept_round)
    (auto simp: api_handlers_def register_report_export_handler_def register_handler_def kept_exports split: if_splits)

lemma kept_remind: "P s \<Longrightarrow> P (snd (remind E c days rs ok bad s))"
proof (induction rs arbitrary: ok bad s)
  case (Cons r rs)
  let ?m = "notify_send E DEADLINE_REMINDER (rcp_user_id r) (rcp_email r)
         [(''cycle_id'', JUuid (cycle_id c)), (''fiscal_year'', JInt (fiscal_year c)),
          (''deadline'', JInt (deadline c)), (''days_before'', JInt days)] (Some (''cycle'', cycle_id c))"
  obtain x t where m: "?m s = (x, t)" by fastforce
  then have "P t" using preserves_run [OF kept_notify_services(1) Cons.prems] by (metis snd_conv)
  with m Cons.IH show ?case by (simp split: sum.splits)
qed simp

lemma kept_dispatch:
  "P s \<Longrightarrow> dispatch_cycles E ref_day cs ok bad s = Some (k, t) \<Longrightarrow> P t"
proof (induction cs arbitrary: ok bad s)
  case (Cons c cs)
  let ?days = "deadline c - ref_day"
  obtain ok' bad' s' where nxt: "dispatch_cycles E ref_day cs ok' bad' s' = Some (k, t)"
    "s' = s \<or> (\<exists>rs. s' = snd (remind E c ?days rs ok bad s))"
    using Cons.prems(2) by (auto simp: Let_def split: if_splits option.splits prod.splits) (metis snd_conv)
  with nxt(2) have "P s'" using kept_remind [OF Cons.prems(1)] Cons.prems(1) by blast
  with nxt(1) Cons.IH show ?case by blast
qed simp

lemma kept_reminder_job:
  assumes "P s" "reminder_job E s = Some t"
  shows "P t"
proof -
  from assms(2) obtain d cs k u where u: "dispatch_cycles E d cs 0 0 (s\<lparr>cur := com s\<rparr>) = Some (k, u)" "t = u\<lparr>cur := com u\<rparr>"
    by (auto simp: reminder_job_def dispatch_deadline_reminders_def Let_def)
  have "P u" by (rule kept_dispatch [OF kept_rebase [OF assms(1)] u(1)])
  then show ?thesis by (simp only: u(2) kept_rebase)
qed

end

section \<open>The audit log only grows\<close>

text \<open>
  Both logs, the committed one and the one the transaction sees, begin with the rows \<open>L\<close>, which
  the sequence has passed: a record gets a later number, so its second write cannot reach them.
\<close>

definition log_extends :: "audit_log list \<Rightarrow> session \<Rightarrow> bool" where
  "log_extends L s \<longleftrightarrow> prefix L (audit_logs (cur s)) \<and> prefix L (audit_logs (com s))
     \<and> (\<forall>r \<in> set L. sequence_no r < seq_next s)"

lemma prefix_upd:
  assumes "\<forall>r \<in> set L. key r \<noteq> k" "prefix L rs"
  shows "prefix L (upd_row key k f rs)"
proof -
  obtain zs where "rs = L @ zs" using assms(2) by (rule prefixE)
  moreover have "upd_row key k f L = L" using assms(1) by (auto simp: upd_row_def intro: map_idI)
  ultimately show ?thesis by (simp add: upd_row_def)
qed

lemma log_extends_record: "preserves (log_extends L) (audit_record E act rt rid uid ip det)"
  unfolding preserves_def
proof (intro allI impI)
  fix s assume L: "log_extends L s"
  then have old: "\<forall>r \<in> set L. sequence_no r \<noteq> seq_next s" "\<forall>r \<in> set L. sequence_no r < Suc (seq_next s)"
    and pre: "\<And>rs. prefix L (audit_logs (cur s) @ rs)" "prefix L (audit_logs (com s))"
    by (auto simp: log_extends_def intro: prefix_prefix)
  have "prefix L (upd_row sequence_no (seq_next s) f (audit_logs (cur s) @ rs))" for f rs
    by (rule prefix_upd [OF old(1) pre(1)])
  then show "log_extends L (snd (audit_record E act rt rid uid ip det s))"
    using old(2) pre by (simp add: audit_record_def act_simps Let_def log_extends_def)
qed

interpretation appended: audited_inv E "log_extends L" for E L
  by unfold_locales (rule log_extends_record | simp add: preserves_def log_extends_def act_simps)+

section \<open>The system\<close>

text \<open>
  One step: a request of a client, a login, a token refresh, a logout, a round of the job runner with the handlers
  the API registers or of the worker process, which has none, a run of the reminder job, or the
  passing of time.
\<close>

inductive app_step :: "env \<Rightarrow> outside \<Rightarrow> session \<Rightarrow> session \<Rightarrow> bool" for E X where
  request: "app_step E X s (snd (api_request E X ck c s))"
| login: "app_step E X s (snd (sso_callback E X auth_code state ip agent s))"
| refreshing: "app_step E X s (snd (refresh_route E X raw s))"
| logging_out: "app_step E X s (snd (logout_route E X ck s))"
| who: "app_step E X s (snd (whoami X ck s))"
| api_round: "app_step E X s (snd (process_once E (api_handlers E) s))"
| worker_round: "app_step E X s (snd (process_once E (register_all_handlers Map.empty) s))"
| reminders: "reminder_job E s = Some t \<Longrightarrow> app_step E X s t"
| time_passes: "clock s \<le> now \<Longrightarrow> app_step E X s (s\<lparr>clock := now\<rparr>)"

context audited_inv
begin

lemma kept_step: "app_step E X s t \<Longrightarrow> P s \<Longrightarrow> P t"
proof (induction rule: app_step.induct)
  case (worker_round s)
  have "preserves P (process_once E (register_all_handlers Map.empty))"
    by (rule kept_round) (simp add: register_all_handlers_def)
  then show ?case using worker_round by (rule preserves_run)
next
  case (who s ck)
  have "preserves P (whoami X ck)" unfolding whoami_def by (intro preserves_intros)
  then show ?case using who by (rule preserves_run)
qed (simp_all add: preserves_run [OF kept_request] preserves_run [OF kept_api_round] preserves_run [OF kept_auth_routes(1)]
    preserves_run [OF kept_auth_routes(2)] preserves_run [OF kept_auth_routes(3)] kept_reminder_job)

lemma kept_reachable: "(app_step E X)\<^sup>*\<^sup>* s t \<Longrightarrow> P s \<Longrightarrow> P t"
  by (induction rule: rtranclp_induct) (auto intro: kept_step)

end

text \<open>
  Claim C2: the application keeps its data and its history. From a state whose database satisfies its
  constraints and whose audit log is an intact chain, whatever clients ask, in whatever order, with
  logins, job rounds, reminder runs and the passing of time in between, the committed
  database satisfies all constraints, the audit log still begins with the rows it had and has only
  grown, and an auditor who verifies the chain is told that it holds, for all of its rows.
\<close>

theorem application_safe:
  assumes "store_inv E s" "cur s = com s" "(app_step E X)\<^sup>*\<^sup>* s t" "ITSecurityAuditor \<in> set (role_set u)"
  shows "db_ok (com t) \<and> prefix (audit_logs (com s)) (audit_logs (com t))
    \<and> fst (verify_audit_chain E None None u t) = Inr \<lparr>verified = True, range_start = None, range_end = None,
        chain_length = length (audit_logs (com t))\<rparr>"
proof -
  have inv: "store_inv E t" by (rule stored.kept_reachable [OF assms(3,1)])
  have "log_extends (audit_logs (com s)) s"
    using assms(1,2) by (simp add: log_extends_def store_inv_def chain_inv_def log_ok_def)
  then have "log_extends (audit_logs (com s)) t" by (rule appended.kept_reachable [OF assms(3)])
  moreover have role: "set (role_set u) \<inter> set [ITSecurityAuditor] \<noteq> {}" using assms(4) by auto
  have "fst (verify_audit_chain E None None u t) = Inr \<lparr>verified = True, range_start = None, range_end = None,
        chain_length = length (audit_logs (com t))\<rparr>"
    unfolding verify_audit_chain_def role_get_session [OF role]
    by (simp add: fst_get_session verify_committed [OF inv])
  ultimately show ?thesis using inv by (simp add: store_inv_def log_extends_def)
qed

lemma application_safe_witness:
  "\<exists>t n. (app_step env0 outside0)\<^sup>*\<^sup>* (session_of log_db) t \<and> prefix [row0, row1] (audit_logs (com t)) \<and> 2 \<le> n
     \<and> fst (verify_audit_chain env0 None None auditor0 t) = Inr \<lparr>verified = True, range_start = None, range_end = None, chain_length = n\<rparr>"
proof -
  let ?s = "session_of log_db"
  let ?u = "snd (sso_callback env0 outside0 (str ''dev'') (str ''/'') None None ?s)"
  let ?t = "?u\<lparr>clock := clock ?u + 5\<rparr>"
  have step: "(app_step env0 outside0)\<^sup>*\<^sup>* ?s ?t"
    by (rule rtranclp.rtrancl_into_rtrancl [OF r_into_rtranclp [of "app_step env0 outside0", OF app_step.login]])
      (rule app_step.time_passes, simp)
  have inv: "store_inv env0 ?s" using sample_chain log_db_ok by (simp add: store_inv_def)
  have "cur ?s = com ?s" "audit_logs (com ?s) = [row0, row1]" by (simp_all add: session_of_def log_db_def)
  with application_safe [OF inv _ step, of auditor0] have now: "prefix [row0, row1] (audit_logs (com ?t))"
    "fst (verify_audit_chain env0 None None auditor0 ?t) = Inr \<lparr>verified = True, range_start = None, range_end = None,
       chain_length = length (audit_logs (com ?t))\<rparr>" by simp_all
  have "2 \<le> length (audit_logs (com ?t))" using prefix_length_le [OF now(1)] by simp
  with step now show ?thesis by blast
qed

end
