(* ===== verification/Schema.thy ===== *)
theory Schema
  imports BCMS_Prelude
begin

text \<open>
  \<^verbatim>\<open>alembic/versions/0001_baseline.py\<close> and \<^verbatim>\<open>0002_org_unit_excluded_cycles.py\<close>: the migrations as
  lists of statements, what PostgreSQL makes of such a statement (it refuses one that names what is
  not there, or is there already), and the tables and columns the ORM classes expect. The model of
  the services works on the tables as the ORM declares them (what \<open>metadata.create_all\<close> makes); here
  they are compared with what the migrations make. Comments and sizes of texts play no role.
\<close>

section \<open>Statements\<close>

datatype col_type = Uuid_type | Varchar nat | Char_n nat | Text_type | Boolean | Integer | Bigint | Numeric nat nat
  | Bytea | Timestamptz | Date_type | Jsonb | Inet | Enum_type string "string list"

datatype col_default = No_default | Now | Gen_random_uuid | Literal string

datatype on_delete = No_action | Cascade | Restrict

record column =
  col_name :: string
  col_type :: col_type
  col_nullable :: bool
  col_primary :: bool
  col_unique :: bool
  col_autoincrement :: bool
  server_default :: col_default
  foreign_key :: "(string \<times> string \<times> on_delete) option"

text \<open>\<open>sa.Column(...)\<close>: \<open>nullable\<close> is given for every column but the primary key.\<close>

definition col :: "bool \<Rightarrow> string \<Rightarrow> col_type \<Rightarrow> column" where
  "col null n ty = \<lparr>col_name = n, col_type = ty, col_nullable = null, col_primary = False, col_unique = False,
     col_autoincrement = False, server_default = No_default, foreign_key = None\<rparr>"

definition req :: "string \<Rightarrow> col_type \<Rightarrow> column" where "req = col False"
definition opt :: "string \<Rightarrow> col_type \<Rightarrow> column" where "opt = col True"
definition uniq :: "column \<Rightarrow> column" where "uniq c = c\<lparr>col_unique := True\<rparr>"
definition autoinc :: "column \<Rightarrow> column" where "autoinc c = c\<lparr>col_autoincrement := True\<rparr>"
definition dflt :: "col_default \<Rightarrow> column \<Rightarrow> column" where "dflt d c = c\<lparr>server_default := d\<rparr>"
definition refs :: "string \<Rightarrow> on_delete \<Rightarrow> column \<Rightarrow> column" where "refs t a c = c\<lparr>foreign_key := Some (t, ''id'', a)\<rparr>"

definition pk_column :: column where
  "pk_column = (dflt Gen_random_uuid (req ''id'' Uuid_type))\<lparr>col_primary := True\<rparr>"

datatype check_expr = At_least string nat | Above string nat | At_most string nat | Not_both string string

datatype table_constraint = Unique_constraint string "string list" | Check_constraint string check_expr

datatype row_filter = All_rows | Where_true string | Where_null string | Where_in string "string list"

datatype ddl = Create_extension string | Create_function string | Create_enum string "string list"
  | Create_table string "column list" "table_constraint list"
  | Create_index string string "string list" bool row_filter
  | Create_trigger string string string | Revoke_writes string | Add_column string column
  | Drop_trigger string string | Drop_table string | Drop_enum string | Drop_index string | Drop_function string
  | Drop_column string string

section \<open>The database catalog\<close>

record catalog =
  cat_extensions :: "string list"
  cat_functions :: "string list"
  cat_enums :: "(string \<times> string list) list"
  cat_tables :: "(string \<times> column list) list"
  cat_constraints :: "(string \<times> table_constraint) list"
  cat_indexes :: "(string \<times> string) list"
  cat_triggers :: "(string \<times> string \<times> string) list"

definition empty_catalog :: catalog where
  "empty_catalog = \<lparr>cat_extensions = [], cat_functions = [], cat_enums = [], cat_tables = [], cat_constraints = [], cat_indexes = [], cat_triggers = []\<rparr>"

definition column_names :: "column list \<Rightarrow> string list" where
  "column_names cs = map col_name cs"

definition has_columns :: "catalog \<Rightarrow> string \<Rightarrow> string list \<Rightarrow> bool" where
  "has_columns C t ns = (case map_of (cat_tables C) t of None \<Rightarrow> False | Some cs \<Rightarrow> list_all (\<lambda>n. List.member (column_names cs) n) ns)"

text \<open>The columns a table's foreign keys name, and the enumerations its columns have.\<close>

definition fk_targets :: "column list \<Rightarrow> (string \<times> string) list" where
  "fk_targets cs = List.map_filter (\<lambda>c. map_option (\<lambda>(t, k, a). (t, k)) (foreign_key c)) cs"

definition enum_uses :: "column list \<Rightarrow> (string \<times> string list) list" where
  "enum_uses cs = List.map_filter (\<lambda>c. case col_type c of Enum_type e vs \<Rightarrow> Some (e, vs) | _ \<Rightarrow> None) cs"

definition enums_known :: "catalog \<Rightarrow> column list \<Rightarrow> bool" where
  "enums_known C cs = list_all (\<lambda>(e, vs). map_of (cat_enums C) e = Some vs) (enum_uses cs)"

fun constraint_columns :: "table_constraint \<Rightarrow> string list" where
  "constraint_columns (Unique_constraint n cs) = cs"
| "constraint_columns (Check_constraint n (At_least c k)) = [c]"
| "constraint_columns (Check_constraint n (Above c k)) = [c]"
| "constraint_columns (Check_constraint n (At_most c k)) = [c]"
| "constraint_columns (Check_constraint n (Not_both c d)) = [c, d]"

fun filter_columns :: "row_filter \<Rightarrow> string list" where
  "filter_columns All_rows = []"
| "filter_columns (Where_true c) = [c]"
| "filter_columns (Where_null c) = [c]"
| "filter_columns (Where_in c vs) = [c]"

text \<open>A statement on a catalog; \<open>None\<close> is an error, which ends the migration.\<close>

fun exec_ddl :: "ddl \<Rightarrow> catalog \<Rightarrow> catalog option" where
  "exec_ddl (Create_extension n) C =
     Some (if List.member (cat_extensions C) n then C else C\<lparr>cat_extensions := n # cat_extensions C\<rparr>)"
| "exec_ddl (Create_function n) C =
     Some (if List.member (cat_functions C) n then C else C\<lparr>cat_functions := n # cat_functions C\<rparr>)"
| "exec_ddl (Create_enum n vs) C =
     Some (if map_of (cat_enums C) n \<noteq> None then C else C\<lparr>cat_enums := (n, vs) # cat_enums C\<rparr>)"
| "exec_ddl (Create_table n cs ks) C =
     (let C' = C\<lparr>cat_tables := (n, cs) # cat_tables C, cat_constraints := map (\<lambda>k. (n, k)) ks @ cat_constraints C\<rparr> in
      if map_of (cat_tables C) n = None \<and> distinct (column_names cs) \<and> enums_known C cs
         \<and> list_all (\<lambda>(t, k). has_columns C' t [k]) (fk_targets cs)
         \<and> list_all (\<lambda>k. list_all (List.member (column_names cs)) (constraint_columns k)) ks
      then Some C' else None)"
| "exec_ddl (Create_index i t cs u w) C =
     (if map_of (cat_indexes C) i = None \<and> has_columns C t (cs @ filter_columns w)
      then Some (C\<lparr>cat_indexes := (i, t) # cat_indexes C\<rparr>) else None)"
| "exec_ddl (Create_trigger g t f) C =
     (if map_of (cat_triggers C) g = None \<and> List.member (cat_functions C) f \<and> has_columns C t [''updated_at'']
      then Some (C\<lparr>cat_triggers := (g, t, f) # cat_triggers C\<rparr>) else None)"
| "exec_ddl (Revoke_writes t) C = (if map_of (cat_tables C) t = None then None else Some C)"
| "exec_ddl (Add_column t c) C =
     (case map_of (cat_tables C) t of None \<Rightarrow> None
      | Some cs \<Rightarrow> if List.member (column_names cs) (col_name c) \<or> \<not> enums_known C [c] \<or> foreign_key c \<noteq> None then None
                  else Some (C\<lparr>cat_tables := map (\<lambda>(n, ds). if n = t then (n, ds @ [c]) else (n, ds)) (cat_tables C)\<rparr>))"
| "exec_ddl (Drop_trigger g t) C = Some (C\<lparr>cat_triggers := filter (\<lambda>(h, u, f). \<not> (h = g \<and> u = t)) (cat_triggers C)\<rparr>)"
| "exec_ddl (Drop_table t) C =
     (if map_of (cat_tables C) t = None \<or> list_ex (\<lambda>(n, cs). n \<noteq> t \<and> list_ex (\<lambda>(u, k). u = t) (fk_targets cs)) (cat_tables C) then None
      else Some (C\<lparr>cat_tables := filter (\<lambda>(n, cs). n \<noteq> t) (cat_tables C), cat_constraints := filter (\<lambda>(n, k). n \<noteq> t) (cat_constraints C),
                   cat_indexes := filter (\<lambda>(i, n). n \<noteq> t) (cat_indexes C), cat_triggers := filter (\<lambda>(g, n, f). n \<noteq> t) (cat_triggers C)\<rparr>))"
| "exec_ddl (Drop_enum e) C =
     (if list_ex (\<lambda>(n, cs). list_ex (\<lambda>(d, vs). d = e) (enum_uses cs)) (cat_tables C) then None
      else Some (C\<lparr>cat_enums := filter (\<lambda>(n, vs). n \<noteq> e) (cat_enums C)\<rparr>))"
| "exec_ddl (Drop_index i) C = Some (C\<lparr>cat_indexes := filter (\<lambda>(j, t). j \<noteq> i) (cat_indexes C)\<rparr>)"
| "exec_ddl (Drop_function f) C = Some (C\<lparr>cat_functions := filter (\<lambda>g. g \<noteq> f) (cat_functions C),
     cat_triggers := filter (\<lambda>(h, t, g). g \<noteq> f) (cat_triggers C)\<rparr>)"
| "exec_ddl (Drop_column t n) C =
     (case map_of (cat_tables C) t of None \<Rightarrow> None
      | Some cs \<Rightarrow> if \<not> List.member (column_names cs) n then None
                  else Some (C\<lparr>cat_tables := map (\<lambda>(m, ds). if m = t then (m, filter (\<lambda>c. col_name c \<noteq> n) ds) else (m, ds)) (cat_tables C)\<rparr>))"

fun run_ddl :: "ddl list \<Rightarrow> catalog \<Rightarrow> catalog option" where
  "run_ddl [] C = Some C"
| "run_ddl (d # ds) C = (case exec_ddl d C of None \<Rightarrow> None | Some C' \<Rightarrow> run_ddl ds C')"

section \<open>The baseline, table by table\<close>

definition cols_org_units :: "column list" where
  "cols_org_units = [pk_column,
     uniq (req ''code'' (Varchar 32)),
     req ''name'' (Varchar 200),
     req ''level_code'' (Enum_type ''org_level_code'' [''0000'', ''0500'', ''0800'', ''1000'', ''2000'', ''4000'', ''5000'', ''6000'']),
     refs ''org_units'' Restrict (opt ''parent_id'' Uuid_type),
     dflt (Literal ''false'') (req ''is_filing_unit'' Boolean),
     dflt (Literal ''false'') (req ''is_reviewer_only'' Boolean),
     dflt Now (req ''created_at'' Timestamptz),
     dflt Now (req ''updated_at'' Timestamptz)]"

definition ddl_org_units :: "ddl list" where
  "ddl_org_units = [Create_table ''org_units'' cols_org_units
       [Check_constraint ''org_units_filing_xor_reviewer'' (Not_both ''is_filing_unit'' ''is_reviewer_only'')],
     Create_index ''idx_org_units_parent'' ''org_units'' [''parent_id''] False All_rows,
     Create_index ''idx_org_units_filing'' ''org_units'' [''is_filing_unit''] False (Where_true ''is_filing_unit'')]"

definition cols_users :: "column list" where
  "cols_users = [pk_column,
     req ''sso_id_enc'' Bytea,
     uniq (req ''sso_id_hash'' Bytea),
     req ''name'' (Varchar 200),
     req ''email_enc'' Bytea,
     uniq (req ''email_hash'' Bytea),
     dflt (Literal ''[]'') (req ''roles'' Jsonb),
     refs ''org_units'' Restrict (opt ''org_unit_id'' Uuid_type),
     dflt (Literal ''true'') (req ''is_active'' Boolean),
     dflt Now (req ''created_at'' Timestamptz),
     dflt Now (req ''updated_at'' Timestamptz)]"

definition ddl_users :: "ddl list" where
  "ddl_users = [Create_table ''users'' cols_users
       [],
     Create_index ''idx_users_org_unit'' ''users'' [''org_unit_id''] False All_rows,
     Create_index ''idx_users_roles_gin'' ''users'' [''roles''] False (All_rows)]"

definition cols_sessions :: "column list" where
  "cols_sessions = [pk_column,
     refs ''users'' Cascade (req ''user_id'' Uuid_type),
     uniq (req ''refresh_token_hash'' Bytea),
     req ''csrf_token'' (Varchar 64),
     opt ''ip_address'' Inet,
     opt ''user_agent'' Text_type,
     dflt Now (req ''last_activity_at'' Timestamptz),
     req ''absolute_expires_at'' Timestamptz,
     opt ''revoked_at'' Timestamptz,
     dflt Now (req ''created_at'' Timestamptz)]"

definition ddl_sessions :: "ddl list" where
  "ddl_sessions = [Create_table ''sessions'' cols_sessions
       [],
     Create_index ''idx_sessions_user'' ''sessions'' [''user_id''] False All_rows,
     Create_index ''idx_sessions_active'' ''sessions'' [''absolute_expires_at''] False (Where_null ''revoked_at'')]"

definition cols_account_codes :: "column list" where
  "cols_account_codes = [pk_column,
     uniq (req ''code'' (Varchar 32)),
     req ''name'' (Varchar 200),
     req ''category'' (Enum_type ''account_category'' [''operational'', ''personnel'', ''shared_cost'']),
     req ''level'' Integer,
     dflt (Literal ''true'') (req ''is_active'' Boolean),
     dflt Now (req ''created_at'' Timestamptz),
     dflt Now (req ''updated_at'' Timestamptz)]"

definition ddl_account_codes :: "ddl list" where
  "ddl_account_codes = [Create_table ''account_codes'' cols_account_codes
       [Check_constraint ''account_codes_level_positive'' (At_least ''level'' 1)],
     Create_index ''idx_account_codes_category'' ''account_codes'' [''category''] False (Where_true ''is_active'')]"

definition cols_budget_cycles :: "column list" where
  "cols_budget_cycles = [pk_column,
     req ''fiscal_year'' Integer,
     req ''deadline'' Date_type,
     dflt (Literal ''TWD'') (req ''reporting_currency'' (Char_n 3)),
     dflt (Literal ''draft'') (req ''status'' (Enum_type ''cycle_status'' [''draft'', ''open'', ''closed''])),
     opt ''opened_at'' Timestamptz,
     opt ''closed_at'' Timestamptz,
     refs ''users'' No_action (opt ''closed_by'' Uuid_type),
     opt ''reopen_reason'' Text_type,
     opt ''reopened_at'' Timestamptz,
     refs ''users'' No_action (req ''created_by'' Uuid_type),
     dflt Now (req ''created_at'' Timestamptz),
     dflt Now (req ''updated_at'' Timestamptz)]"

definition ddl_budget_cycles :: "ddl list" where
  "ddl_budget_cycles = [Create_table ''budget_cycles'' cols_budget_cycles
       [],
     Create_index ''uq_budget_cycles_active_year'' ''budget_cycles'' [''fiscal_year''] True (Where_in ''status'' [''draft'', ''open'']),
     Create_index ''idx_budget_cycles_status'' ''budget_cycles'' [''status''] False All_rows]"

definition cols_cycle_reminder_schedules :: "column list" where
  "cols_cycle_reminder_schedules = [pk_column,
     refs ''budget_cycles'' Cascade (req ''cycle_id'' Uuid_type),
     req ''days_before'' Integer,
     opt ''last_run_at'' Timestamptz,
     dflt Now (req ''created_at'' Timestamptz)]"

definition ddl_cycle_reminder_schedules :: "ddl list" where
  "ddl_cycle_reminder_schedules = [Create_table ''cycle_reminder_schedules'' cols_cycle_reminder_schedules
       [Unique_constraint ''uq_cycle_reminder_days'' [''cycle_id'', ''days_before''],
        Check_constraint ''cycle_reminder_days_positive'' (Above ''days_before'' 0)],
     Create_index ''idx_reminder_schedules_cycle'' ''cycle_reminder_schedules'' [''cycle_id''] False All_rows]"

definition cols_actual_expenses :: "column list" where
  "cols_actual_expenses = [pk_column,
     refs ''budget_cycles'' Restrict (req ''cycle_id'' Uuid_type),
     refs ''org_units'' Restrict (req ''org_unit_id'' Uuid_type),
     refs ''account_codes'' Restrict (req ''account_code_id'' Uuid_type),
     req ''amount'' (Numeric 18 2),
     dflt Now (req ''imported_at'' Timestamptz),
     refs ''users'' No_action (req ''imported_by'' Uuid_type),
     dflt Now (req ''created_at'' Timestamptz),
     dflt Now (req ''updated_at'' Timestamptz)]"

definition ddl_actual_expenses :: "ddl list" where
  "ddl_actual_expenses = [Create_table ''actual_expenses'' cols_actual_expenses
       [Unique_constraint ''uq_actual_expenses_cycle_org_account'' [''cycle_id'', ''org_unit_id'', ''account_code_id'']],
     Create_index ''idx_actuals_cycle_org'' ''actual_expenses'' [''cycle_id'', ''org_unit_id''] False All_rows]"

definition cols_excel_templates :: "column list" where
  "cols_excel_templates = [pk_column,
     refs ''budget_cycles'' Cascade (req ''cycle_id'' Uuid_type),
     refs ''org_units'' Restrict (req ''org_unit_id'' Uuid_type),
     req ''file_path_enc'' Bytea,
     req ''file_hash'' Bytea,
     dflt Now (req ''generated_at'' Timestamptz),
     refs ''users'' No_action (req ''generated_by'' Uuid_type),
     dflt (Literal ''0'') (req ''download_count'' Integer),
     opt ''generation_error'' Text_type]"

definition ddl_excel_templates :: "ddl list" where
  "ddl_excel_templates = [Create_table ''excel_templates'' cols_excel_templates
       [Unique_constraint ''uq_templates_cycle_org'' [''cycle_id'', ''org_unit_id'']],
     Create_index ''idx_templates_cycle'' ''excel_templates'' [''cycle_id''] False All_rows]"

definition cols_budget_uploads :: "column list" where
  "cols_budget_uploads = [pk_column,
     refs ''budget_cycles'' Restrict (req ''cycle_id'' Uuid_type),
     refs ''org_units'' Restrict (req ''org_unit_id'' Uuid_type),
     refs ''users'' No_action (req ''uploader_id'' Uuid_type),
     req ''version'' Integer,
     req ''file_path_enc'' Bytea,
     req ''file_hash'' Bytea,
     req ''file_size_bytes'' Bigint,
     req ''row_count'' Integer,
     dflt (Literal ''valid'') (req ''status'' (Enum_type ''upload_status'' [''pending'', ''valid'', ''invalid''])),
     dflt Now (req ''uploaded_at'' Timestamptz)]"

definition ddl_budget_uploads :: "ddl list" where
  "ddl_budget_uploads = [Create_table ''budget_uploads'' cols_budget_uploads
       [Unique_constraint ''uq_budget_uploads_cycle_org_version'' [''cycle_id'', ''org_unit_id'', ''version''],
        Check_constraint ''budget_uploads_size_limit'' (At_most ''file_size_bytes'' 10485760),
        Check_constraint ''budget_uploads_row_limit'' (At_most ''row_count'' 5000)],
     Create_index ''idx_budget_uploads_cycle_unit'' ''budget_uploads'' [''cycle_id'', ''org_unit_id'', ''version''] False (All_rows),
     Create_index ''idx_budget_uploads_latest'' ''budget_uploads'' [''cycle_id'', ''org_unit_id'', ''uploaded_at''] False (All_rows)]"

definition cols_budget_lines :: "column list" where
  "cols_budget_lines = [pk_column,
     refs ''budget_uploads'' Cascade (req ''upload_id'' Uuid_type),
     refs ''account_codes'' Restrict (req ''account_code_id'' Uuid_type),
     req ''amount'' (Numeric 18 2)]"

definition ddl_budget_lines :: "ddl list" where
  "ddl_budget_lines = [Create_table ''budget_lines'' cols_budget_lines
       [Unique_constraint ''uq_budget_lines_upload_account'' [''upload_id'', ''account_code_id''],
        Check_constraint ''budget_lines_amount_nonneg'' (At_least ''amount'' 0)],
     Create_index ''idx_budget_lines_upload'' ''budget_lines'' [''upload_id''] False All_rows,
     Create_index ''idx_budget_lines_account'' ''budget_lines'' [''account_code_id''] False All_rows]"

definition cols_personnel_budget_uploads :: "column list" where
  "cols_personnel_budget_uploads = [pk_column,
     refs ''budget_cycles'' Restrict (req ''cycle_id'' Uuid_type),
     refs ''users'' No_action (req ''uploader_id'' Uuid_type),
     req ''version'' Integer,
     req ''file_path_enc'' Bytea,
     req ''file_hash'' Bytea,
     dflt (Literal ''valid'') (req ''status'' (Enum_type ''upload_status'' [''pending'', ''valid'', ''invalid''])),
     opt ''affected_org_units_summary'' Jsonb,
     dflt Now (req ''uploaded_at'' Timestamptz)]"

definition ddl_personnel_budget_uploads :: "ddl list" where
  "ddl_personnel_budget_uploads = [Create_table ''personnel_budget_uploads'' cols_personnel_budget_uploads
       [Unique_constraint ''uq_personnel_uploads_cycle_version'' [''cycle_id'', ''version'']],
     Create_index ''idx_personnel_uploads_cycle'' ''personnel_budget_uploads'' [''cycle_id'', ''version''] False (All_rows)]"

definition cols_personnel_budget_lines :: "column list" where
  "cols_personnel_budget_lines = [pk_column,
     refs ''personnel_budget_uploads'' Cascade (req ''upload_id'' Uuid_type),
     refs ''org_units'' Restrict (req ''org_unit_id'' Uuid_type),
     refs ''account_codes'' Restrict (req ''account_code_id'' Uuid_type),
     req ''amount'' (Numeric 18 2)]"

definition ddl_personnel_budget_lines :: "ddl list" where
  "ddl_personnel_budget_lines = [Create_table ''personnel_budget_lines'' cols_personnel_budget_lines
       [Unique_constraint ''uq_personnel_lines_upload_org_account'' [''upload_id'', ''org_unit_id'', ''account_code_id''],
        Check_constraint ''personnel_lines_amount_positive'' (Above ''amount'' 0)],
     Create_index ''idx_personnel_lines_upload'' ''personnel_budget_lines'' [''upload_id''] False All_rows,
     Create_index ''idx_personnel_lines_org'' ''personnel_budget_lines'' [''org_unit_id''] False All_rows]"

definition cols_shared_cost_uploads :: "column list" where
  "cols_shared_cost_uploads = [pk_column,
     refs ''budget_cycles'' Restrict (req ''cycle_id'' Uuid_type),
     refs ''users'' No_action (req ''uploader_id'' Uuid_type),
     req ''version'' Integer,
     req ''file_path_enc'' Bytea,
     req ''file_hash'' Bytea,
     dflt (Literal ''valid'') (req ''status'' (Enum_type ''upload_status'' [''pending'', ''valid'', ''invalid''])),
     opt ''affected_org_units_summary'' Jsonb,
     dflt Now (req ''uploaded_at'' Timestamptz)]"

definition ddl_shared_cost_uploads :: "ddl list" where
  "ddl_shared_cost_uploads = [Create_table ''shared_cost_uploads'' cols_shared_cost_uploads
       [Unique_constraint ''uq_shared_uploads_cycle_version'' [''cycle_id'', ''version'']],
     Create_index ''idx_shared_uploads_cycle'' ''shared_cost_uploads'' [''cycle_id'', ''version''] False (All_rows)]"

definition cols_shared_cost_lines :: "column list" where
  "cols_shared_cost_lines = [pk_column,
     refs ''shared_cost_uploads'' Cascade (req ''upload_id'' Uuid_type),
     refs ''org_units'' Restrict (req ''org_unit_id'' Uuid_type),
     refs ''account_codes'' Restrict (req ''account_code_id'' Uuid_type),
     req ''amount'' (Numeric 18 2)]"

definition ddl_shared_cost_lines :: "ddl list" where
  "ddl_shared_cost_lines = [Create_table ''shared_cost_lines'' cols_shared_cost_lines
       [Unique_constraint ''uq_shared_lines_upload_org_account'' [''upload_id'', ''org_unit_id'', ''account_code_id''],
        Check_constraint ''shared_lines_amount_positive'' (Above ''amount'' 0)],
     Create_index ''idx_shared_lines_upload'' ''shared_cost_lines'' [''upload_id''] False All_rows,
     Create_index ''idx_shared_lines_org'' ''shared_cost_lines'' [''org_unit_id''] False All_rows]"

definition cols_resubmit_requests :: "column list" where
  "cols_resubmit_requests = [pk_column,
     refs ''budget_cycles'' Restrict (req ''cycle_id'' Uuid_type),
     refs ''org_units'' Restrict (req ''org_unit_id'' Uuid_type),
     refs ''users'' No_action (req ''requester_id'' Uuid_type),
     opt ''target_version'' Integer,
     req ''reason'' Text_type,
     dflt Now (req ''requested_at'' Timestamptz)]"

definition ddl_resubmit_requests :: "ddl list" where
  "ddl_resubmit_requests = [Create_table ''resubmit_requests'' cols_resubmit_requests
       [],
     Create_index ''idx_resubmit_cycle_org'' ''resubmit_requests'' [''cycle_id'', ''org_unit_id'', ''requested_at''] False (All_rows)]"

definition cols_notifications :: "column list" where
  "cols_notifications = [pk_column,
     refs ''users'' No_action (req ''recipient_id'' Uuid_type),
     req ''type'' (Enum_type ''notification_type'' [''cycle_opened'', ''upload_confirmed'', ''resubmit_requested'', ''deadline_reminder'', ''personnel_imported'', ''shared_cost_imported'']),
     dflt (Literal ''email'') (req ''channel'' (Enum_type ''notification_channel'' [''email''])),
     dflt (Literal ''queued'') (req ''status'' (Enum_type ''notification_status'' [''queued'', ''sent'', ''failed'', ''bounced''])),
     opt ''related_resource_type'' (Varchar 64),
     opt ''related_resource_id'' Uuid_type,
     opt ''link_url'' Text_type,
     opt ''subject'' (Varchar 500),
     opt ''body_excerpt'' Text_type,
     opt ''bounce_reason'' Text_type,
     dflt Now (req ''created_at'' Timestamptz),
     opt ''sent_at'' Timestamptz]"

definition ddl_notifications :: "ddl list" where
  "ddl_notifications = [Create_table ''notifications'' cols_notifications
       [],
     Create_index ''idx_notifications_recipient'' ''notifications'' [''recipient_id'', ''created_at''] False (All_rows),
     Create_index ''idx_notifications_status'' ''notifications'' [''status''] False (Where_in ''status'' [''queued'', ''failed'', ''bounced''])]"

definition cols_audit_logs :: "column list" where
  "cols_audit_logs = [pk_column,
     autoinc (uniq (req ''sequence_no'' Bigint)),
     refs ''users'' No_action (opt ''user_id'' Uuid_type),
     req ''action'' (Varchar 64),
     req ''resource_type'' (Varchar 64),
     opt ''resource_id'' Uuid_type,
     opt ''ip_address'' Inet,
     dflt (Literal ''{}'') (req ''details'' Jsonb),
     req ''prev_hash'' Bytea,
     req ''hash_chain_value'' Bytea,
     dflt Now (req ''occurred_at'' Timestamptz)]"

definition ddl_audit_logs :: "ddl list" where
  "ddl_audit_logs = [Create_table ''audit_logs'' cols_audit_logs
       [],
     Create_index ''idx_audit_user'' ''audit_logs'' [''user_id'', ''occurred_at''] False All_rows,
     Create_index ''idx_audit_action'' ''audit_logs'' [''action'', ''occurred_at''] False All_rows,
     Create_index ''idx_audit_resource'' ''audit_logs'' [''resource_type'', ''resource_id''] False All_rows,
     Create_index ''idx_audit_occurred'' ''audit_logs'' [''occurred_at''] False All_rows,
     Revoke_writes ''audit_logs'']"

definition cols_job_runs :: "column list" where
  "cols_job_runs = [pk_column,
     req ''job_type'' (Varchar 64),
     dflt (Literal ''queued'') (req ''status'' (Enum_type ''job_status'' [''queued'', ''running'', ''succeeded'', ''failed''])),
     req ''payload'' Jsonb,
     opt ''result'' Jsonb,
     opt ''result_file_path_enc'' Bytea,
     opt ''error_message'' Text_type,
     refs ''users'' No_action (opt ''enqueued_by'' Uuid_type),
     dflt Now (req ''enqueued_at'' Timestamptz),
     opt ''started_at'' Timestamptz,
     opt ''finished_at'' Timestamptz,
     dflt (Literal ''0'') (req ''attempts'' Integer),
     opt ''worker_id'' (Varchar 128)]"

definition ddl_job_runs :: "ddl list" where
  "ddl_job_runs = [Create_table ''job_runs'' cols_job_runs
       [],
     Create_index ''idx_job_runs_queue'' ''job_runs'' [''status'', ''enqueued_at''] False (Where_in ''status'' [''queued'']),
     Create_index ''idx_job_runs_user'' ''job_runs'' [''enqueued_by'', ''enqueued_at''] False All_rows]"

section \<open>The migrations\<close>

definition ENUMS :: "(string \<times> string list) list" where
  "ENUMS = [
     (''cycle_status'', [''draft'', ''open'', ''closed'']),
     (''upload_status'', [''pending'', ''valid'', ''invalid'']),
     (''notification_type'', [''cycle_opened'', ''upload_confirmed'', ''resubmit_requested'', ''deadline_reminder'', ''personnel_imported'', ''shared_cost_imported'']),
     (''notification_status'', [''queued'', ''sent'', ''failed'', ''bounced'']),
     (''notification_channel'', [''email'']),
     (''account_category'', [''operational'', ''personnel'', ''shared_cost'']),
     (''org_level_code'', [''0000'', ''0500'', ''0800'', ''1000'', ''2000'', ''4000'', ''5000'', ''6000'']),
     (''job_status'', [''queued'', ''running'', ''succeeded'', ''failed''])]"

definition create_enums :: "ddl list" where
  "create_enums = map (\<lambda>(n, vs). Create_enum n vs) ENUMS"

definition drop_enums :: "ddl list" where
  "drop_enums = map (\<lambda>(n, vs). Drop_enum n) (rev ENUMS)"

definition attach_updated_at_triggers :: "string list \<Rightarrow> ddl list" where
  "attach_updated_at_triggers ts = map (\<lambda>t. Create_trigger (''trg_'' @ t @ ''_updated'') t ''set_updated_at'') ts"

definition drop_updated_at_triggers :: "string list \<Rightarrow> ddl list" where
  "drop_updated_at_triggers ts = map (\<lambda>t. Drop_trigger (''trg_'' @ t @ ''_updated'') t) ts"

definition master_tables :: "ddl list" where
  "master_tables = ddl_org_units @ ddl_users @ ddl_sessions @ ddl_account_codes
     @ ddl_budget_cycles @ ddl_cycle_reminder_schedules @ ddl_actual_expenses @ ddl_excel_templates @ ddl_budget_uploads"

definition upload_tables :: "ddl list" where
  "upload_tables = ddl_budget_lines @ ddl_personnel_budget_uploads
     @ ddl_personnel_budget_lines @ ddl_shared_cost_uploads
     @ ddl_shared_cost_lines @ ddl_resubmit_requests @ ddl_notifications @ ddl_audit_logs @ ddl_job_runs"

definition upgrade_tables :: "ddl list" where
  "upgrade_tables = master_tables @ upload_tables"

definition upgrade_0001 :: "ddl list" where
  "upgrade_0001 = [Create_extension ''pgcrypto'', Create_function ''set_updated_at''] @ create_enums @ upgrade_tables
     @ attach_updated_at_triggers [''org_units'', ''users'', ''account_codes'', ''budget_cycles'', ''actual_expenses'']"

definition downgrade_0001 :: "ddl list" where
  "downgrade_0001 = drop_updated_at_triggers [''actual_expenses'', ''budget_cycles'', ''account_codes'', ''users'', ''org_units'']
     @ [Drop_table ''job_runs'', Drop_table ''audit_logs'', Drop_table ''notifications'',
        Drop_table ''resubmit_requests'', Drop_table ''shared_cost_lines'',
        Drop_table ''shared_cost_uploads'', Drop_table ''personnel_budget_lines'',
        Drop_table ''personnel_budget_uploads'', Drop_table ''budget_lines'',
        Drop_table ''budget_uploads'', Drop_table ''excel_templates'', Drop_table ''actual_expenses'',
        Drop_table ''cycle_reminder_schedules'', Drop_index ''uq_budget_cycles_active_year'',
        Drop_table ''budget_cycles'', Drop_table ''account_codes'', Drop_table ''sessions'',
        Drop_table ''users'', Drop_table ''org_units'']
     @ drop_enums @ [Drop_function ''set_updated_at'']"

definition upgrade_0002 :: "ddl list" where
  "upgrade_0002 = [Add_column ''org_units'' (dflt (Literal ''[]'') (req ''excluded_for_cycle_ids'' Jsonb))]"

definition downgrade_0002 :: "ddl list" where
  "downgrade_0002 = [Drop_column ''org_units'' ''excluded_for_cycle_ids'']"

section \<open>What the ORM classes expect\<close>

record orm_class =
  orm_table :: string
  orm_columns :: "string list"
  orm_server_side :: "string list"

definition orm_OrgUnit :: orm_class where
  "orm_OrgUnit = \<lparr>orm_table = ''org_units'',
     orm_columns = [''id'', ''code'', ''name'', ''level_code'', ''parent_id'', ''is_filing_unit'',
      ''is_reviewer_only'', ''excluded_for_cycle_ids'', ''created_at'', ''updated_at''],
     orm_server_side = []\<rparr>"

definition orm_User :: orm_class where
  "orm_User = \<lparr>orm_table = ''users'',
     orm_columns = [''id'', ''sso_id_enc'', ''sso_id_hash'', ''name'', ''email_enc'', ''email_hash'',
      ''roles'', ''org_unit_id'', ''is_active'', ''created_at'', ''updated_at''],
     orm_server_side = []\<rparr>"

definition orm_Session :: orm_class where
  "orm_Session = \<lparr>orm_table = ''sessions'',
     orm_columns = [''id'', ''user_id'', ''refresh_token_hash'', ''csrf_token'', ''ip_address'',
      ''user_agent'', ''last_activity_at'', ''absolute_expires_at'', ''revoked_at'',
      ''created_at''],
     orm_server_side = []\<rparr>"

definition orm_AccountCode :: orm_class where
  "orm_AccountCode = \<lparr>orm_table = ''account_codes'',
     orm_columns = [''id'', ''code'', ''name'', ''category'', ''level'', ''is_active'', ''created_at'',
      ''updated_at''],
     orm_server_side = []\<rparr>"

definition orm_ActualExpense :: orm_class where
  "orm_ActualExpense = \<lparr>orm_table = ''actual_expenses'',
     orm_columns = [''id'', ''cycle_id'', ''org_unit_id'', ''account_code_id'', ''amount'', ''imported_at'',
      ''imported_by'', ''created_at'', ''updated_at''],
     orm_server_side = []\<rparr>"

definition orm_AuditLog :: orm_class where
  "orm_AuditLog = \<lparr>orm_table = ''audit_logs'',
     orm_columns = [''id'', ''sequence_no'', ''user_id'', ''action'', ''resource_type'', ''resource_id'',
      ''ip_address'', ''details'', ''prev_hash'', ''hash_chain_value'', ''occurred_at''],
     orm_server_side = [''sequence_no'']\<rparr>"

definition orm_BudgetUpload :: orm_class where
  "orm_BudgetUpload = \<lparr>orm_table = ''budget_uploads'',
     orm_columns = [''id'', ''cycle_id'', ''org_unit_id'', ''uploader_id'', ''version'', ''file_path_enc'',
      ''file_hash'', ''file_size_bytes'', ''row_count'', ''status'', ''uploaded_at''],
     orm_server_side = []\<rparr>"

definition orm_BudgetLine :: orm_class where
  "orm_BudgetLine = \<lparr>orm_table = ''budget_lines'',
     orm_columns = [''id'', ''upload_id'', ''account_code_id'', ''amount''],
     orm_server_side = []\<rparr>"

definition orm_BudgetCycle :: orm_class where
  "orm_BudgetCycle = \<lparr>orm_table = ''budget_cycles'',
     orm_columns = [''id'', ''fiscal_year'', ''deadline'', ''reporting_currency'', ''status'', ''opened_at'',
      ''closed_at'', ''closed_by'', ''reopen_reason'', ''reopened_at'', ''created_by'',
      ''created_at'', ''updated_at''],
     orm_server_side = []\<rparr>"

definition orm_CycleReminderSchedule :: orm_class where
  "orm_CycleReminderSchedule = \<lparr>orm_table = ''cycle_reminder_schedules'',
     orm_columns = [''id'', ''cycle_id'', ''days_before'', ''last_run_at'', ''created_at''],
     orm_server_side = []\<rparr>"

definition orm_Notification :: orm_class where
  "orm_Notification = \<lparr>orm_table = ''notifications'',
     orm_columns = [''id'', ''recipient_id'', ''type'', ''channel'', ''status'', ''related_resource_type'',
      ''related_resource_id'', ''link_url'', ''subject'', ''body_excerpt'', ''bounce_reason'',
      ''created_at'', ''sent_at''],
     orm_server_side = []\<rparr>"

definition orm_ResubmitRequest :: orm_class where
  "orm_ResubmitRequest = \<lparr>orm_table = ''resubmit_requests'',
     orm_columns = [''id'', ''cycle_id'', ''org_unit_id'', ''requester_id'', ''target_version'', ''reason'',
      ''requested_at''],
     orm_server_side = []\<rparr>"

definition orm_PersonnelBudgetUpload :: orm_class where
  "orm_PersonnelBudgetUpload = \<lparr>orm_table = ''personnel_budget_uploads'',
     orm_columns = [''id'', ''cycle_id'', ''uploader_user_id'', ''uploaded_at'', ''filename'', ''file_hash'',
      ''version'', ''affected_org_units_summary''],
     orm_server_side = []\<rparr>"

definition orm_PersonnelBudgetLine :: orm_class where
  "orm_PersonnelBudgetLine = \<lparr>orm_table = ''personnel_budget_lines'',
     orm_columns = [''id'', ''upload_id'', ''org_unit_id'', ''account_code_id'', ''amount''],
     orm_server_side = []\<rparr>"

definition orm_SharedCostUpload :: orm_class where
  "orm_SharedCostUpload = \<lparr>orm_table = ''shared_cost_uploads'',
     orm_columns = [''id'', ''cycle_id'', ''uploader_user_id'', ''uploaded_at'', ''filename'', ''file_hash'',
      ''version'', ''affected_org_units_summary''],
     orm_server_side = []\<rparr>"

definition orm_SharedCostLine :: orm_class where
  "orm_SharedCostLine = \<lparr>orm_table = ''shared_cost_lines'',
     orm_columns = [''id'', ''upload_id'', ''org_unit_id'', ''account_code_id'', ''amount''],
     orm_server_side = []\<rparr>"

definition orm_ExcelTemplate :: orm_class where
  "orm_ExcelTemplate = \<lparr>orm_table = ''excel_templates'',
     orm_columns = [''id'', ''cycle_id'', ''org_unit_id'', ''file_path_enc'', ''file_hash'', ''generated_at'',
      ''generated_by'', ''download_count'', ''generation_error''],
     orm_server_side = []\<rparr>"

definition orm_classes :: "orm_class list" where
  "orm_classes = [orm_OrgUnit, orm_User, orm_Session, orm_AccountCode, orm_ActualExpense, orm_AuditLog, orm_BudgetUpload, orm_BudgetLine,
     orm_BudgetCycle, orm_CycleReminderSchedule, orm_Notification, orm_ResubmitRequest, orm_PersonnelBudgetUpload,
     orm_PersonnelBudgetLine, orm_SharedCostUpload, orm_SharedCostLine, orm_ExcelTemplate]"

section \<open>Facts of the tables\<close>

named_theorems schema_simps "what the statements name"

lemmas column_defs = col_def req_def opt_def uniq_def autoinc_def dflt_def refs_def pk_column_def column_names_def
  fk_targets_def enum_uses_def List.map_filter_def

lemma facts_org_units [schema_simps]:
  "column_names cols_org_units = [''id'', ''code'', ''name'', ''level_code'', ''parent_id'', ''is_filing_unit'',
      ''is_reviewer_only'', ''created_at'', ''updated_at'']"
  "fk_targets cols_org_units = [(''org_units'', ''id'')]"
  "enum_uses cols_org_units = [
      (''org_level_code'', [''0000'', ''0500'', ''0800'', ''1000'', ''2000'', ''4000'', ''5000'', ''6000''])]"
  by (simp_all add: cols_org_units_def column_defs)

lemma facts_users [schema_simps]:
  "column_names cols_users = [''id'', ''sso_id_enc'', ''sso_id_hash'', ''name'', ''email_enc'', ''email_hash'',
      ''roles'', ''org_unit_id'', ''is_active'', ''created_at'', ''updated_at'']"
  "fk_targets cols_users = [(''org_units'', ''id'')]"
  "enum_uses cols_users = []"
  by (simp_all add: cols_users_def column_defs)

lemma facts_sessions [schema_simps]:
  "column_names cols_sessions = [''id'', ''user_id'', ''refresh_token_hash'', ''csrf_token'', ''ip_address'',
      ''user_agent'', ''last_activity_at'', ''absolute_expires_at'', ''revoked_at'',
      ''created_at'']"
  "fk_targets cols_sessions = [(''users'', ''id'')]"
  "enum_uses cols_sessions = []"
  by (simp_all add: cols_sessions_def column_defs)

lemma facts_account_codes [schema_simps]:
  "column_names cols_account_codes = [''id'', ''code'', ''name'', ''category'', ''level'', ''is_active'', ''created_at'',
      ''updated_at'']"
  "fk_targets cols_account_codes = []"
  "enum_uses cols_account_codes = [(''account_category'', [''operational'', ''personnel'', ''shared_cost''])]"
  by (simp_all add: cols_account_codes_def column_defs)

lemma facts_budget_cycles [schema_simps]:
  "column_names cols_budget_cycles = [''id'', ''fiscal_year'', ''deadline'', ''reporting_currency'', ''status'',
      ''opened_at'', ''closed_at'', ''closed_by'', ''reopen_reason'', ''reopened_at'',
      ''created_by'', ''created_at'', ''updated_at'']"
  "fk_targets cols_budget_cycles = [(''users'', ''id''), (''users'', ''id'')]"
  "enum_uses cols_budget_cycles = [(''cycle_status'', [''draft'', ''open'', ''closed''])]"
  by (simp_all add: cols_budget_cycles_def column_defs)

lemma facts_cycle_reminder_schedules [schema_simps]:
  "column_names cols_cycle_reminder_schedules = [''id'', ''cycle_id'', ''days_before'', ''last_run_at'', ''created_at'']"
  "fk_targets cols_cycle_reminder_schedules = [(''budget_cycles'', ''id'')]"
  "enum_uses cols_cycle_reminder_schedules = []"
  by (simp_all add: cols_cycle_reminder_schedules_def column_defs)

lemma facts_actual_expenses [schema_simps]:
  "column_names cols_actual_expenses = [''id'', ''cycle_id'', ''org_unit_id'', ''account_code_id'', ''amount'',
      ''imported_at'', ''imported_by'', ''created_at'', ''updated_at'']"
  "fk_targets cols_actual_expenses = [(''budget_cycles'', ''id''), (''org_units'', ''id''), (''account_codes'', ''id''),
      (''users'', ''id'')]"
  "enum_uses cols_actual_expenses = []"
  by (simp_all add: cols_actual_expenses_def column_defs)

lemma facts_excel_templates [schema_simps]:
  "column_names cols_excel_templates = [''id'', ''cycle_id'', ''org_unit_id'', ''file_path_enc'', ''file_hash'',
      ''generated_at'', ''generated_by'', ''download_count'', ''generation_error'']"
  "fk_targets cols_excel_templates = [(''budget_cycles'', ''id''), (''org_units'', ''id''), (''users'', ''id'')]"
  "enum_uses cols_excel_templates = []"
  by (simp_all add: cols_excel_templates_def column_defs)

lemma facts_budget_uploads [schema_simps]:
  "column_names cols_budget_uploads = [''id'', ''cycle_id'', ''org_unit_id'', ''uploader_id'', ''version'',
      ''file_path_enc'', ''file_hash'', ''file_size_bytes'', ''row_count'', ''status'',
      ''uploaded_at'']"
  "fk_targets cols_budget_uploads = [(''budget_cycles'', ''id''), (''org_units'', ''id''), (''users'', ''id'')]"
  "enum_uses cols_budget_uploads = [(''upload_status'', [''pending'', ''valid'', ''invalid''])]"
  by (simp_all add: cols_budget_uploads_def column_defs)

lemma facts_budget_lines [schema_simps]:
  "column_names cols_budget_lines = [''id'', ''upload_id'', ''account_code_id'', ''amount'']"
  "fk_targets cols_budget_lines = [(''budget_uploads'', ''id''), (''account_codes'', ''id'')]"
  "enum_uses cols_budget_lines = []"
  by (simp_all add: cols_budget_lines_def column_defs)

lemma facts_personnel_budget_uploads [schema_simps]:
  "column_names cols_personnel_budget_uploads = [''id'', ''cycle_id'', ''uploader_id'', ''version'', ''file_path_enc'', ''file_hash'',
      ''status'', ''affected_org_units_summary'', ''uploaded_at'']"
  "fk_targets cols_personnel_budget_uploads = [(''budget_cycles'', ''id''), (''users'', ''id'')]"
  "enum_uses cols_personnel_budget_uploads = [(''upload_status'', [''pending'', ''valid'', ''invalid''])]"
  by (simp_all add: cols_personnel_budget_uploads_def column_defs)

lemma facts_personnel_budget_lines [schema_simps]:
  "column_names cols_personnel_budget_lines = [''id'', ''upload_id'', ''org_unit_id'', ''account_code_id'', ''amount'']"
  "fk_targets cols_personnel_budget_lines = [(''personnel_budget_uploads'', ''id''), (''org_units'', ''id''),
      (''account_codes'', ''id'')]"
  "enum_uses cols_personnel_budget_lines = []"
  by (simp_all add: cols_personnel_budget_lines_def column_defs)

lemma facts_shared_cost_uploads [schema_simps]:
  "column_names cols_shared_cost_uploads = [''id'', ''cycle_id'', ''uploader_id'', ''version'', ''file_path_enc'', ''file_hash'',
      ''status'', ''affected_org_units_summary'', ''uploaded_at'']"
  "fk_targets cols_shared_cost_uploads = [(''budget_cycles'', ''id''), (''users'', ''id'')]"
  "enum_uses cols_shared_cost_uploads = [(''upload_status'', [''pending'', ''valid'', ''invalid''])]"
  by (simp_all add: cols_shared_cost_uploads_def column_defs)

lemma facts_shared_cost_lines [schema_simps]:
  "column_names cols_shared_cost_lines = [''id'', ''upload_id'', ''org_unit_id'', ''account_code_id'', ''amount'']"
  "fk_targets cols_shared_cost_lines = [(''shared_cost_uploads'', ''id''), (''org_units'', ''id''),
      (''account_codes'', ''id'')]"
  "enum_uses cols_shared_cost_lines = []"
  by (simp_all add: cols_shared_cost_lines_def column_defs)

lemma facts_resubmit_requests [schema_simps]:
  "column_names cols_resubmit_requests = [''id'', ''cycle_id'', ''org_unit_id'', ''requester_id'', ''target_version'',
      ''reason'', ''requested_at'']"
  "fk_targets cols_resubmit_requests = [(''budget_cycles'', ''id''), (''org_units'', ''id''), (''users'', ''id'')]"
  "enum_uses cols_resubmit_requests = []"
  by (simp_all add: cols_resubmit_requests_def column_defs)

lemma facts_notifications [schema_simps]:
  "column_names cols_notifications = [''id'', ''recipient_id'', ''type'', ''channel'', ''status'',
      ''related_resource_type'', ''related_resource_id'', ''link_url'', ''subject'',
      ''body_excerpt'', ''bounce_reason'', ''created_at'', ''sent_at'']"
  "fk_targets cols_notifications = [(''users'', ''id'')]"
  "enum_uses cols_notifications = [
      (''notification_type'', [''cycle_opened'', ''upload_confirmed'', ''resubmit_requested'', ''deadline_reminder'', ''personnel_imported'', ''shared_cost_imported'']),
      (''notification_channel'', [''email'']),
      (''notification_status'', [''queued'', ''sent'', ''failed'', ''bounced''])]"
  by (simp_all add: cols_notifications_def column_defs)

lemma facts_audit_logs [schema_simps]:
  "column_names cols_audit_logs = [''id'', ''sequence_no'', ''user_id'', ''action'', ''resource_type'', ''resource_id'',
      ''ip_address'', ''details'', ''prev_hash'', ''hash_chain_value'', ''occurred_at'']"
  "fk_targets cols_audit_logs = [(''users'', ''id'')]"
  "enum_uses cols_audit_logs = []"
  by (simp_all add: cols_audit_logs_def column_defs)

lemma facts_job_runs [schema_simps]:
  "column_names cols_job_runs = [''id'', ''job_type'', ''status'', ''payload'', ''result'', ''result_file_path_enc'',
      ''error_message'', ''enqueued_by'', ''enqueued_at'', ''started_at'', ''finished_at'',
      ''attempts'', ''worker_id'']"
  "fk_targets cols_job_runs = [(''users'', ''id'')]"
  "enum_uses cols_job_runs = [(''job_status'', [''queued'', ''running'', ''succeeded'', ''failed''])]"
  by (simp_all add: cols_job_runs_def column_defs)

section \<open>What each group of statements does\<close>

definition grow :: "string \<Rightarrow> column list \<Rightarrow> table_constraint list \<Rightarrow> string list \<Rightarrow> catalog \<Rightarrow> catalog" where
  "grow t cs ks is C = C\<lparr>cat_tables := (t, cs) # cat_tables C, cat_constraints := map (\<lambda>k. (t, k)) ks @ cat_constraints C,
     cat_indexes := map (\<lambda>i. (i, t)) is @ cat_indexes C\<rparr>"

lemma grow_simps:
  "cat_tables (grow t cs ks is C) = (t, cs) # cat_tables C"
  "cat_enums (grow t cs ks is C) = cat_enums C"
  "cat_indexes (grow t cs ks is C) = map (\<lambda>i. (i, t)) is @ cat_indexes C"
  "cat_constraints (grow t cs ks is C) = map (\<lambda>k. (t, k)) ks @ cat_constraints C"
  "cat_functions (grow t cs ks is C) = cat_functions C" "cat_triggers (grow t cs ks is C) = cat_triggers C"
  "cat_extensions (grow t cs ks is C) = cat_extensions C"
  by (simp_all add: grow_def)

lemmas run_group_simps = has_columns_def enums_known_def

lemma run_org_units:
  assumes "map_of (cat_tables C) ''org_units'' = None"
    "map_of (cat_enums C) ''org_level_code'' = Some [''0000'', ''0500'', ''0800'', ''1000'', ''2000'', ''4000'', ''5000'', ''6000'']"
    "map_of (cat_indexes C) ''idx_org_units_parent'' = None"
    "map_of (cat_indexes C) ''idx_org_units_filing'' = None"
  shows "run_ddl ddl_org_units C = Some (grow ''org_units'' cols_org_units
       [Check_constraint ''org_units_filing_xor_reviewer'' (Not_both ''is_filing_unit'' ''is_reviewer_only'')]
       [''idx_org_units_filing'', ''idx_org_units_parent''] C)"
  using assms by (simp add: ddl_org_units_def schema_simps run_group_simps grow_def)

lemma run_users:
  assumes "map_of (cat_tables C) ''users'' = None"
    "has_columns C ''org_units'' [''id'']"
    "map_of (cat_indexes C) ''idx_users_org_unit'' = None"
    "map_of (cat_indexes C) ''idx_users_roles_gin'' = None"
  shows "run_ddl ddl_users C = Some (grow ''users'' cols_users
       []
       [''idx_users_roles_gin'', ''idx_users_org_unit''] C)"
  using assms by (simp add: ddl_users_def schema_simps run_group_simps grow_def)

lemma run_sessions:
  assumes "map_of (cat_tables C) ''sessions'' = None"
    "has_columns C ''users'' [''id'']"
    "map_of (cat_indexes C) ''idx_sessions_user'' = None"
    "map_of (cat_indexes C) ''idx_sessions_active'' = None"
  shows "run_ddl ddl_sessions C = Some (grow ''sessions'' cols_sessions
       []
       [''idx_sessions_active'', ''idx_sessions_user''] C)"
  using assms by (simp add: ddl_sessions_def schema_simps run_group_simps grow_def)

lemma run_account_codes:
  assumes "map_of (cat_tables C) ''account_codes'' = None"
    "map_of (cat_enums C) ''account_category'' = Some [''operational'', ''personnel'', ''shared_cost'']"
    "map_of (cat_indexes C) ''idx_account_codes_category'' = None"
  shows "run_ddl ddl_account_codes C = Some (grow ''account_codes'' cols_account_codes
       [Check_constraint ''account_codes_level_positive'' (At_least ''level'' 1)]
       [''idx_account_codes_category''] C)"
  using assms by (simp add: ddl_account_codes_def schema_simps run_group_simps grow_def)

lemma run_budget_cycles:
  assumes "map_of (cat_tables C) ''budget_cycles'' = None"
    "has_columns C ''users'' [''id'']"
    "map_of (cat_enums C) ''cycle_status'' = Some [''draft'', ''open'', ''closed'']"
    "map_of (cat_indexes C) ''uq_budget_cycles_active_year'' = None"
    "map_of (cat_indexes C) ''idx_budget_cycles_status'' = None"
  shows "run_ddl ddl_budget_cycles C = Some (grow ''budget_cycles'' cols_budget_cycles
       []
       [''idx_budget_cycles_status'', ''uq_budget_cycles_active_year''] C)"
  using assms by (simp add: ddl_budget_cycles_def schema_simps run_group_simps grow_def)

lemma run_cycle_reminder_schedules:
  assumes "map_of (cat_tables C) ''cycle_reminder_schedules'' = None"
    "has_columns C ''budget_cycles'' [''id'']"
    "map_of (cat_indexes C) ''idx_reminder_schedules_cycle'' = None"
  shows "run_ddl ddl_cycle_reminder_schedules C = Some (grow ''cycle_reminder_schedules'' cols_cycle_reminder_schedules
       [Unique_constraint ''uq_cycle_reminder_days'' [''cycle_id'', ''days_before''],
        Check_constraint ''cycle_reminder_days_positive'' (Above ''days_before'' 0)]
       [''idx_reminder_schedules_cycle''] C)"
  using assms by (simp add: ddl_cycle_reminder_schedules_def schema_simps run_group_simps grow_def)

lemma run_actual_expenses:
  assumes "map_of (cat_tables C) ''actual_expenses'' = None"
    "has_columns C ''budget_cycles'' [''id'']"
    "has_columns C ''org_units'' [''id'']"
    "has_columns C ''account_codes'' [''id'']"
    "has_columns C ''users'' [''id'']"
    "map_of (cat_indexes C) ''idx_actuals_cycle_org'' = None"
  shows "run_ddl ddl_actual_expenses C = Some (grow ''actual_expenses'' cols_actual_expenses
       [Unique_constraint ''uq_actual_expenses_cycle_org_account'' [''cycle_id'', ''org_unit_id'', ''account_code_id'']]
       [''idx_actuals_cycle_org''] C)"
  using assms by (simp add: ddl_actual_expenses_def schema_simps run_group_simps grow_def)

lemma run_excel_templates:
  assumes "map_of (cat_tables C) ''excel_templates'' = None"
    "has_columns C ''budget_cycles'' [''id'']"
    "has_columns C ''org_units'' [''id'']"
    "has_columns C ''users'' [''id'']"
    "map_of (cat_indexes C) ''idx_templates_cycle'' = None"
  shows "run_ddl ddl_excel_templates C = Some (grow ''excel_templates'' cols_excel_templates
       [Unique_constraint ''uq_templates_cycle_org'' [''cycle_id'', ''org_unit_id'']]
       [''idx_templates_cycle''] C)"
  using assms by (simp add: ddl_excel_templates_def schema_simps run_group_simps grow_def)

lemma run_budget_uploads:
  assumes "map_of (cat_tables C) ''budget_uploads'' = None"
    "has_columns C ''budget_cycles'' [''id'']"
    "has_columns C ''org_units'' [''id'']"
    "has_columns C ''users'' [''id'']"
    "map_of (cat_enums C) ''upload_status'' = Some [''pending'', ''valid'', ''invalid'']"
    "map_of (cat_indexes C) ''idx_budget_uploads_cycle_unit'' = None"
    "map_of (cat_indexes C) ''idx_budget_uploads_latest'' = None"
  shows "run_ddl ddl_budget_uploads C = Some (grow ''budget_uploads'' cols_budget_uploads
       [Unique_constraint ''uq_budget_uploads_cycle_org_version'' [''cycle_id'', ''org_unit_id'', ''version''],
        Check_constraint ''budget_uploads_size_limit'' (At_most ''file_size_bytes'' 10485760),
        Check_constraint ''budget_uploads_row_limit'' (At_most ''row_count'' 5000)]
       [''idx_budget_uploads_latest'', ''idx_budget_uploads_cycle_unit''] C)"
  using assms by (simp add: ddl_budget_uploads_def schema_simps run_group_simps grow_def)

lemma run_budget_lines:
  assumes "map_of (cat_tables C) ''budget_lines'' = None"
    "has_columns C ''budget_uploads'' [''id'']"
    "has_columns C ''account_codes'' [''id'']"
    "map_of (cat_indexes C) ''idx_budget_lines_upload'' = None"
    "map_of (cat_indexes C) ''idx_budget_lines_account'' = None"
  shows "run_ddl ddl_budget_lines C = Some (grow ''budget_lines'' cols_budget_lines
       [Unique_constraint ''uq_budget_lines_upload_account'' [''upload_id'', ''account_code_id''],
        Check_constraint ''budget_lines_amount_nonneg'' (At_least ''amount'' 0)]
       [''idx_budget_lines_account'', ''idx_budget_lines_upload''] C)"
  using assms by (simp add: ddl_budget_lines_def schema_simps run_group_simps grow_def)

lemma run_personnel_budget_uploads:
  assumes "map_of (cat_tables C) ''personnel_budget_uploads'' = None"
    "has_columns C ''budget_cycles'' [''id'']"
    "has_columns C ''users'' [''id'']"
    "map_of (cat_enums C) ''upload_status'' = Some [''pending'', ''valid'', ''invalid'']"
    "map_of (cat_indexes C) ''idx_personnel_uploads_cycle'' = None"
  shows "run_ddl ddl_personnel_budget_uploads C = Some (grow ''personnel_budget_uploads'' cols_personnel_budget_uploads
       [Unique_constraint ''uq_personnel_uploads_cycle_version'' [''cycle_id'', ''version'']]
       [''idx_personnel_uploads_cycle''] C)"
  using assms by (simp add: ddl_personnel_budget_uploads_def schema_simps run_group_simps grow_def)

lemma run_personnel_budget_lines:
  assumes "map_of (cat_tables C) ''personnel_budget_lines'' = None"
    "has_columns C ''personnel_budget_uploads'' [''id'']"
    "has_columns C ''org_units'' [''id'']"
    "has_columns C ''account_codes'' [''id'']"
    "map_of (cat_indexes C) ''idx_personnel_lines_upload'' = None"
    "map_of (cat_indexes C) ''idx_personnel_lines_org'' = None"
  shows "run_ddl ddl_personnel_budget_lines C = Some (grow ''personnel_budget_lines'' cols_personnel_budget_lines
       [Unique_constraint ''uq_personnel_lines_upload_org_account'' [''upload_id'', ''org_unit_id'', ''account_code_id''],
        Check_constraint ''personnel_lines_amount_positive'' (Above ''amount'' 0)]
       [''idx_personnel_lines_org'', ''idx_personnel_lines_upload''] C)"
  using assms by (simp add: ddl_personnel_budget_lines_def schema_simps run_group_simps grow_def)

lemma run_shared_cost_uploads:
  assumes "map_of (cat_tables C) ''shared_cost_uploads'' = None"
    "has_columns C ''budget_cycles'' [''id'']"
    "has_columns C ''users'' [''id'']"
    "map_of (cat_enums C) ''upload_status'' = Some [''pending'', ''valid'', ''invalid'']"
    "map_of (cat_indexes C) ''idx_shared_uploads_cycle'' = None"
  shows "run_ddl ddl_shared_cost_uploads C = Some (grow ''shared_cost_uploads'' cols_shared_cost_uploads
       [Unique_constraint ''uq_shared_uploads_cycle_version'' [''cycle_id'', ''version'']]
       [''idx_shared_uploads_cycle''] C)"
  using assms by (simp add: ddl_shared_cost_uploads_def schema_simps run_group_simps grow_def)

lemma run_shared_cost_lines:
  assumes "map_of (cat_tables C) ''shared_cost_lines'' = None"
    "has_columns C ''shared_cost_uploads'' [''id'']"
    "has_columns C ''org_units'' [''id'']"
    "has_columns C ''account_codes'' [''id'']"
    "map_of (cat_indexes C) ''idx_shared_lines_upload'' = None"
    "map_of (cat_indexes C) ''idx_shared_lines_org'' = None"
  shows "run_ddl ddl_shared_cost_lines C = Some (grow ''shared_cost_lines'' cols_shared_cost_lines
       [Unique_constraint ''uq_shared_lines_upload_org_account'' [''upload_id'', ''org_unit_id'', ''account_code_id''],
        Check_constraint ''shared_lines_amount_positive'' (Above ''amount'' 0)]
       [''idx_shared_lines_org'', ''idx_shared_lines_upload''] C)"
  using assms by (simp add: ddl_shared_cost_lines_def schema_simps run_group_simps grow_def)

lemma run_resubmit_requests:
  assumes "map_of (cat_tables C) ''resubmit_requests'' = None"
    "has_columns C ''budget_cycles'' [''id'']"
    "has_columns C ''org_units'' [''id'']"
    "has_columns C ''users'' [''id'']"
    "map_of (cat_indexes C) ''idx_resubmit_cycle_org'' = None"
  shows "run_ddl ddl_resubmit_requests C = Some (grow ''resubmit_requests'' cols_resubmit_requests
       []
       [''idx_resubmit_cycle_org''] C)"
  using assms by (simp add: ddl_resubmit_requests_def schema_simps run_group_simps grow_def)

lemma run_notifications:
  assumes "map_of (cat_tables C) ''notifications'' = None"
    "has_columns C ''users'' [''id'']"
    "map_of (cat_enums C) ''notification_type'' = Some [''cycle_opened'', ''upload_confirmed'', ''resubmit_requested'', ''deadline_reminder'', ''personnel_imported'', ''shared_cost_imported'']"
    "map_of (cat_enums C) ''notification_channel'' = Some [''email'']"
    "map_of (cat_enums C) ''notification_status'' = Some [''queued'', ''sent'', ''failed'', ''bounced'']"
    "map_of (cat_indexes C) ''idx_notifications_recipient'' = None"
    "map_of (cat_indexes C) ''idx_notifications_status'' = None"
  shows "run_ddl ddl_notifications C = Some (grow ''notifications'' cols_notifications
       []
       [''idx_notifications_status'', ''idx_notifications_recipient''] C)"
  using assms by (simp add: ddl_notifications_def schema_simps run_group_simps grow_def)

lemma run_audit_logs:
  assumes "map_of (cat_tables C) ''audit_logs'' = None"
    "has_columns C ''users'' [''id'']"
    "map_of (cat_indexes C) ''idx_audit_user'' = None"
    "map_of (cat_indexes C) ''idx_audit_action'' = None"
    "map_of (cat_indexes C) ''idx_audit_resource'' = None"
    "map_of (cat_indexes C) ''idx_audit_occurred'' = None"
  shows "run_ddl ddl_audit_logs C = Some (grow ''audit_logs'' cols_audit_logs
       []
       [''idx_audit_occurred'', ''idx_audit_resource'', ''idx_audit_action'', ''idx_audit_user''] C)"
  using assms by (simp add: ddl_audit_logs_def schema_simps run_group_simps grow_def)

lemma run_job_runs:
  assumes "map_of (cat_tables C) ''job_runs'' = None"
    "has_columns C ''users'' [''id'']"
    "map_of (cat_enums C) ''job_status'' = Some [''queued'', ''running'', ''succeeded'', ''failed'']"
    "map_of (cat_indexes C) ''idx_job_runs_queue'' = None"
    "map_of (cat_indexes C) ''idx_job_runs_user'' = None"
  shows "run_ddl ddl_job_runs C = Some (grow ''job_runs'' cols_job_runs
       []
       [''idx_job_runs_user'', ''idx_job_runs_queue''] C)"
  using assms by (simp add: ddl_job_runs_def schema_simps run_group_simps grow_def)

lemma run_ddl_append: "run_ddl (a @ b) C = (case run_ddl a C of None \<Rightarrow> None | Some C' \<Rightarrow> run_ddl b C')"
  by (induction a arbitrary: C) (simp_all split: option.splits)

lemmas run_groups = run_org_units run_users run_sessions run_account_codes run_budget_cycles
  run_cycle_reminder_schedules run_actual_expenses run_excel_templates run_budget_uploads
  run_budget_lines run_personnel_budget_uploads run_personnel_budget_lines run_shared_cost_uploads
  run_shared_cost_lines run_resubmit_requests run_notifications run_audit_logs run_job_runs

section \<open>Up and down\<close>

definition base_catalog :: catalog where
  "base_catalog = empty_catalog\<lparr>cat_extensions := [''pgcrypto''], cat_functions := [''set_updated_at''], cat_enums := rev ENUMS\<rparr>"

lemma base_simps:
  "cat_tables base_catalog = []" "cat_indexes base_catalog = []" "cat_constraints base_catalog = []"
  "cat_triggers base_catalog = []" "cat_enums base_catalog = rev ENUMS" "cat_functions base_catalog = [''set_updated_at'']"
  "cat_extensions base_catalog = [''pgcrypto'']"
  by (simp_all add: base_catalog_def empty_catalog_def)

lemma run_base: "run_ddl ([Create_extension ''pgcrypto'', Create_function ''set_updated_at''] @ create_enums) empty_catalog = Some base_catalog"
  by (simp add: create_enums_def ENUMS_def empty_catalog_def base_catalog_def)

text \<open>The tables after the first half of the statements, and after both, newest first.\<close>

definition tables_half :: "(string \<times> column list) list" where
  "tables_half = [(''budget_uploads'', cols_budget_uploads), (''excel_templates'', cols_excel_templates),
      (''actual_expenses'', cols_actual_expenses),
      (''cycle_reminder_schedules'', cols_cycle_reminder_schedules),
      (''budget_cycles'', cols_budget_cycles), (''account_codes'', cols_account_codes),
      (''sessions'', cols_sessions), (''users'', cols_users), (''org_units'', cols_org_units)]"

definition tables_0001 :: "(string \<times> column list) list" where
  "tables_0001 = [(''job_runs'', cols_job_runs), (''audit_logs'', cols_audit_logs),
      (''notifications'', cols_notifications), (''resubmit_requests'', cols_resubmit_requests),
      (''shared_cost_lines'', cols_shared_cost_lines),
      (''shared_cost_uploads'', cols_shared_cost_uploads),
      (''personnel_budget_lines'', cols_personnel_budget_lines),
      (''personnel_budget_uploads'', cols_personnel_budget_uploads),
      (''budget_lines'', cols_budget_lines)] @ tables_half"

lemma master_tables_made:
  "\<exists>C. run_ddl master_tables base_catalog = Some C \<and> cat_tables C = tables_half \<and> cat_triggers C = []
     \<and> cat_enums C = rev ENUMS \<and> cat_functions C = [''set_updated_at''] \<and> cat_extensions C = [''pgcrypto'']
     \<and> map fst (cat_indexes C) = [''idx_budget_uploads_latest'', ''idx_budget_uploads_cycle_unit'', ''idx_templates_cycle'',
      ''idx_actuals_cycle_org'', ''idx_reminder_schedules_cycle'', ''idx_budget_cycles_status'',
      ''uq_budget_cycles_active_year'', ''idx_account_codes_category'', ''idx_sessions_active'',
      ''idx_sessions_user'', ''idx_users_roles_gin'', ''idx_users_org_unit'',
      ''idx_org_units_filing'', ''idx_org_units_parent'']"
  by (simp add: master_tables_def run_ddl_append run_groups grow_simps base_simps has_columns_def schema_simps ENUMS_def tables_half_def)

lemma upload_tables_made:
  assumes "cat_tables C = tables_half" "cat_triggers C = []" "cat_enums C = rev ENUMS" "cat_functions C = [''set_updated_at'']"
    "cat_extensions C = [''pgcrypto'']"
    "map fst (cat_indexes C) = [''idx_budget_uploads_latest'', ''idx_budget_uploads_cycle_unit'', ''idx_templates_cycle'',
      ''idx_actuals_cycle_org'', ''idx_reminder_schedules_cycle'', ''idx_budget_cycles_status'',
      ''uq_budget_cycles_active_year'', ''idx_account_codes_category'', ''idx_sessions_active'',
      ''idx_sessions_user'', ''idx_users_roles_gin'', ''idx_users_org_unit'',
      ''idx_org_units_filing'', ''idx_org_units_parent'']"
  shows "\<exists>D. run_ddl upload_tables C = Some D \<and> cat_tables D = tables_0001 \<and> cat_triggers D = [] \<and> cat_enums D = rev ENUMS
     \<and> cat_functions D = [''set_updated_at''] \<and> cat_extensions D = [''pgcrypto'']"
proof -
  have idx: "map_of (cat_indexes C) i = None \<longleftrightarrow> i \<notin> set (map fst (cat_indexes C))" for i
    by (simp add: map_of_eq_None_iff)
  show ?thesis
    using assms
    by (simp add: upload_tables_def run_ddl_append run_groups grow_simps has_columns_def schema_simps ENUMS_def tables_half_def
        tables_0001_def idx del: set_map)
qed

section \<open>Down again\<close>

text \<open>Constraints, indexes and triggers are on tables there are.\<close>

definition hangs_together :: "catalog \<Rightarrow> bool" where
  "hangs_together C \<longleftrightarrow> fst ` set (cat_constraints C) \<subseteq> fst ` set (cat_tables C)
     \<and> snd ` set (cat_indexes C) \<subseteq> fst ` set (cat_tables C)
     \<and> (fst \<circ> snd) ` set (cat_triggers C) \<subseteq> fst ` set (cat_tables C)"

lemma has_columns_table: "has_columns C t cs \<Longrightarrow> t \<in> fst ` set (cat_tables C)"
  by (auto simp: has_columns_def split: option.splits dest!: map_of_SomeD intro: rev_image_eqI)

lemma fst_map_if: "fst ` set (map (\<lambda>(n, ds). if n = t then (n, f ds) else (n, ds)) ts) = fst ` set ts"
  by (force simp: image_iff split: if_splits)

lemma names_after_drop:
  "fst ` set (filter (\<lambda>(n, c). n \<noteq> t) xs) = fst ` set xs - {t}"
  "snd ` set (filter (\<lambda>(i, n). n \<noteq> t) is) = snd ` set is - {t}"
  "(\<lambda>x. fst (snd x)) ` set (filter (\<lambda>(g, n, f). n \<noteq> t) gs) = (\<lambda>x. fst (snd x)) ` set gs - {t}"
  by (force simp: image_iff)+

lemma filtered_names: "f ` set xs \<subseteq> A \<Longrightarrow> f ` set (filter p xs) \<subseteq> A"
  by auto

lemma exec_ddl_hangs: "hangs_together C \<Longrightarrow> pred_option hangs_together (exec_ddl d C)"
proof (cases d)
  case (Create_index i t cs u w)
  assume "hangs_together C"
  with Create_index show ?thesis
    using has_columns_table [of C t "cs @ filter_columns w"] by (simp add: hangs_together_def)
next
  case (Create_trigger g t f)
  assume "hangs_together C"
  with Create_trigger show ?thesis
    using has_columns_table [of C t "[''updated_at'']"] by (simp add: hangs_together_def)
next
  case (Add_column t c)
  assume "hangs_together C"
  with Add_column show ?thesis
    using fst_map_if [of t "\<lambda>ds. ds @ [c]" "cat_tables C"]
    by (simp add: hangs_together_def del: set_map split: option.splits)
next
  case (Drop_column t n)
  assume "hangs_together C"
  with Drop_column show ?thesis
    using fst_map_if [of t "filter (\<lambda>c. col_name c \<noteq> n)" "cat_tables C"]
    by (simp add: hangs_together_def del: set_map split: option.splits)
next
  case (Drop_table t)
  assume "hangs_together C"
  with Drop_table show ?thesis by (simp add: hangs_together_def names_after_drop comp_def Diff_mono del: set_filter)
next
  case (Create_table n cs ks)
  assume "hangs_together C"
  with Create_table show ?thesis by (auto simp: hangs_together_def Let_def)
qed (simp_all add: hangs_together_def filtered_names del: set_filter)

lemma run_ddl_hangs: "run_ddl ds C = Some C' \<Longrightarrow> hangs_together C \<Longrightarrow> hangs_together C'"
proof (induction ds arbitrary: C)
  case (Cons d ds)
  then show ?case using exec_ddl_hangs [of C d] by (simp split: option.splits)
qed simp

lemma hangs_empty: "hangs_together C \<Longrightarrow> cat_tables C = [] \<Longrightarrow> cat_constraints C = [] \<and> cat_indexes C = [] \<and> cat_triggers C = []"
  by (simp add: hangs_together_def)

definition tables_0002 :: "(string \<times> column list) list" where
  "tables_0002 = map (\<lambda>(n, cs). if n = ''org_units'' then (n, cs @ [dflt (Literal ''[]'') (req ''excluded_for_cycle_ids'' Jsonb)])
      else (n, cs)) tables_0001"

lemma triggers_made:
  assumes "cat_tables D = tables_0001" "cat_triggers D = []" "cat_functions D = [''set_updated_at'']"
  shows "\<exists>ts. run_ddl (attach_updated_at_triggers [''org_units'', ''users'', ''account_codes'', ''budget_cycles'', ''actual_expenses'']) D
      = Some (D\<lparr>cat_triggers := ts\<rparr>)"
  using assms by (simp add: attach_updated_at_triggers_def tables_0001_def tables_half_def has_columns_def schema_simps)
    (rule exI, rule refl)

lemma column_0002:
  assumes "cat_tables D = tables_0001"
  shows "run_ddl upgrade_0002 D = Some (D\<lparr>cat_tables := tables_0002\<rparr>)"
    "run_ddl downgrade_0002 (D\<lparr>cat_tables := tables_0002\<rparr>) = Some D"
  using assms by (simp_all add: upgrade_0002_def downgrade_0002_def tables_0002_def tables_0001_def tables_half_def
      enums_known_def enum_uses_def List.map_filter_def dflt_def req_def col_def schema_simps column_names_def cols_org_units_def pk_column_def uniq_def refs_def opt_def)

text \<open>No table of the list is named by one after it.\<close>

fun droppable :: "(string \<times> column list) list \<Rightarrow> bool" where
  "droppable [] \<longleftrightarrow> True"
| "droppable ((t, cs) # ts) \<longleftrightarrow> t \<notin> set (map fst ts)
     \<and> list_all (\<lambda>(n, ds). t \<notin> set (map fst (fk_targets ds))) ts \<and> droppable ts"

lemma tables_dropped:
  assumes "cat_tables C = ts @ us" "droppable (ts @ us)"
  shows "\<exists>is ks gs. run_ddl (map (\<lambda>(t, cs). Drop_table t) ts) C
    = Some (C\<lparr>cat_tables := us, cat_indexes := is, cat_constraints := ks, cat_triggers := gs\<rparr>)"
  using assms
proof (induction ts arbitrary: C)
  case Nil
  show ?case
    by (rule exI [of _ "cat_indexes C"], rule exI [of _ "cat_constraints C"], rule exI [of _ "cat_triggers C"]) (use Nil in simp)
next
  case (Cons r ts)
  obtain t cs where r: "r = (t, cs)" by (cases r)
  let ?C = "C\<lparr>cat_tables := ts @ us, cat_constraints := filter (\<lambda>(n, k). n \<noteq> t) (cat_constraints C),
     cat_indexes := filter (\<lambda>(i, n). n \<noteq> t) (cat_indexes C), cat_triggers := filter (\<lambda>(g, n, f). n \<noteq> t) (cat_triggers C)\<rparr>"
  have t: "t \<notin> fst ` set (ts @ us)" "\<forall>(n, ds) \<in> set (ts @ us). t \<notin> fst ` set (fk_targets ds)"
    using Cons.prems r by (auto simp: list_all_iff)
  have rest: "filter (\<lambda>(n, cs). n \<noteq> t) (ts @ us) = ts @ us"
    using t(1) by (intro filter_True) force
  have "exec_ddl (Drop_table t) C = Some ?C"
    using Cons.prems(1) t(2) rest r by (fastforce simp: list_ex_iff image_iff)
  moreover have "\<exists>is ks gs. run_ddl (map (\<lambda>(t, cs). Drop_table t) ts) ?C
    = Some (?C\<lparr>cat_tables := us, cat_indexes := is, cat_constraints := ks, cat_triggers := gs\<rparr>)"
    by (rule Cons.IH) (use Cons.prems r in simp_all)
  ultimately show ?case by (simp add: r)
qed

lemma triggers_dropped: "\<exists>ts. run_ddl (drop_updated_at_triggers us) C = Some (C\<lparr>cat_triggers := ts\<rparr>)"
proof (induction us arbitrary: C)
  case Nil
  show ?case by (rule exI [of _ "cat_triggers C"]) (simp add: drop_updated_at_triggers_def)
next
  case (Cons u us)
  show ?case using Cons [of "C\<lparr>cat_triggers := filter (\<lambda>(h, v, f). \<not> (h = ''trg_'' @ u @ ''_updated'' \<and> v = u)) (cat_triggers C)\<rparr>"]
    by (simp add: drop_updated_at_triggers_def)
qed

lemma enums_dropped:
  assumes "cat_tables C = []" "cat_enums C = rev ENUMS" "cat_functions C = [''set_updated_at'']"
  shows "\<exists>ts. run_ddl (drop_enums @ [Drop_function ''set_updated_at'']) C = Some (C\<lparr>cat_enums := [], cat_functions := [], cat_triggers := ts\<rparr>)"
  using assms by (simp add: drop_enums_def ENUMS_def) (rule exI, rule refl)

lemma droppable_0001: "droppable tables_0001"
  by (simp add: tables_0001_def tables_half_def schema_simps)

lemma downgrade_0001_parts:
  "downgrade_0001 = drop_updated_at_triggers [''actual_expenses'', ''budget_cycles'', ''account_codes'', ''users'', ''org_units'']
     @ map (\<lambda>(t, cs). Drop_table t) (take 13 tables_0001) @ [Drop_index ''uq_budget_cycles_active_year'']
     @ map (\<lambda>(t, cs). Drop_table t) (drop 13 tables_0001) @ drop_enums @ [Drop_function ''set_updated_at'']"
  by (simp add: downgrade_0001_def tables_0001_def tables_half_def)

lemma migrated:
  "\<exists>D. run_ddl upgrade_0001 empty_catalog = Some D \<and> cat_tables D = tables_0001 \<and> cat_enums D = rev ENUMS
     \<and> cat_functions D = [''set_updated_at''] \<and> cat_extensions D = [''pgcrypto''] \<and> hangs_together D
     \<and> run_ddl (upgrade_0001 @ upgrade_0002) empty_catalog = Some (D\<lparr>cat_tables := tables_0002\<rparr>)"
proof -
  from master_tables_made obtain B where B: "run_ddl master_tables base_catalog = Some B"
      "\<exists>D. run_ddl upload_tables B = Some D \<and> cat_tables D = tables_0001 \<and> cat_triggers D = [] \<and> cat_enums D = rev ENUMS
         \<and> cat_functions D = [''set_updated_at''] \<and> cat_extensions D = [''pgcrypto'']"
    by (elim exE conjE) (rule that, assumption, rule upload_tables_made)
  then obtain D where D: "run_ddl upload_tables B = Some D" "cat_tables D = tables_0001" "cat_triggers D = []"
      "cat_enums D = rev ENUMS" "cat_functions D = [''set_updated_at'']" "cat_extensions D = [''pgcrypto'']"
    by (elim exE conjE) (rule that)
  obtain ts where ts: "run_ddl (attach_updated_at_triggers [''org_units'', ''users'', ''account_codes'', ''budget_cycles'', ''actual_expenses'']) D
      = Some (D\<lparr>cat_triggers := ts\<rparr>)" using triggers_made [OF D(2,3,5)] by (elim exE) (rule that)
  have up: "run_ddl upgrade_0001 empty_catalog = Some (D\<lparr>cat_triggers := ts\<rparr>)"
    using B(1) D(1) ts run_base unfolding upgrade_0001_def upgrade_tables_def append_assoc [symmetric]
    by (simp only: run_ddl_append option.case)
  have "hangs_together (D\<lparr>cat_triggers := ts\<rparr>)"
    by (rule run_ddl_hangs [OF up]) (simp add: hangs_together_def empty_catalog_def)
  then show ?thesis
    using up D column_0002(1) [of "D\<lparr>cat_triggers := ts\<rparr>"]
    by (intro exI [of _ "D\<lparr>cat_triggers := ts\<rparr>"]) (simp add: run_ddl_append)
qed

lemma downgraded:
  assumes D: "cat_tables D = tables_0001" "cat_enums D = rev ENUMS" "cat_functions D = [''set_updated_at'']"
    "cat_extensions D = [''pgcrypto'']" "hangs_together D"
  shows "run_ddl downgrade_0001 D = Some (empty_catalog\<lparr>cat_extensions := [''pgcrypto'']\<rparr>)"
proof -
  note split = append_take_drop_id [of 13 tables_0001, symmetric]
  obtain t1 where 1: "run_ddl (drop_updated_at_triggers [''actual_expenses'', ''budget_cycles'', ''account_codes'', ''users'', ''org_units'']) D
      = Some (D\<lparr>cat_triggers := t1\<rparr>)" (is "_ = Some ?D1") using triggers_dropped by blast
  obtain i2 k2 t2 where 2: "run_ddl (map (\<lambda>(t, cs). Drop_table t) (take 13 tables_0001)) ?D1
      = Some (?D1\<lparr>cat_tables := drop 13 tables_0001, cat_indexes := i2, cat_constraints := k2, cat_triggers := t2\<rparr>)" (is "_ = Some ?D2")
    using tables_dropped [of ?D1 "take 13 tables_0001" "drop 13 tables_0001"] D(1) droppable_0001 by auto
  obtain i3 where 3: "run_ddl [Drop_index ''uq_budget_cycles_active_year''] ?D2 = Some (?D2\<lparr>cat_indexes := i3\<rparr>)" (is "_ = Some ?D3") by simp
  have "droppable (drop 13 tables_0001)"
    by (simp add: tables_0001_def tables_half_def schema_simps)
  then obtain i4 k4 t4 where 4: "run_ddl (map (\<lambda>(t, cs). Drop_table t) (drop 13 tables_0001)) ?D3
      = Some (?D3\<lparr>cat_tables := [], cat_indexes := i4, cat_constraints := k4, cat_triggers := t4\<rparr>)" (is "_ = Some ?D4")
    using tables_dropped [of ?D3 "drop 13 tables_0001" "[]"] by auto
  obtain t5 where 5: "run_ddl (drop_enums @ [Drop_function ''set_updated_at'']) ?D4
      = Some (?D4\<lparr>cat_enums := [], cat_functions := [], cat_triggers := t5\<rparr>)" (is "_ = Some ?D5")
    using enums_dropped [of ?D4] D by auto
  have run: "run_ddl downgrade_0001 D = Some ?D5"
    using 1 2 3 4 5 unfolding downgrade_0001_parts by (simp only: run_ddl_append option.case)
  have "hangs_together ?D5" by (rule run_ddl_hangs [OF run D(5)])
  then have "cat_constraints ?D5 = [] \<and> cat_indexes ?D5 = [] \<and> cat_triggers ?D5 = []" by (rule hangs_empty) simp
  then have "?D5 = empty_catalog\<lparr>cat_extensions := [''pgcrypto'']\<rparr>"
    using D(4) by (intro catalog.equality) (simp_all add: empty_catalog_def)
  then show ?thesis using run by simp
qed

text \<open>
  Claim C14: both migrations run on an empty database and make the eighteen tables, with the column of the
  second one on the organisation units; the two downgrades run after them and leave nothing behind but the
  extension (every table, index, constraint, trigger, enumeration and the function are gone), and a second
  upgrade works on what they leave.
\<close>

theorem migrations_undone:
  "\<exists>C. run_ddl (upgrade_0001 @ upgrade_0002) empty_catalog = Some C
     \<and> length (cat_tables C) = 18 \<and> has_columns C ''org_units'' [''excluded_for_cycle_ids'']
     \<and> run_ddl (downgrade_0002 @ downgrade_0001) C = Some (empty_catalog\<lparr>cat_extensions := [''pgcrypto'']\<rparr>)
     \<and> run_ddl (upgrade_0001 @ upgrade_0002) (empty_catalog\<lparr>cat_extensions := [''pgcrypto'']\<rparr>) = Some C"
proof -
  obtain D where D: "cat_tables D = tables_0001" "cat_enums D = rev ENUMS" "cat_functions D = [''set_updated_at'']"
      "cat_extensions D = [''pgcrypto'']" "hangs_together D"
      "run_ddl (upgrade_0001 @ upgrade_0002) empty_catalog = Some (D\<lparr>cat_tables := tables_0002\<rparr>)"
    using migrated by (elim exE conjE) (rule that)
  have ext: "exec_ddl (Create_extension ''pgcrypto'') (empty_catalog\<lparr>cat_extensions := [''pgcrypto'']\<rparr>)
      = exec_ddl (Create_extension ''pgcrypto'') empty_catalog" by (simp add: empty_catalog_def)
  have again: "run_ddl (upgrade_0001 @ upgrade_0002) (empty_catalog\<lparr>cat_extensions := [''pgcrypto'']\<rparr>)
      = run_ddl (upgrade_0001 @ upgrade_0002) empty_catalog"
    by (simp only: upgrade_0001_def append_Cons append_assoc run_ddl.simps(2) ext)
  have "has_columns (D\<lparr>cat_tables := tables_0002\<rparr>) ''org_units'' [''excluded_for_cycle_ids'']" "length tables_0002 = 18"
    by (simp_all add: has_columns_def tables_0002_def tables_0001_def tables_half_def column_names_def dflt_def req_def col_def)
  then show ?thesis
    using D(6) again column_0002(2) [OF D(1)] downgraded [OF D(1-5)]
    by (intro exI [of _ "D\<lparr>cat_tables := tables_0002\<rparr>"]) (simp add: run_ddl_append)
qed

section \<open>The ORM on the migrated tables\<close>

text \<open>
  A query of a mapped class names every mapped column. An insert names all of them but those the class
  leaves to the server; the table has to have what is named, and a value for every column that must not
  be null: the one sent, a default of the table, or the sequence PostgreSQL gives to an autoincrement
  column of the primary key (SQLAlchemy makes no sequence for any other column).
\<close>

definition select_ok :: "catalog \<Rightarrow> orm_class \<Rightarrow> bool" where
  "select_ok C m = has_columns C (orm_table m) (orm_columns m)"

definition sent :: "orm_class \<Rightarrow> string list" where
  "sent m = filter (\<lambda>n. \<not> List.member (orm_server_side m) n) (orm_columns m)"

definition filled :: "string list \<Rightarrow> column \<Rightarrow> bool" where
  "filled ns c \<longleftrightarrow> List.member ns (col_name c) \<or> col_nullable c \<or> server_default c \<noteq> No_default
     \<or> (col_autoincrement c \<and> col_primary c)"

definition insert_ok :: "catalog \<Rightarrow> orm_class \<Rightarrow> bool" where
  "insert_ok C m = (has_columns C (orm_table m) (sent m)
     \<and> (case map_of (cat_tables C) (orm_table m) of None \<Rightarrow> False | Some cs \<Rightarrow> list_all (filled (sent m)) cs))"

named_theorems orm_simps "the mapped classes"

declare orm_OrgUnit_def [orm_simps] orm_User_def [orm_simps] orm_Session_def [orm_simps] orm_AccountCode_def [orm_simps]
  orm_ActualExpense_def [orm_simps] orm_AuditLog_def [orm_simps] orm_BudgetUpload_def [orm_simps] orm_BudgetLine_def [orm_simps]
  orm_BudgetCycle_def [orm_simps] orm_CycleReminderSchedule_def [orm_simps] orm_Notification_def [orm_simps]
  orm_ResubmitRequest_def [orm_simps] orm_PersonnelBudgetUpload_def [orm_simps] orm_PersonnelBudgetLine_def [orm_simps]
  orm_SharedCostUpload_def [orm_simps] orm_SharedCostLine_def [orm_simps] orm_ExcelTemplate_def [orm_simps]

text \<open>The columns of a migrated table, one table at a time.\<close>

lemma tables_0002_of:
  "map_of tables_0002 ''org_units'' = Some (cols_org_units @ [dflt (Literal ''[]'') (req ''excluded_for_cycle_ids'' Jsonb)])"
  "map_of tables_0002 ''users'' = Some cols_users"
  "map_of tables_0002 ''sessions'' = Some cols_sessions"
  "map_of tables_0002 ''account_codes'' = Some cols_account_codes"
  "map_of tables_0002 ''budget_cycles'' = Some cols_budget_cycles"
  "map_of tables_0002 ''cycle_reminder_schedules'' = Some cols_cycle_reminder_schedules"
  "map_of tables_0002 ''actual_expenses'' = Some cols_actual_expenses"
  "map_of tables_0002 ''excel_templates'' = Some cols_excel_templates"
  "map_of tables_0002 ''budget_uploads'' = Some cols_budget_uploads"
  "map_of tables_0002 ''budget_lines'' = Some cols_budget_lines"
  "map_of tables_0002 ''personnel_budget_uploads'' = Some cols_personnel_budget_uploads"
  "map_of tables_0002 ''personnel_budget_lines'' = Some cols_personnel_budget_lines"
  "map_of tables_0002 ''shared_cost_uploads'' = Some cols_shared_cost_uploads"
  "map_of tables_0002 ''shared_cost_lines'' = Some cols_shared_cost_lines"
  "map_of tables_0002 ''resubmit_requests'' = Some cols_resubmit_requests"
  "map_of tables_0002 ''notifications'' = Some cols_notifications"
  "map_of tables_0002 ''audit_logs'' = Some cols_audit_logs"
  by (simp_all add: tables_0002_def tables_0001_def tables_half_def)

lemma names_append: "column_names (cs @ ds) = column_names cs @ column_names ds"
  by (simp add: column_names_def)

lemma added_column: "column_names [dflt d (req n t)] = [n]"
  by (simp add: column_defs)

lemma select_known:
  assumes "cat_tables C = tables_0002"
  shows "filter (\<lambda>m. \<not> select_ok C m) orm_classes = [orm_PersonnelBudgetUpload, orm_SharedCostUpload]"
  using assms by (simp add: orm_classes_def select_ok_def has_columns_def orm_simps tables_0002_of schema_simps names_append
      added_column)

lemma filled_simps:
  "filled ns (req n t) \<longleftrightarrow> List.member ns n" "filled ns (opt n t)" "d \<noteq> No_default \<Longrightarrow> filled ns (dflt d c)" "filled ns pk_column"
  "filled ns (uniq c) \<longleftrightarrow> filled ns c" "filled ns (refs r a c) \<longleftrightarrow> filled ns c"
  "filled ns (autoinc (uniq (req n t))) \<longleftrightarrow> List.member ns n"
  by (simp_all add: filled_def column_defs)

lemma column_names_simps:
  "column_names [] = []" "column_names (c # cs) = col_name c # column_names cs"
  "col_name (req n t) = n" "col_name (opt n t) = n" "col_name (dflt d c) = col_name c" "col_name pk_column = ''id''"
  "col_name (uniq c) = col_name c" "col_name (refs r a c) = col_name c" "col_name (autoinc c) = col_name c"
  by (simp_all add: column_defs)

lemma insert_ok_iff:
  "cat_tables C = ts \<Longrightarrow> map_of ts (orm_table m) = Some cs
   \<Longrightarrow> insert_ok C m \<longleftrightarrow> (\<forall>n \<in> set (sent m). n \<in> set (column_names cs)) \<and> list_all (filled (sent m)) cs"
  by (simp add: insert_ok_def has_columns_def list_all_iff)

lemma insert_OrgUnit: "cat_tables C = tables_0002 \<Longrightarrow> insert_ok C orm_OrgUnit"
  by (simp add: insert_ok_iff orm_OrgUnit_def sent_def tables_0002_of names_append column_names_simps cols_org_units_def filled_simps)

lemma insert_User: "cat_tables C = tables_0002 \<Longrightarrow> insert_ok C orm_User"
  by (simp add: insert_ok_iff orm_User_def sent_def tables_0002_of names_append column_names_simps cols_users_def filled_simps)

lemma insert_Session: "cat_tables C = tables_0002 \<Longrightarrow> insert_ok C orm_Session"
  by (simp add: insert_ok_iff orm_Session_def sent_def tables_0002_of names_append column_names_simps cols_sessions_def filled_simps)

lemma insert_AccountCode: "cat_tables C = tables_0002 \<Longrightarrow> insert_ok C orm_AccountCode"
  by (simp add: insert_ok_iff orm_AccountCode_def sent_def tables_0002_of names_append column_names_simps cols_account_codes_def filled_simps)

lemma insert_ActualExpense: "cat_tables C = tables_0002 \<Longrightarrow> insert_ok C orm_ActualExpense"
  by (simp add: insert_ok_iff orm_ActualExpense_def sent_def tables_0002_of names_append column_names_simps cols_actual_expenses_def filled_simps)

lemma insert_AuditLog: "cat_tables C = tables_0002 \<Longrightarrow> \<not> insert_ok C orm_AuditLog"
  by (simp add: insert_ok_iff orm_AuditLog_def sent_def tables_0002_of names_append column_names_simps cols_audit_logs_def filled_simps)

lemma insert_BudgetUpload: "cat_tables C = tables_0002 \<Longrightarrow> insert_ok C orm_BudgetUpload"
  by (simp add: insert_ok_iff orm_BudgetUpload_def sent_def tables_0002_of names_append column_names_simps cols_budget_uploads_def filled_simps)

lemma insert_BudgetLine: "cat_tables C = tables_0002 \<Longrightarrow> insert_ok C orm_BudgetLine"
  by (simp add: insert_ok_iff orm_BudgetLine_def sent_def tables_0002_of names_append column_names_simps cols_budget_lines_def filled_simps)

lemma insert_BudgetCycle: "cat_tables C = tables_0002 \<Longrightarrow> insert_ok C orm_BudgetCycle"
  by (simp add: insert_ok_iff orm_BudgetCycle_def sent_def tables_0002_of names_append column_names_simps cols_budget_cycles_def filled_simps)

lemma insert_CycleReminderSchedule: "cat_tables C = tables_0002 \<Longrightarrow> insert_ok C orm_CycleReminderSchedule"
  by (simp add: insert_ok_iff orm_CycleReminderSchedule_def sent_def tables_0002_of names_append column_names_simps cols_cycle_reminder_schedules_def filled_simps)

lemma insert_Notification: "cat_tables C = tables_0002 \<Longrightarrow> insert_ok C orm_Notification"
  by (simp add: insert_ok_iff orm_Notification_def sent_def tables_0002_of names_append column_names_simps cols_notifications_def filled_simps)

lemma insert_ResubmitRequest: "cat_tables C = tables_0002 \<Longrightarrow> insert_ok C orm_ResubmitRequest"
  by (simp add: insert_ok_iff orm_ResubmitRequest_def sent_def tables_0002_of names_append column_names_simps cols_resubmit_requests_def filled_simps)

lemma insert_PersonnelBudgetUpload: "cat_tables C = tables_0002 \<Longrightarrow> \<not> insert_ok C orm_PersonnelBudgetUpload"
  by (simp add: insert_ok_iff orm_PersonnelBudgetUpload_def sent_def tables_0002_of names_append column_names_simps cols_personnel_budget_uploads_def filled_simps)

lemma insert_PersonnelBudgetLine: "cat_tables C = tables_0002 \<Longrightarrow> insert_ok C orm_PersonnelBudgetLine"
  by (simp add: insert_ok_iff orm_PersonnelBudgetLine_def sent_def tables_0002_of names_append column_names_simps cols_personnel_budget_lines_def filled_simps)

lemma insert_SharedCostUpload: "cat_tables C = tables_0002 \<Longrightarrow> \<not> insert_ok C orm_SharedCostUpload"
  by (simp add: insert_ok_iff orm_SharedCostUpload_def sent_def tables_0002_of names_append column_names_simps cols_shared_cost_uploads_def filled_simps)

lemma insert_SharedCostLine: "cat_tables C = tables_0002 \<Longrightarrow> insert_ok C orm_SharedCostLine"
  by (simp add: insert_ok_iff orm_SharedCostLine_def sent_def tables_0002_of names_append column_names_simps cols_shared_cost_lines_def filled_simps)

lemma insert_ExcelTemplate: "cat_tables C = tables_0002 \<Longrightarrow> insert_ok C orm_ExcelTemplate"
  by (simp add: insert_ok_iff orm_ExcelTemplate_def sent_def tables_0002_of names_append column_names_simps cols_excel_templates_def filled_simps)

lemma insert_known:
  assumes "cat_tables C = tables_0002"
  shows "filter (\<lambda>m. \<not> insert_ok C m) orm_classes = [orm_AuditLog, orm_PersonnelBudgetUpload, orm_SharedCostUpload]"
  using assms by (simp add: orm_classes_def insert_OrgUnit insert_User insert_Session insert_AccountCode insert_ActualExpense
      insert_AuditLog insert_BudgetUpload insert_BudgetLine insert_BudgetCycle
      insert_CycleReminderSchedule insert_Notification insert_ResubmitRequest insert_PersonnelBudgetUpload insert_PersonnelBudgetLine
      insert_SharedCostUpload insert_SharedCostLine insert_ExcelTemplate)


end
