(* ===== verification/Settings_Keys.thy ===== *)
theory Settings_Keys
  imports Storage Cycles
begin

text \<open>
  The part of \<^verbatim>\<open>config.py\<close> that checks the settings when they are read, and the part of
  \<^verbatim>\<open>infra/crypto\<close> that turns them into keys at every use: \<open>bytes.fromhex\<close>, the validators, the three
  key loaders, the lookup hash and the chain hash. The services are modelled on decoded keys
  (\<open>env\<close>); the property below says that this is what accepted settings give. \<open>hmac_sha256\<close> is a
  parameter, as are \<open>json.loads\<close> and the canonical text of a JSON value.
\<close>

section \<open>Hexadecimal texts\<close>

definition hex_val :: "nat \<Rightarrow> nat option" where
  "hex_val c = (if 48 \<le> c \<and> c \<le> 57 then Some (c - 48)
     else if 97 \<le> c \<and> c \<le> 102 then Some (c - 87)
     else if 65 \<le> c \<and> c \<le> 70 then Some (c - 55) else None)"

definition ascii_space :: "nat \<Rightarrow> bool" where
  "ascii_space c \<longleftrightarrow> (9 \<le> c \<and> c \<le> 13) \<or> c = 32"

text \<open>\<open>bytes.fromhex\<close>: pairs of digits, white space allowed around a pair.\<close>

fun fromhex :: "pystr \<Rightarrow> exn + bytes" where
  "fromhex [] = Inr []"
| "fromhex [c] = (if ascii_space c then Inr [] else Inl Value_error)"
| "fromhex (c # d # cs) =
     (if ascii_space c then fromhex (d # cs)
      else case (hex_val c, hex_val d) of
          (Some h, Some l) \<Rightarrow> (case fromhex cs of Inl e \<Rightarrow> Inl e | Inr bs \<Rightarrow> Inr ((16 * h + l) # bs))
        | _ \<Rightarrow> Inl Value_error)"

section \<open>Reading the settings\<close>

text \<open>
  What \<open>BC_SSO_ROLE_MAPPING\<close> can be: absent, a text, a dictionary (a value that is no text is
  \<open>None\<close>), or something else. \<open>loads\<close> is \<open>json.loads\<close>, \<open>None\<close> on a \<open>JSONDecodeError\<close>.
\<close>

datatype raw_mapping = No_value | Raw_text pystr | Raw_dict "(pystr \<times> pystr option) list" | Raw_other

record raw_settings =
  raw_crypto_key :: pystr
  raw_key_id :: pystr
  raw_audit_key :: pystr
  raw_lookup_key :: pystr
  raw_log_level :: pystr
  raw_role_mapping :: raw_mapping

definition parse_role_mapping :: "(pystr \<Rightarrow> raw_mapping option) \<Rightarrow> raw_mapping \<Rightarrow> exn + raw_mapping" where
  "parse_role_mapping loads v = (case v of
      No_value \<Rightarrow> Inr (Raw_dict [])
    | Raw_dict kvs \<Rightarrow> Inr v
    | Raw_text t \<Rightarrow>
        if t = [] then Inr (Raw_dict [])
        else (case loads t of Some (Raw_dict kvs) \<Rightarrow> Inr (Raw_dict kvs) | _ \<Rightarrow> Inl Value_error)
    | Raw_other \<Rightarrow> Inl Value_error)"

text \<open>The declared type \<open>dict[str, str]\<close>, checked after it.\<close>

definition text_dict :: "raw_mapping \<Rightarrow> exn + (pystr \<times> pystr) list" where
  "text_dict v = (case v of
      Raw_dict kvs \<Rightarrow> if list_all (\<lambda>(k, x). x \<noteq> None) kvs then Inr (map (\<lambda>(k, x). (k, the x)) kvs) else Inl Value_error
    | _ \<Rightarrow> Inl Value_error)"

definition validate_crypto_key :: "pystr \<Rightarrow> exn + pystr" where
  "validate_crypto_key value = (case fromhex value of
      Inl e \<Rightarrow> Inl Value_error
    | Inr raw \<Rightarrow> if length raw \<noteq> 32 then Inl Value_error else Inr value)"

definition validate_audit_hmac_key :: "pystr \<Rightarrow> exn + pystr" where
  "validate_audit_hmac_key value = (case fromhex value of
      Inl e \<Rightarrow> Inl Value_error
    | Inr raw \<Rightarrow> if length raw < 32 then Inl Value_error else Inr value)"

definition validate_log_level :: "pystr \<Rightarrow> exn + pystr" where
  "validate_log_level value =
     (let normalized = concat (map upper_char value);
          normalized = (if normalized = str ''WARN'' then str ''WARNING'' else normalized)
      in if normalized \<in> set (map str [''DEBUG'', ''INFO'', ''WARNING'', ''ERROR'', ''CRITICAL'']) then Inr normalized
         else Inl Value_error)"

text \<open>\<open>Settings()\<close>: one failing validator refuses the settings; the others may change their value.\<close>

definition load_settings :: "(pystr \<Rightarrow> raw_mapping option) \<Rightarrow> raw_settings \<Rightarrow> exn + raw_settings" where
  "load_settings loads r =
     (case (validate_crypto_key (raw_crypto_key r), validate_audit_hmac_key (raw_audit_key r),
            parse_role_mapping loads (raw_role_mapping r), validate_log_level (raw_log_level r)) of
        (Inr ck, Inr ak, Inr m, Inr lv) \<Rightarrow>
          (case text_dict m of Inl e \<Rightarrow> Inl e
           | Inr kvs \<Rightarrow> Inr (r\<lparr>raw_crypto_key := ck, raw_audit_key := ak,
               raw_role_mapping := Raw_dict (map (\<lambda>(k, x). (k, Some x)) kvs), raw_log_level := lv\<rparr>))
      | _ \<Rightarrow> Inl Value_error)"

section \<open>The key loaders\<close>

abbreviation sys_002 :: exn where
  "sys_002 \<equiv> app_err InfraError ''SYS_002''"

definition load_aes_key_text :: "raw_settings \<Rightarrow> pystr option \<Rightarrow> exn + pystr \<times> bytes" where
  "load_aes_key_text st key_id =
     (let active_id = raw_key_id st; resolved_id = (case key_id of Some k \<Rightarrow> k | None \<Rightarrow> active_id) in
      if resolved_id \<noteq> active_id then Inl sys_002
      else case fromhex (raw_crypto_key st) of
          Inl e \<Rightarrow> Inl sys_002
        | Inr raw \<Rightarrow> if length raw \<noteq> 32 then Inl sys_002 else Inr (resolved_id, raw))"

definition load_audit_hmac_key :: "raw_settings \<Rightarrow> exn + bytes" where
  "load_audit_hmac_key st = (case fromhex (raw_audit_key st) of
      Inl e \<Rightarrow> Inl sys_002
    | Inr raw \<Rightarrow> if length raw < 32 then Inl sys_002 else Inr raw)"

definition load_lookup_hmac_key :: "raw_settings \<Rightarrow> exn + bytes" where
  "load_lookup_hmac_key st =
     (let value = (if raw_lookup_key st \<noteq> [] then raw_lookup_key st else raw_crypto_key st) in
      case fromhex value of
        Inl e \<Rightarrow> Inl sys_002
      | Inr raw \<Rightarrow> if length raw < 32 then Inl sys_002 else Inr raw)"

type_synonym hmac_sha256 = "bytes \<Rightarrow> bytes \<Rightarrow> bytes"

definition hmac_lookup_hash :: "hmac_sha256 \<Rightarrow> raw_settings \<Rightarrow> bytes \<Rightarrow> exn + bytes" where
  "hmac_lookup_hash H st value = (case load_lookup_hmac_key st of Inl e \<Rightarrow> Inl e | Inr key \<Rightarrow> Inr (H key value))"

definition chain_hash :: "hmac_sha256 \<Rightarrow> raw_settings \<Rightarrow> bytes \<Rightarrow> bytes \<Rightarrow> exn + bytes" where
  "chain_hash H st prev payload = (case load_audit_hmac_key st of Inl e \<Rightarrow> Inl e | Inr key \<Rightarrow> Inr (H key (prev @ payload)))"

section \<open>The environment the services are modelled on\<close>

definition key_or :: "bytes \<Rightarrow> exn + bytes \<Rightarrow> bytes" where
  "key_or k r = (case r of Inl e \<Rightarrow> k | Inr x \<Rightarrow> x)"

text \<open>\<open>canonical\<close> is the text \<open>_serialize_for_chain\<close> makes of a JSON value.\<close>

definition settings_env :: "hmac_sha256 \<Rightarrow> (json \<Rightarrow> bytes) \<Rightarrow> raw_settings \<Rightarrow> env \<Rightarrow> env" where
  "settings_env H canonical st E = E\<lparr>
     cfg := (cfg E)\<lparr>crypto_key_id := raw_key_id st, crypto_key := key_or [] (fromhex (raw_crypto_key st))\<rparr>,
     chain_hmac := \<lambda>p x. H (key_or [] (load_audit_hmac_key st)) (p @ canonical x),
     lookup_hmac := H (key_or [] (load_lookup_hmac_key st))\<rparr>"

lemma load_settings_Inr:
  assumes "load_settings loads r = Inr st"
  shows "\<exists>k. fromhex (raw_crypto_key st) = Inr k \<and> length k = 32"
    and "\<exists>k. fromhex (raw_audit_key st) = Inr k \<and> 32 \<le> length k"
    and "raw_lookup_key st = raw_lookup_key r"
  using assms
  by (auto simp: load_settings_def validate_crypto_key_def validate_audit_hmac_key_def not_less split: sum.splits if_splits)

text \<open>
  Claim C39: once the settings are accepted, no use of the encryption key or of the audit key can fail,
  and what the services compute with them is what the model's environment computes: the key of
  every envelope (32 bytes, under the active identifier only) and every hash of the audit chain.
  The lookup key has no validator: with one that is given and is not the hexadecimal text of at
  least 32 bytes the settings are accepted all the same, and then every lookup hash fails.
\<close>

theorem accepted_settings_give_keys:
  assumes "load_settings loads r = Inr st"
  shows "load_aes_key_text st kid = load_aes_key (settings_env H canonical st E) kid
    \<and> length (crypto_key (cfg (settings_env H canonical st E))) = 32
    \<and> chain_hash H st p (canonical x) = Inr (chain_hmac (settings_env H canonical st E) p x)
    \<and> hmac_lookup_hash H st v =
       (if raw_lookup_key r = [] \<or> (\<exists>k. fromhex (raw_lookup_key r) = Inr k \<and> 32 \<le> length k)
        then Inr (lookup_hmac (settings_env H canonical st E) v) else Inl sys_002)"
proof -
  obtain k where k: "fromhex (raw_crypto_key st) = Inr k" "length k = 32"
    using load_settings_Inr(1) [OF assms] by blast
  obtain a where a: "fromhex (raw_audit_key st) = Inr a" "32 \<le> length a"
    using load_settings_Inr(2) [OF assms] by blast
  have aes: "load_aes_key_text st kid = load_aes_key (settings_env H canonical st E) kid"
    by (simp add: load_aes_key_text_def load_aes_key_def settings_env_def k key_or_def Let_def split: option.splits)
  have chain: "chain_hash H st p (canonical x) = Inr (chain_hmac (settings_env H canonical st E) p x)"
    using a by (simp add: chain_hash_def load_audit_hmac_key_def settings_env_def key_or_def not_less)
  have "hmac_lookup_hash H st v =
      (if raw_lookup_key st = [] \<or> (\<exists>k. fromhex (raw_lookup_key st) = Inr k \<and> 32 \<le> length k)
       then Inr (lookup_hmac (settings_env H canonical st E) v) else Inl sys_002)"
    using k by (cases "fromhex (raw_lookup_key st)")
      (simp_all add: hmac_lookup_hash_def load_lookup_hmac_key_def settings_env_def key_or_def Let_def not_less)
  with aes chain show ?thesis
    using k by (simp add: settings_env_def key_or_def load_settings_Inr(3) [OF assms])
qed

definition raw0 :: raw_settings where
  "raw0 = \<lparr>raw_crypto_key = concat (replicate 32 (str ''0a'')), raw_key_id = str ''k-default'',
     raw_audit_key = str ''00 '' @ concat (replicate 32 (str ''FF'')), raw_lookup_key = str ''secret'',
     raw_log_level = str ''warn'', raw_role_mapping = Raw_text (str ''{}'')\<rparr>"

lemma raw0_accepted: "\<exists>st. load_settings (\<lambda>t. Some (Raw_dict [])) raw0 = Inr st"
  by (simp add: load_settings_def raw0_def validate_crypto_key_def validate_audit_hmac_key_def parse_role_mapping_def
      text_dict_def validate_log_level_def upper_char_def hex_val_def ascii_space_def numeral_eq_Suc)

lemma secret_no_key: "\<not> (str ''secret'' = [] \<or> (\<exists>k. fromhex (str ''secret'') = Inr k \<and> 32 \<le> length k))"
  by (simp add: hex_val_def ascii_space_def)

theorem accepted_settings_give_keys_witness:
  "\<exists>st. load_settings (\<lambda>t. Some (Raw_dict [])) raw0 = Inr st
     \<and> hmac_lookup_hash (@) st [1] = Inl sys_002
     \<and> chain_hash (@) st [1] [] = Inr (chain_hmac (settings_env (@) (\<lambda>x. []) st env0) [1] JNull)"
proof -
  obtain st where st: "load_settings (\<lambda>t. Some (Raw_dict [])) raw0 = Inr st" using raw0_accepted by blast
  have "raw_lookup_key raw0 = str ''secret''" by (simp add: raw0_def)
  with accepted_settings_give_keys [OF st, of None "(@)" "\<lambda>x. []" env0 "[1]" JNull "[1]"] secret_no_key
  have "hmac_lookup_hash (@) st [1] = Inl sys_002
     \<and> chain_hash (@) st [1] [] = Inr (chain_hmac (settings_env (@) (\<lambda>x. []) st env0) [1] JNull)"
    by (simp only: if_False)
  with st show ?thesis by blast
qed

end
