(* ===== verification/Guid.thy ===== *)
theory Guid
  imports Report_Files Settings_Keys
begin

text \<open>
  The column type of every identifier, \<open>GUID\<close> of \<^verbatim>\<open>domain/audit/models.py\<close>: PostgreSQL stores the value,
  other databases its text of 36 characters. The constructor \<open>UUID(text)\<close> of the standard library is
  written out, with what it accepts beside the canonical form (a \<open>urn:uuid:\<close> prefix, braces, hyphens
  anywhere) and what \<open>int(..., 16)\<close> accepts (a sign, \<open>0x\<close>, single underscores, white space and the
  decimal digits of other scripts, those of \<open>Py_Decimal\<close>).
\<close>

section \<open>UUID(text)\<close>

text \<open>\<open>text.replace(pat, '''')\<close>: left to right, without overlaps.\<close>

function remove_text :: "pystr \<Rightarrow> pystr \<Rightarrow> pystr" where
  "remove_text pat [] = []"
| "remove_text pat (c # cs) =
     (if pat \<noteq> [] \<and> take (length pat) (c # cs) = pat then remove_text pat (drop (length pat) (c # cs))
      else c # remove_text pat cs)"
  by pat_completeness auto
termination
  by (relation "measure (\<lambda>(pat, s). length s)") (auto simp: neq_Nil_conv)

definition strip_chars :: "nat list \<Rightarrow> pystr \<Rightarrow> pystr" where
  "strip_chars cs s = rev (dropWhile (\<lambda>c. c \<in> set cs) (rev (dropWhile (\<lambda>c. c \<in> set cs) s)))"

text \<open>What \<open>int\<close> makes of a character before it reads: a decimal digit, a space, or the character.\<close>

definition plain_char :: "nat \<Rightarrow> nat" where
  "plain_char c = (if c < 128 then c else case digit_val c of Some d \<Rightarrow> 48 + d | None \<Rightarrow> if is_space c then 32 else 63)"

text \<open>Digits of base 16 with single underscores between them; the flag: the last character was one.\<close>

fun scan16 :: "pystr \<Rightarrow> bool \<Rightarrow> nat \<Rightarrow> (nat \<times> pystr) option" where
  "scan16 [] usc v = (if usc then None else Some (v, []))"
| "scan16 (c # cs) usc v =
     (case hex_val c of
        Some d \<Rightarrow> scan16 cs False (16 * v + d)
      | None \<Rightarrow> if usc then None else if c = 95 then scan16 cs True v else Some (v, c # cs))"

definition skip_0x :: "pystr \<Rightarrow> pystr" where
  "skip_0x s = (if take 2 s \<in> {str ''0x'', str ''0X''}
     then (if take 1 (drop 2 s) = [95] then drop 3 s else drop 2 s) else s)"

definition int16 :: "pystr \<Rightarrow> int option" where
  "int16 s = (case read_sign (dropWhile ascii_space (map plain_char s)) of (sg, t) \<Rightarrow>
     (case skip_0x t of
        [] \<Rightarrow> None
      | c # cs \<Rightarrow>
          if hex_val c = None then None
          else (case scan16 (c # cs) False 0 of
              None \<Rightarrow> None
            | Some (v, rest) \<Rightarrow> if list_all ascii_space rest then Some (if sg then - int v else int v) else None)))"

definition uuid_of_text :: "pystr \<Rightarrow> exn + uuid" where
  "uuid_of_text s =
     (let hex = remove_text (str ''-'') (strip_chars [123, 125] (remove_text (str ''uuid:'') (remove_text (str ''urn:'') s))) in
      if length hex \<noteq> 32 then Inl Value_error
      else case int16 hex of
          None \<Rightarrow> Inl Value_error
        | Some i \<Rightarrow> if 0 \<le> i \<and> i < 2 ^ 128 then Inr (nat i) else Inl Value_error)"

section \<open>The column type\<close>

datatype dialect = Postgresql | Other_dialect

datatype guid_value = Uuid uuid | Text_form pystr

definition process_bind_param :: "guid_value option \<Rightarrow> dialect \<Rightarrow> exn + guid_value option" where
  "process_bind_param val d = (case val of
      None \<Rightarrow> Inr None
    | Some (Uuid u) \<Rightarrow> Inr (Some (case d of Postgresql \<Rightarrow> Uuid u | Other_dialect \<Rightarrow> Text_form (uuid_text u)))
    | Some (Text_form t) \<Rightarrow> (case uuid_of_text t of
          Inl e \<Rightarrow> Inl e
        | Inr u \<Rightarrow> Inr (Some (case d of Postgresql \<Rightarrow> Uuid u | Other_dialect \<Rightarrow> Text_form (uuid_text u)))))"

definition process_result_value :: "guid_value option \<Rightarrow> exn + uuid option" where
  "process_result_value val = (case val of
      None \<Rightarrow> Inr None
    | Some (Uuid u) \<Rightarrow> Inr (Some u)
    | Some (Text_form t) \<Rightarrow> (case uuid_of_text t of Inl e \<Rightarrow> Inl e | Inr u \<Rightarrow> Inr (Some u)))"

section \<open>The canonical text\<close>

lemma remove_text_absent: "pat \<noteq> [] \<Longrightarrow> hd pat \<notin> set s \<Longrightarrow> remove_text pat s = s"
  by (induction s) (auto simp: neq_Nil_conv)

lemma remove_char: "remove_text [c] s = filter (\<lambda>d. d \<noteq> c) s"
  by (induction "[c]" s rule: remove_text.induct) auto

lemma strip_chars_absent: "set cs \<inter> set s = {} \<Longrightarrow> strip_chars cs s = s"
proof -
  assume "set cs \<inter> set s = {}"
  then have d: "dropWhile (\<lambda>c. c \<in> set cs) t = t" if "set t \<subseteq> set s" for t
    using that by (cases t) auto
  show ?thesis using d [of s] d [of "rev s"] by (simp add: strip_chars_def)
qed

definition digits16 :: "nat \<Rightarrow> nat \<Rightarrow> nat list" where
  "digits16 k u = map (\<lambda>i. u div 16 ^ (k - 1 - i) mod 16) [0..<k]"

lemma hex_val_digit: "d < 16 \<Longrightarrow> hex_val (hex_digit d) = Some d"
  by (auto simp: hex_val_def hex_digit_def)

lemma scan16_digits: "list_all (\<lambda>d. d < 16) ds \<Longrightarrow>
    scan16 (map hex_digit ds) False v = Some (foldl (\<lambda>a d. 16 * a + d) v ds, [])"
  by (induction ds arbitrary: v) (simp_all add: hex_val_digit)

lemma digits16_Suc: "digits16 (Suc k) u = digits16 k (u div 16) @ [u mod 16]"
proof -
  have "u div 16 ^ (k - i) = u div 16 div 16 ^ (k - 1 - i)" if "i < k" for i
  proof -
    have "(16 :: nat) ^ (k - i) = 16 * 16 ^ (k - 1 - i)"
      using that by (simp flip: power_Suc add: Suc_diff_Suc)
    then show ?thesis by (simp add: div_mult2_eq)
  qed
  then show ?thesis by (simp add: digits16_def)
qed

lemma digits16_value: "foldl (\<lambda>a d. 16 * a + d) 0 (digits16 k u) = u mod 16 ^ k"
proof (induction k arbitrary: u)
  case 0
  show ?case by (simp add: digits16_def)
next
  case (Suc k)
  then show ?case by (simp add: digits16_Suc mod_mult2_eq)
qed

lemma hex32_digits: "hex32 u = map hex_digit (digits16 32 u)"
  by (simp add: hex32_def digits16_def)

lemma uuid_text_chars: "c \<in> set (uuid_text u) \<Longrightarrow> c = 45 \<or> c \<in> set (hex32 u)"
  by (auto simp: uuid_text_def Let_def dest: in_set_takeD in_set_dropD)

lemma uuid_text_hex: "filter (\<lambda>c. c \<noteq> 45) (uuid_text u) = hex32 u"
proof -
  have f: "filter (\<lambda>c. c \<noteq> 45) t = t" if "set t \<subseteq> set (hex32 u)" for t
    using that by (intro filter_True) (auto dest!: hex32_chars subsetD)
  have p: "take 8 h @ take 4 (drop 8 h) @ take 4 (drop 12 h) @ take 4 (drop 16 h) @ drop 20 h = h" for h :: pystr
    using append_take_drop_id [of 8 h] append_take_drop_id [of 4 "drop 8 h"] append_take_drop_id [of 4 "drop 12 h"]
      append_take_drop_id [of 4 "drop 16 h"] by (simp del: append_take_drop_id)
  show ?thesis
    using p [of "hex32 u"] by (simp add: uuid_text_def Let_def f [OF set_take_subset] f [OF set_drop_subset]
        f [OF order_trans [OF set_take_subset set_drop_subset]])
qed

lemma hex32_int16:
  assumes "u < 2 ^ 128"
  shows "int16 (hex32 u) = Some (int u)"
proof -
  have small: "list_all (\<lambda>d. d < 16) (digits16 32 u)" by (simp add: digits16_def list_all_iff)
  have low: "c < 128 \<and> \<not> ascii_space c \<and> c \<noteq> 45 \<and> c \<noteq> 43 \<and> c \<noteq> 120 \<and> c \<noteq> 88" if "c \<in> set (hex32 u)" for c
    using hex32_chars [OF that] by (auto simp: ascii_space_def)
  have plain: "map plain_char (hex32 u) = hex32 u"
    using low by (intro map_idI) (simp add: plain_char_def)
  obtain c d cs where h: "hex32 u = c # d # cs"
    using length_hex32 [of u] by (cases "hex32 u"; cases "tl (hex32 u)") auto
  have cd: "c \<in> set (hex32 u)" "d \<in> set (hex32 u)" using h by simp_all
  have skip: "skip_0x (c # d # cs) = c # d # cs" using low [OF cd(2)] by (simp add: skip_0x_def)
  have sign: "read_sign (dropWhile ascii_space (c # d # cs)) = (False, c # d # cs)"
    using low [OF cd(1)] by (simp add: read_sign_def)
  have hexc: "hex_val c \<noteq> None"
    using hex32_chars [OF cd(1)] by (auto simp: hex_val_def)
  have "(2 :: nat) ^ 128 = 16 ^ 32" by (simp flip: power_mult [of 2 4, simplified])
  with assms have "scan16 (c # d # cs) False 0 = Some (u, [])"
    using scan16_digits [OF small, of 0] h by (simp add: hex32_digits digits16_value del: scan16.simps)
  with plain hexc show ?thesis by (simp add: int16_def h skip sign del: scan16.simps dropWhile.simps)
qed

lemma uuid_of_canonical:
  assumes "u < 2 ^ 128"
  shows "uuid_of_text (uuid_text u) = Inr u"
proof -
  have no: "c \<noteq> 117 \<and> c \<noteq> 123 \<and> c \<noteq> 125" if "c \<in> set (uuid_text u)" for c
    using uuid_text_chars [OF that] by (auto dest: hex32_chars)
  have "remove_text (str ''urn:'') (uuid_text u) = uuid_text u" "remove_text (str ''uuid:'') (uuid_text u) = uuid_text u"
    using no by (auto intro!: remove_text_absent dest: no)
  moreover have "strip_chars [123, 125] (uuid_text u) = uuid_text u"
    using no by (intro strip_chars_absent) auto
  moreover have "remove_text (str ''-'') (uuid_text u) = hex32 u"
    using remove_char [of 45 "uuid_text u"] uuid_text_hex [of u] by simp
  ultimately show ?thesis
    using assms hex32_int16 [OF assms] length_hex32 [of u] by (simp add: uuid_of_text_def)
qed

text \<open>
  Claim C40: an identifier that is written and read back is the same, on PostgreSQL and on a database that
  stores texts, in whatever accepted form it was given; on the latter all forms of one identifier are
  stored as the same canonical text, so they are equal as keys.
\<close>

theorem guid_round_trip:
  assumes "case v of Uuid w \<Rightarrow> w = u \<and> u < 2 ^ 128 | Text_form t \<Rightarrow> uuid_of_text t = Inr u"
  shows "\<exists>w. process_bind_param (Some v) d = Inr (Some w) \<and> process_result_value (Some w) = Inr (Some u)
    \<and> w = (case d of Postgresql \<Rightarrow> Uuid u | Other_dialect \<Rightarrow> Text_form (uuid_text u))"
proof -
  let ?w = "case d of Postgresql \<Rightarrow> Uuid u | Other_dialect \<Rightarrow> Text_form (uuid_text u)"
  have "u < 2 ^ 128" using assms
    by (auto simp: uuid_of_text_def Let_def nat_less_iff split: guid_value.splits if_splits option.splits)
  then have "process_result_value (Some ?w) = Inr (Some u)"
    by (cases d) (simp_all add: process_result_value_def uuid_of_canonical)
  moreover have "process_bind_param (Some v) d = Inr (Some ?w)"
    using assms by (simp add: process_bind_param_def split: guid_value.splits)
  ultimately show ?thesis by blast
qed

lemma braced_accepted: "uuid_of_text (str ''{00000000-0000-0000-0000-00000000001F}'') = Inr 31"
  by (simp add: uuid_of_text_def remove_char strip_chars_def remove_text_absent int16_def plain_char_def ascii_space_def
      skip_0x_def read_sign_def hex_val_def)

theorem guid_round_trip_witness:
  "\<exists>w. process_bind_param (Some (Text_form (str ''{00000000-0000-0000-0000-00000000001F}''))) Other_dialect = Inr (Some w)
     \<and> process_result_value (Some w) = Inr (Some 31) \<and> w = Text_form (uuid_text 31)"
  using guid_round_trip [where v = "Text_form (str ''{00000000-0000-0000-0000-00000000001F}'')" and u = 31 and d = Other_dialect] braced_accepted
  by (simp only: guid_value.case dialect.case)

end
