(* ===== verification/Mail_Message.thy ===== *)
theory Mail_Message
  imports Notifications
begin

text \<open>
  The inside of \<open>EmailClient.send\<close> (\<^verbatim>\<open>infra/email\<close>): the rendered template is cut into a subject and a
  body, the message gets its headers and goes to the relay. The services are modelled on
  \<open>email_send\<close>, which only asks whether the template renders and the relay accepts; the property
  below says when the code does that. Jinja is a parameter (\<open>render\<close>, and \<open>context_repr\<close> for a template
  that is not there), the relay is \<open>accepts\<close>; \<open>str.splitlines\<close> and the header check of
  \<open>EmailMessage\<close> are written out.
\<close>

section \<open>Lines\<close>

definition line_break :: "nat \<Rightarrow> bool" where
  "line_break c \<longleftrightarrow> c \<in> {10, 11, 12, 13, 28, 29, 30, 133, 8232, 8233}"

text \<open>The first line of a text and what follows its line break; a return and a line feed are one break.\<close>

fun cut_line :: "pystr \<Rightarrow> pystr \<times> pystr" where
  "cut_line [] = ([], [])"
| "cut_line (c # cs) =
     (if line_break c then ([], case cs of d # ds \<Rightarrow> if c = 13 \<and> d = 10 then ds else cs | [] \<Rightarrow> [])
      else (case cut_line cs of (l, r) \<Rightarrow> (c # l, r)))"

lemma cut_line_shorter: "length (snd (cut_line s)) \<le> length s - 1"
proof (induction s)
  case (Cons c cs)
  then show ?case
    by (cases "line_break c"; cases "cut_line cs"; cases cs) auto
qed simp

function splitlines :: "pystr \<Rightarrow> pystr list" where
  "splitlines [] = []"
| "splitlines (c # cs) = fst (cut_line (c # cs)) # splitlines (snd (cut_line (c # cs)))"
  by pat_completeness auto
termination
proof (relation "measure length", simp)
  fix c :: nat and cs :: pystr
  show "(snd (cut_line (c # cs)), c # cs) \<in> measure length"
    using cut_line_shorter [of "c # cs"] by (simp del: cut_line.simps)
qed

lemma cut_line_whole: "c \<in> set (fst (cut_line s)) \<Longrightarrow> \<not> line_break c"
  by (induction s) (auto split: if_splits prod.splits)

lemma splitlines_whole: "l \<in> set (splitlines s) \<Longrightarrow> c \<in> set l \<Longrightarrow> \<not> line_break c"
  by (induction s rule: splitlines.induct) (auto simp del: cut_line.simps dest: cut_line_whole)

definition join_lines :: "pystr list \<Rightarrow> pystr" where
  "join_lines ls = (case ls of [] \<Rightarrow> [] | l # ls' \<Rightarrow> l @ concat (map (\<lambda>m. 10 # m) ls'))"

section \<open>Subject and body\<close>

record mail_client =
  email_from :: pystr
  smtp_reply_to :: "pystr option"
  render :: "notification_template \<Rightarrow> context_dict \<Rightarrow> exn + pystr"
  template_exists :: "notification_template \<Rightarrow> bool"
  template_name :: "notification_template \<Rightarrow> pystr"
  context_repr :: "context_dict \<Rightarrow> pystr"

definition render_parts :: "mail_client \<Rightarrow> notification_template \<Rightarrow> context_dict \<Rightarrow> exn + pystr \<times> pystr" where
  "render_parts M t ctx =
     (let fallback = str ''[BCMS] '' @ template_name M t in
      if \<not> template_exists M t then Inr (fallback, str ''context='' @ context_repr M ctx)
      else case render M t ctx of
        Inl e \<Rightarrow> Inl e
      | Inr rendered \<Rightarrow>
          (let ls = splitlines rendered in
           if ls = [] then Inr (fallback, [])
           else Inr (strip (hd ls),
             if 1 < length ls \<and> ls ! 1 = [] then join_lines (drop 2 ls) else join_lines (drop 1 ls))))"

section \<open>The message\<close>

type_synonym headers = "(string \<times> pystr) list"

text \<open>A header value with a line feed or a return is refused.\<close>

definition one_line :: "pystr \<Rightarrow> bool" where
  "one_line v \<longleftrightarrow> list_all (\<lambda>c. c \<noteq> 10 \<and> c \<noteq> 13) v"

definition set_header :: "string \<Rightarrow> pystr \<Rightarrow> headers \<Rightarrow> exn + headers" where
  "set_header n v hs = (if one_line v then Inr (hs @ [(n, v)]) else Inl Value_error)"

fun set_headers :: "(string \<times> pystr) list \<Rightarrow> headers \<Rightarrow> exn + headers" where
  "set_headers [] hs = Inr hs"
| "set_headers ((n, v) # nvs) hs = (case set_header n v hs of Inl e \<Rightarrow> Inl e | Inr hs' \<Rightarrow> set_headers nvs hs')"

definition join_comma :: "pystr list \<Rightarrow> pystr" where
  "join_comma ls = (case ls of [] \<Rightarrow> [] | l # ls' \<Rightarrow> l @ concat (map (\<lambda>m. str '', '' @ m) ls'))"

text \<open>\<open>reply_to or settings.smtp_reply_to\<close>, and the header only if that is a text with characters.\<close>

definition resolved_reply_to :: "mail_client \<Rightarrow> pystr option \<Rightarrow> pystr option" where
  "resolved_reply_to M reply_to = (case reply_to of
      Some (c # cs) \<Rightarrow> Some (c # cs)
    | _ \<Rightarrow> (case smtp_reply_to M of Some (c # cs) \<Rightarrow> Some (c # cs) | _ \<Rightarrow> None))"

definition wanted_headers :: "mail_client \<Rightarrow> pystr \<Rightarrow> pystr list option \<Rightarrow> pystr option \<Rightarrow> pystr \<Rightarrow> headers" where
  "wanted_headers M recipient cc reply_to subject =
     [(''From'', email_from M), (''To'', recipient)]
     @ (case cc of Some (c # cs) \<Rightarrow> [(''Cc'', join_comma (c # cs))] | _ \<Rightarrow> [])
     @ (case resolved_reply_to M reply_to of Some r \<Rightarrow> [(''Reply-To'', r)] | None \<Rightarrow> [])
     @ [(''Subject'', subject)]"

definition send_mail :: "mail_client \<Rightarrow> (headers \<Rightarrow> pystr \<Rightarrow> bool) \<Rightarrow> notification_template \<Rightarrow> pystr \<Rightarrow> context_dict
    \<Rightarrow> pystr list option \<Rightarrow> pystr option \<Rightarrow> exn + headers \<times> pystr" where
  "send_mail M accepts t recipient ctx cc reply_to =
     (case render_parts M t ctx of
        Inl e \<Rightarrow> Inl e
      | Inr (subject, body) \<Rightarrow>
          (case set_headers (wanted_headers M recipient cc reply_to subject) [] of
             Inl e \<Rightarrow> Inl e
           | Inr hs \<Rightarrow> if accepts hs body then Inr (hs, body) else Inl (app_err InfraError ''NOTIFY_001'')))"

lemma set_headers_result: "set_headers nvs hs = (if list_all (\<lambda>(n, v). one_line v) nvs then Inr (hs @ nvs) else Inl Value_error)"
  by (induction nvs arbitrary: hs) (auto simp: set_header_def)

lemma set_strip: "set (strip s) \<subseteq> set s"
  unfolding strip_def set_rev by (auto dest!: set_dropWhileD)

lemma subject_one_line:
  assumes "render_parts M t ctx = Inr (subject, body)" "one_line (template_name M t)"
  shows "one_line subject"
proof -
  have first: "one_line (strip (hd (splitlines s)))" if "splitlines s \<noteq> []" for s
  proof -
    have "\<not> line_break c" if "c \<in> set (strip (hd (splitlines s)))" for c
      using splitlines_whole [of "hd (splitlines s)" s c] set_strip [of "hd (splitlines s)"] that \<open>splitlines s \<noteq> []\<close> by auto
    then show ?thesis by (auto simp: one_line_def list_all_iff line_break_def)
  qed
  from assms show ?thesis
    by (auto simp: render_parts_def Let_def one_line_def split: if_splits sum.splits dest!: first [unfolded one_line_def])
qed

lemma wanted_one_line:
  assumes "one_line (email_from M)" "\<And>r. smtp_reply_to M = Some r \<Longrightarrow> one_line r" "one_line subject"
  shows "list_all (\<lambda>(n, v). one_line v) (wanted_headers M recipient None None subject) \<longleftrightarrow> one_line recipient"
  using assms by (auto simp: wanted_headers_def resolved_reply_to_def split: option.splits list.splits)

text \<open>
  A template's text never breaks the headers of a message. Sending does what the services are
  modelled with (an exception of a template that lacks a value, \<open>NOTIFY_001\<close> when the relay refuses,
  success otherwise) except for a recipient with a line break, which is refused with
  \<open>ValueError\<close>; and what reaches the relay is addressed to that recipient, with a subject and with no
  line break in any header.
\<close>

theorem mail_refines_email_send:
  assumes strict: "\<And>c. render M t c = (if renders t c then Inr (rendered c) else Inl Undefined_error)"
    and there: "template_exists M t" "one_line (template_name M t)"
    and relay: "\<And>hs body. accepts hs body = smtp E t recipient"
    and plain: "one_line (email_from M)" "\<And>r. smtp_reply_to M = Some r \<Longrightarrow> one_line r"
  shows "case send_mail M accepts t recipient ctx None None of
      Inl e \<Rightarrow> (if renders t ctx \<and> \<not> one_line recipient then e = Value_error
        else fst (email_send E t recipient ctx s) = Inl e)
    | Inr (hs, body) \<Rightarrow> fst (email_send E t recipient ctx s) = Inr () \<and> map_of hs ''To'' = Some recipient
        \<and> list_all (\<lambda>(n, v). one_line v) hs \<and> ''Subject'' \<in> fst ` set hs"
proof (cases "renders t ctx")
  case False
  then have "render_parts M t ctx = Inl Undefined_error" by (simp add: render_parts_def strict there Let_def)
  with False show ?thesis by (simp add: send_mail_def email_send_def act_simps)
next
  case True
  then obtain subject body where parts: "render_parts M t ctx = Inr (subject, body)"
    by (cases "splitlines (rendered ctx) = []") (auto simp: render_parts_def strict there Let_def)
  have ok: "list_all (\<lambda>(n, v). one_line v) (wanted_headers M recipient None None subject) \<longleftrightarrow> one_line recipient"
    by (rule wanted_one_line [OF plain subject_one_line [OF parts there(2)]])
  have addressed: "map_of (wanted_headers M recipient None None subject) ''To'' = Some recipient"
    "''Subject'' \<in> fst ` set (wanted_headers M recipient None None subject)"
    by (simp_all add: wanted_headers_def)
  show ?thesis
    using True ok addressed by (simp add: send_mail_def parts set_headers_result relay email_send_def act_simps)
qed

definition mail0 :: mail_client where
  "mail0 = \<lparr>email_from = str ''noreply'', smtp_reply_to = None,
     render = (\<lambda>t ctx. if renders t ctx then Inr (str ''subject'' @ [13, 10, 10] @ str ''body'') else Inl Undefined_error),
     template_exists = (\<lambda>t. True), template_name = (\<lambda>t. str ''mail''), context_repr = (\<lambda>ctx. [])\<rparr>"

definition context0 :: context_dict where
  "context0 = map (\<lambda>n. (n, JNull)) (template_vars CYCLE_OPENED)"

theorem mail_refines_email_send_witness:
  "case send_mail mail0 (\<lambda>hs body. True) CYCLE_OPENED (str ''a@b'') context0 None None of
      Inl e \<Rightarrow> (if renders CYCLE_OPENED context0 \<and> \<not> one_line (str ''a@b'') then e = Value_error
        else fst (email_send env0 CYCLE_OPENED (str ''a@b'') context0 (session_of empty_db)) = Inl e)
    | Inr (hs, body) \<Rightarrow> fst (email_send env0 CYCLE_OPENED (str ''a@b'') context0 (session_of empty_db)) = Inr ()
        \<and> map_of hs ''To'' = Some (str ''a@b'') \<and> list_all (\<lambda>(n, v). one_line v) hs \<and> ''Subject'' \<in> fst ` set hs"
  by (rule mail_refines_email_send [where rendered = "\<lambda>ctx. str ''subject'' @ [13, 10, 10] @ str ''body''"])
    (simp_all add: mail0_def one_line_def)

end
