(* ===== verification/Spec2Isabelle.thy ===== *)
theory Spec2Isabelle
  imports Application Schema Guid Mail_Message
begin

text \<open>
  A model of the backend of BCMS, a platform on which a company collects its yearly budget: an
  administrator opens a budget cycle, every filing unit gets a workbook and uploads it filled in, human
  resources and finance import personnel and shared costs, and the consolidated report compares the budgets
  with the actual expenses. The code is \<^verbatim>\<open>src/backend/src/app\<close> (paths below are relative to it) and the
  migrations in \<^verbatim>\<open>src/backend/alembic/versions\<close>.

  \<^bold>\<open>How the program is modelled.\<close> The database is a record of tables (lists of rows) with the constraints the
  schema declares. A session (\<open>session\<close> in \<open>Models\<close>) holds the committed tables, the tables as the open
  transaction sees them, the clock, and the effects outside the database: stored files and sent mails. A
  service method or a route is an operation \<open>('a op)\<close>, a function from a session to a result or an exception
  and the session after it; exceptions are the datatype \<open>exn\<close> with the codes and the HTTP status of
  \<^verbatim>\<open>core/errors.py\<close>. Sequencing, raising, catching, commit and rollback are written where the code has them, so
  what is lost when a request fails is part of the model. Python integers are \<open>int\<close>; money is an \<open>int\<close> of
  cents, because the code quantizes it to two places; times are microseconds, days are day numbers; a text is the
  list of its code points and a file the list of its bytes. Requests run one after the other, except
  where the code is built for several processes: the job queue (\<open>Jobs\<close>) interleaves workers, and \<open>Audit_Log\<close> says
  what two concurrent records do.

  \<^bold>\<open>The theories.\<close>
  \<^item> \<open>BCMS_Prelude\<close>: texts, the operations and their laws (\<open>act_simps\<close>, \<open>preserves_intros\<close>), tables and dictionaries.
    \<open>Py_Decimal\<close>, \<open>Text_Encoding\<close>: what the code uses of Python's decimals and of UTF-8.
  \<^item> \<open>Core_Errors\<close> (\<^verbatim>\<open>core/errors.py\<close>, handlers of \<^verbatim>\<open>main.py\<close>), \<open>Models\<close> (the ORM classes, the constraints, sessions),
    \<open>Config\<close> (\<^verbatim>\<open>config.py\<close> and what comes from outside), \<open>Samples\<close> (concrete inputs of the witnesses).
  \<^item> \<open>Settings_Keys\<close> (\<^verbatim>\<open>config.py\<close>, \<^verbatim>\<open>infra/crypto\<close>), \<open>Guid\<close> (\<^verbatim>\<open>domain/audit/models.py\<close>) and \<open>Mail_Message\<close> (\<^verbatim>\<open>infra/email\<close>): what is
    below the level of the services, shown to be what they are modelled on: the keys that accepted
    settings give, the stored form of identifiers, the headers of a mail.
  \<^item> \<open>Audit_Log\<close> (\<^verbatim>\<open>domain/audit\<close>): the hash chain; every record keeps it, the verifier accepts exactly
    chained logs.
  \<^item> \<open>Rbac\<close>, \<open>Sso\<close>, \<open>Auth\<close>, \<open>Admin\<close> (\<^verbatim>\<open>core/security\<close>, \<^verbatim>\<open>infra/sso\<close>, \<^verbatim>\<open>api/v1/auth.py\<close>, \<^verbatim>\<open>api/v1/admin\<close>): roles and scopes, login,
    sessions, cookies, tokens, administration of users and units.
  \<^item> \<open>Cycles\<close>, \<open>Reminders\<close>, \<open>Open_Cycle\<close>, \<open>Routes\<close> (\<^verbatim>\<open>domain/cycles\<close>, \<^verbatim>\<open>api/v1/orchestrators\<close>, \<^verbatim>\<open>api/v1/cycles.py\<close>,
    \<^verbatim>\<open>api/v1/audit.py\<close>): the life of a cycle, refined to an abstract step relation; reminders; the orchestration
    of opening; the remaining routes.
  \<^item> \<open>Notifications\<close> (\<^verbatim>\<open>domain/notifications\<close>, \<^verbatim>\<open>infra/email\<close>), \<open>Storage\<close> (\<^verbatim>\<open>infra/storage\<close>, \<^verbatim>\<open>infra/crypto\<close>), \<open>File_Reading\<close>
    (\<^verbatim>\<open>infra/csv_io\<close>, \<^verbatim>\<open>infra/excel\<close>, \<^verbatim>\<open>infra/tabular.py\<close>), \<open>Row_Validation\<close> (\<^verbatim>\<open>domain/_shared\<close>).
  \<^item> \<open>Accounts\<close>, \<open>Versions\<close>, \<open>Budget_Uploads\<close>, \<open>Imports\<close>, \<open>Personnel\<close>, \<open>Shared_Costs\<close>, \<open>Templates\<close> (the directories of \<^verbatim>\<open>domain\<close> of
    these names and their routes): the validators, the uploads with their versions, the workbooks.
  \<^item> \<open>Reports\<close>, \<open>Report_Files\<close>, \<open>Exports\<close>, \<open>Dashboard\<close> (\<^verbatim>\<open>domain/consolidation\<close>, \<^verbatim>\<open>api/v1/reports.py\<close>, \<^verbatim>\<open>api/v1/dashboard.py\<close>) and
    \<open>Jobs\<close> (\<^verbatim>\<open>infra/jobs\<close>): the report, its files, the asynchronous export through the queue, the dashboard.
  \<^item> \<open>Application\<close> (\<^verbatim>\<open>api/v1/router.py\<close>, \<^verbatim>\<open>deps.py\<close>): all routes with the roles they ask for, behind the
    authentication, and the steps of the whole system: requests, logins, job rounds, reminder runs, time.
  \<^item> \<open>Schema\<close> (\<^verbatim>\<open>alembic/versions\<close>): the migrations as statements on a catalog, compared with the ORM classes.

  \<^bold>\<open>Interfaces.\<close> \<open>row_validator\<close> is what the four file validators share (errors in file order, each
  at its row, and cleaned rows only when there is none), \<open>version_store\<close> the numbering of uploads, \<open>job_handlers\<close> what the worker
  asks of a handler, \<open>audited_inv\<close> what an invariant must admit for every operation to keep it; each is interpreted on the model's own definitions in the theory of its provider.

  \<^bold>\<open>What the lemmas show.\<close> For every operation a lemma \<open>..._run\<close> gives its result on every branch; \<open>store_inv\<close> (the
  tables satisfy their constraints and the audit chain is intact, in the transaction and as committed) is
  kept by every operation, by the rules in \<open>preserves_intros\<close>; so is, by the same lemmas of \<open>audited_inv\<close>, that the audit log
  begins with the rows it had. \<open>Application\<close> concludes both for every state the system can reach, and that
  no route serves a user without one of its roles. On these rest the properties, numbered claims:
  a filled-in template shows in the report (this theory), refinement of the cycle and of the job
  queue to step relations, effects of the uploads as the report and
  the dashboard then read them, round trips (workbooks, CSV files, stored files, migrations), equivalences
  (breadth-first search and reachability, totals, pages and exports), what authentication guarantees
  after a refresh, a login and a deactivation, termination, liveness of the worker, bounds, and the places
  where the code does not do what its documentation says.

  \<^bold>\<open>Bounds and loops.\<close> Every loop over rows is structural. The search of the org tree removes a unit from those left in
  every round and is total; the climb to a manager keeps the units it has visited, as in the code, and is total; the walk up of the
  reminders keeps nothing and is a \<open>partial_function (option)\<close>: it is shown to return on acyclic tables and
  not to return on some cyclic ones. A worker runs a given number of rounds, and the liveness
  property says how many suffice.

  \<^bold>\<open>Parameters.\<close> The record \<open>env\<close> holds what comes from libraries: the keyed hashes, AES-GCM, openpyxl's reading
  and writing of workbooks, the SMTP relay, random tokens; \<open>outside\<close> (in \<open>Sso\<close>) the identity provider's HTTP
  answers and PyJWT. Where a property needs more of them than totality (decryption inverts encryption, a
  decoded token is the encoded one until it expires) this is a named hypothesis, and its witness gives a
  computable instance.

  \<^bold>\<open>Not modelled.\<close> The frontend; logging; the scheduler, a wrapper around APScheduler (its callback is in
  \<open>Reminders\<close>); the wiring of FastAPI (service factories, middleware, the decoding of paths and bodies)
  beyond what a route is given; Pydantic's coercions of well-typed bodies; the configuration of Alembic and the engine; database
  failures other than violated constraints; texts of messages and what Jinja renders; symbolic links
  below the storage root. Isolation between concurrent transactions is modelled only for the job queue and the
  audit log. The services are modelled on the tables as the ORM classes declare them; \<open>Schema\<close> shows
  where the migrated database differs.
\<close>

section \<open>From the template to the report\<close>

lemma upload_keeps_masters:
  assumes "store_inv E s" "cur s = com s"
    and "budget_upload_file False E cid unit_id filename content u s = (Inr up, t)"
  shows "org_units (com t) = org_units (com s)" "account_codes (com t) = account_codes (com s)"
proof -
  from budget_upload_Inr [OF seq_fresh_based [OF assms(1)] assms(3), unfolded assms(2)] obtain w c rs row
    where "com t = (with_budget up (budget_lines_of (bu_id up) (account_ids (com s) (br_account_code ` set rs)) rs) (com s))
        \<lparr>audit_logs := audit_logs (com s) @ [row]\<rparr>" .
  then show "org_units (com t) = org_units (com s)" "account_codes (com t) = account_codes (com s)"
    by (simp_all add: with_budget_def)
qed

lemma accepted_filled_rows:
  assumes "budget_accepted E cid unit_id content u d = Inr (w, c', rs)"
    and "load_workbook E content = Some (filled_book c w (load_operational_accounts d) actuals amounts)"
    and "int (length content) \<le> max_upload_bytes (cfg E)" "int (length (load_operational_accounts d)) \<le> max_upload_rows (cfg E)"
    and "\<forall>a \<in> set (account_codes d). strip (ac_code a) = ac_code a \<and> ac_code a \<noteq> []"
    and "a \<in> set (account_codes d)" "category a = operational"
  shows "\<exists>r \<in> set rs. br_account_code r = ac_code a \<and> parse_amount (amounts (ac_code a)) True = Inr (br_amount r)"
proof -
  from filled_book_accepted [OF assms(2-5)] assms(1)
  have "list_all2 (\<lambda>a r. br_account_code r = ac_code a \<and> parse_amount (amounts (ac_code a)) True = Inr (br_amount r))
      (load_operational_accounts d) rs"
    by (auto simp: budget_accepted_def split: option.splits sum.splits if_splits)
  moreover have "a \<in> set (load_operational_accounts d)" using assms(6,7) by (simp add: operational_accounts)
  ultimately show ?thesis by (fastforce simp: list_all2_conv_all_nth in_set_conv_nth)
qed

text \<open>
  Claim C6: from the template to the report. A unit's workbook, filled in and uploaded, either changes
  nothing that is committed, or every operational account has an amount in it that parses and the
  consolidated report of everyone who sees the unit then has exactly one row for the unit and the account, with that
  amount as its budget, marked as uploaded, and with the difference from the actual where there is one.
\<close>

theorem filled_template_reported:
  assumes "store_inv E s" "cur s = com s" "uploads_fresh s"
    and w: "get_row ou_id unit_id (org_units (com s)) = Some w" "unit_in_scope unit_id sc"
    and book: "load_workbook E content = Some (filled_book c w (load_operational_accounts (com s)) actuals amounts)"
    and limits: "int (length content) \<le> max_upload_bytes (cfg E)"
      "int (length (load_operational_accounts (com s))) \<le> max_upload_rows (cfg E)"
    and codes: "\<forall>a \<in> set (account_codes (com s)). strip (ac_code a) = ac_code a \<and> ac_code a \<noteq> []"
  shows "case budget_upload_file False E cid unit_id filename content u s of
      (Inl e, t) \<Rightarrow> com t = com s
    | (Inr up, t) \<Rightarrow> \<forall>a \<in> set (account_codes (com s)). category a = operational \<longrightarrow>
        (\<exists>x r. parse_amount (amounts (ac_code a)) True = Inr x
          \<and> filter (\<lambda>r. row_unit_id r = unit_id \<and> row_account_code r = ac_code a) (rep_rows (report_build cid sc (com t))) = [r]
          \<and> operational_budget r = Some x \<and> budget_status r = uploaded
          \<and> delta_amount r = map_option (\<lambda>y. x - y) (row_actual r))"
proof -
  obtain res t where run: "budget_upload_file False E cid unit_id filename content u s = (res, t)" by fastforce
  show ?thesis
  proof (cases res)
    case (Inl e)
    with run budget_upload_Inl [OF seq_fresh_based [OF assms(1)]] assms(2) show ?thesis by simp
  next
    case (Inr up)
    note run = run [unfolded Inr]
    from budget_upload_Inr [OF seq_fresh_based [OF assms(1)] run, unfolded assms(2)] obtain w' c' rs
      where acc': "budget_accepted E cid unit_id content u (com s) = Inr (w', c', rs)" by metis
    then have "w' = w" using w(1) by (auto simp: budget_accepted_def split: option.splits sum.splits if_splits)
    note acc = acc' [unfolded this]
    note masters = upload_keeps_masters [OF assms(1,2) run]
    have ok: "db_ok (com t)" "accounts_ok (account_codes (com s))"
      using uploaded_facts(3,4) [OF assms(1-3) run acc] by (simp_all add: db_ok_def)
    have wt: "w \<in> set (org_units (com t))" "ou_id w = unit_id" using get_row_Some [OF w(1)] masters(1) by simp_all
    have "\<exists>x r. parse_amount (amounts (ac_code a)) True = Inr x
          \<and> filter (\<lambda>r. row_unit_id r = unit_id \<and> row_account_code r = ac_code a) (rep_rows (report_build cid sc (com t))) = [r]
          \<and> operational_budget r = Some x \<and> budget_status r = uploaded
          \<and> delta_amount r = map_option (\<lambda>y. x - y) (row_actual r)"
      if a: "a \<in> set (account_codes (com s))" "category a = operational" for a
    proof -
      from accepted_filled_rows [OF acc book limits codes a] obtain r where
        r: "r \<in> set rs" "br_account_code r = ac_code a" "parse_amount (amounts (ac_code a)) True = Inr (br_amount r)" by blast
      from uploaded_in_file [OF assms(1-3) run acc r(1)] obtain a' where
        a': "a' \<in> set (account_codes (com s))" "ac_code a' = ac_code a"
        "map_of (budget_latest_by_cycle cid (com t)) (unit_id, ac_id a') = Some (br_amount r)" unfolding r(2) by blast
      have "a' = a" using ok(2) a(1) a'(1,2) by (metis accounts_ok_def distinct_map_eq)
      with a'(3) cells(1) [OF ok(1)] have b: "cell_budget cid (com t) (ou_id w) (ac_id a) = Some (br_amount r)" by (simp add: wt(2))
      have at: "a \<in> set (account_codes (com t))" "ac_code a \<noteq> []" using a(1) codes masters(2) by simp_all
      show ?thesis
        using report_cell_rows [OF ok(1) wt(1) at, of cid sc] in_report_keys [OF ok(1), of "ou_id w" "ac_id a" cid]
          build_row_cells [OF ok(1), of w a cid] b w(2) r(3) wt(2)
        by (simp add: Let_def split: option.splits)
    qed
    with run show ?thesis by simp
  qed
qed

definition env_filled :: env where
  "env_filled = env0\<lparr>load_workbook :=
     (\<lambda>b. Some (filled_book cycle0 unit1 (load_operational_accounts accounts_db) [] (\<lambda>_. Cell_Int 300)))\<rparr>"

definition viewer0 :: report_scope where
  "viewer0 = \<lparr>scope_user_id = 51, scope_units = [], all_scopes = True\<rparr>"

lemma env_filled_simps:
  "cfg env_filled = default_settings" "storage_ok env_filled" "cipher_ok env0 \<Longrightarrow> cipher_ok env_filled"
  "load_workbook env_filled b = Some (filled_book cycle0 unit1 (load_operational_accounts accounts_db) [] (\<lambda>_. Cell_Int 300))"
  by (simp_all add: env_filled_def cipher_ok_def)

lemma env_filled_inv: "store_inv env_filled (session_of accounts_db)"
  using accounts_db_inv by (simp add: store_inv_def chain_inv_def log_ok_def accounts_db_uploads)

lemma sample_accounts: "account_codes accounts_db = [account0]" "load_operational_accounts accounts_db = [account0]"
  "ac_code account0 = str ''5100''" "category account0 = operational"
  by (simp_all add: accounts_db_def load_operational_accounts_def account0_def order_asc_def)

lemma amount_300: "parse_amount (Cell_Int 300) True = Inr 30000"
  by (simp add: parse_amount_def amount_value_def quantize_cents_def round_half_even_def)

lemma sample_codes: "\<forall>a \<in> set (account_codes accounts_db). strip (ac_code a) = ac_code a \<and> ac_code a \<noteq> []"
  by (simp add: sample_accounts strip_def is_space_def)

lemma filled_sample:
  "\<exists>r. budget_accepted env_filled 7 2 [80, 75] admin0 accounts_db = Inr (unit1, cycle0\<lparr>cycle_status := open\<rparr>, [r])
     \<and> br_account_code r = str ''5100'' \<and> br_amount r = 30000"
proof -
  from filled_book_accepted [OF env_filled_simps(4) _ _ sample_codes, of "[80, 75]"] obtain result where
    res: "validate_budget env_filled [80, 75] (ou_code unit1) (operational_codes accounts_db) = Inr result" "valid result"
    and l: "list_all2 (\<lambda>a r. br_account_code r = ac_code a \<and> parse_amount (Cell_Int 300) True = Inr (br_amount r))
      [account0] (rows result)"
    by (auto simp: env_filled_simps sample_accounts amount_300 empty_cell_def)
  from l obtain r where r: "rows result = [r]" "br_account_code r = str ''5100''" "br_amount r = 30000"
    by (auto simp: list_all2_Cons1 amount_300 sample_accounts)
  have "get_row cycle_id 7 (budget_cycles accounts_db) = Some (cycle0\<lparr>cycle_status := open\<rparr>)"
    "get_row ou_id 2 (org_units accounts_db) = Some unit1" "in_scope (scoped_org_units admin0 accounts_db) 2"
    by (simp_all add: accounts_db_def cycle0_def org_db_def get_row_def unit0_def unit1_def scoped_org_units_def
        global_roles_def)
  with res r show ?thesis by (simp add: budget_accepted_def)
qed

lemma filled_upload:
  "\<exists>up t. budget_upload_file False env_filled 7 2 (str ''b.xlsx'') [80, 75] admin0 (session_of accounts_db) = (Inr up, t)"
proof -
  obtain r where acc: "budget_accepted env_filled 7 2 [80, 75] admin0 accounts_db = Inr (unit1, cycle0\<lparr>cycle_status := open\<rparr>, [r])"
    and r: "br_amount r = 30000" using filled_sample by blast
  have ok: "db_ok accounts_db" using env_filled_inv by (simp add: store_inv_def)
  have "db_ok (accounts_db\<lparr>budget_uploads := [up]\<rparr>)" if "file_size_bytes up = 2" "row_count up = 1" for up
    using that ok by (simp add: db_ok_def constraint_defs accounts_db_uploads)
  moreover have "db_ok (accounts_db\<lparr>budget_uploads := [up], budget_lines := [l]\<rparr>)"
    if "file_size_bytes up = 2" "row_count up = 1" "bl_amount l = 30000" for up l
    using that ok by (simp add: db_ok_def constraint_defs accounts_db_uploads)
  ultimately show ?thesis
    by (simp add: budget_upload_run [OF seq_fresh_based [OF env_filled_inv]] acc r Let_def
        new_budget_upload_def with_budget_def budget_lines_of_def send_confirmation_def
        accounts_db_uploads env_filled_simps act_simps)
qed

theorem filled_template_reported_witness:
  "\<exists>up t r. budget_upload_file False env_filled 7 2 (str ''b.xlsx'') [80, 75] admin0 (session_of accounts_db) = (Inr up, t)
     \<and> filter (\<lambda>r. row_unit_id r = 2 \<and> row_account_code r = str ''5100'') (rep_rows (report_build 7 viewer0 (com t))) = [r]
     \<and> operational_budget r = Some 30000"
proof -
  obtain up t where run: "budget_upload_file False env_filled 7 2 (str ''b.xlsx'') [80, 75] admin0
      (session_of accounts_db) = (Inr up, t)" using filled_upload by blast
  have "uploads_fresh (session_of accounts_db)"
    by (simp add: uploads_fresh_def accounts_db_uploads) (simp add: accounts_db_def org_db_def)
  moreover have "get_row ou_id 2 (org_units (com (session_of accounts_db))) = Some unit1" "unit_in_scope 2 viewer0"
    by (simp_all add: accounts_db_def org_db_def get_row_def unit0_def unit1_def viewer0_def unit_in_scope_def)
  ultimately show ?thesis
    using filled_template_reported [OF env_filled_inv, where cid = 7 and unit_id = 2 and sc = viewer0 and content = "[80, 75]"
        and filename = "str ''b.xlsx''" and u = admin0 and c = cycle0 and w = unit1 and actuals = "[]"
        and amounts = "\<lambda>_. Cell_Int 300"] run sample_codes
    by (simp add: env_filled_simps sample_accounts amount_300) blast
qed

end
